theory Spec2Isabelle
  imports Main "HOL-Library.Word" "HOL-Library.Sublist"
begin

section \<open>Characters and strings of the dump format\<close>

abbreviation backslash :: char where "backslash \<equiv> CHR 0x5C"
abbreviation tab :: char where "tab \<equiv> CHR 0x09"
abbreviation LF :: char where "LF \<equiv> CHR 0x0A"
abbreviation CR :: char where "CR \<equiv> CHR 0x0D"
abbreviation dquote :: char where "dquote \<equiv> CHR 0x22"
abbreviation semicolon :: char where "semicolon \<equiv> CHR 0x3B"

section \<open>The source schema model (package schema)\<close>

text \<open>Modelled from the spec: the declarations of package \<^verbatim>\<open>schema\<close> (Key, Type, Column,
  ForeignKey, Index, Table) are not among the source files; the records below follow
  section 3 of the specification and the field names \<^verbatim>\<open>pgdump.go\<close> uses. Field names
  that several Go structs share (\<^verbatim>\<open>Name\<close>) carry a prefix here. A Go map field is an
  optional map: \<open>None\<close> is the nil map, which reads as empty and panics when written.\<close>

record Key =
  KeyColumn :: string
  Desc :: bool

record SrcType =
  TypeName :: string
  Mods :: "int list"
  ArrayBounds :: "int list"

record Column =
  ColName :: string
  ColType :: SrcType
  NotNull :: bool
  IgnoredDefault :: bool

record ForeignKey =
  FkName :: string
  Columns :: "string list"
  ReferTable :: string
  ReferColumns :: "string list"

record Index =
  IdxName :: string
  Unique :: bool
  Keys :: "Key list"

record Table =
  TblName :: string
  ColNames :: "string list"
  ColDefs :: "(string \<rightharpoonup> Column) option"
  PrimaryKeys :: "Key list"
  ForeignKeys :: "ForeignKey list"
  Indexes :: "Index list"

text \<open>Go's zero values, which a map read returns for an absent key.\<close>

definition zeroColumn :: Column where
  "zeroColumn = \<lparr>ColName = [], ColType = \<lparr>TypeName = [], Mods = [], ArrayBounds = []\<rparr>,
     NotNull = False, IgnoredDefault = False\<rparr>"

definition zeroTable :: Table where
  "zeroTable = \<lparr>TblName = [], ColNames = [], ColDefs = None, PrimaryKeys = [],
     ForeignKeys = [], Indexes = []\<rparr>"

section \<open>The target schema model (package ddl) and synthetic keys\<close>

text \<open>Modelled from the spec: package \<^verbatim>\<open>ddl\<close> and \<^verbatim>\<open>SyntheticPKey\<close> are not among the source
  files; the records follow the literals of \<^verbatim>\<open>TestAddPrimaryKeys\<close>.\<close>

datatype ddlTypeName = Int64 | Float64 | OtherDdlType string

record ColumnDef =
  CdName :: string
  T :: ddlTypeName

record IndexKey =
  Col :: string
  IkDesc :: bool

record CreateTable =
  CtName :: string
  CtColNames :: "string list"
  CtColDefs :: "string \<rightharpoonup> ColumnDef"
  Pks :: "IndexKey list"

record SyntheticPKey =
  SynthCol :: string
  Sequence :: "64 word"

section \<open>The conversion state (type Conv)\<close>

datatype mode = schemaOnly | dataOnly

text \<open>Modelled from the spec: type \<^verbatim>\<open>Conv\<close> of package \<^verbatim>\<open>internal\<close> and its methods are not
  among the source files. The record follows section 3 of the specification: the mode,
  the source and target schema maps, the synthetic-key registry, the per-table row and
  bad-row counters (Go \<^verbatim>\<open>int64\<close>, absent keys read as zero), the statement counters (kept
  here as the list of statement tags counted in each class, so that a counter is the
  length of its list), the reparse counter, the append-only diagnostics log and the
  time zone. The field \<open>dataRows\<close> stands for the Data Row Converter, see
  \<open>ProcessDataRow\<close> below.\<close>

record Conv =
  mode :: mode
  SrcSchema :: "string \<rightharpoonup> Table"
  SpSchema :: "string \<rightharpoonup> CreateTable"
  SyntheticPKeys :: "string \<rightharpoonup> SyntheticPKey"
  Rows :: "string \<Rightarrow> 64 word"
  BadRows :: "string \<Rightarrow> 64 word"
  SchemaStmts :: "string list"
  DataStmts :: "string list"
  SkipStmts :: "string list"
  ErrorStmts :: "string list"
  Reparsed :: "64 word"
  Unexpecteds :: "string list"
  Location :: "string option"
  dataRows :: "(string \<times> string list \<times> string list) list"

definition MakeConv :: Conv where
  "MakeConv = \<lparr>mode = schemaOnly, SrcSchema = Map.empty, SpSchema = Map.empty,
     SyntheticPKeys = Map.empty, Rows = (\<lambda>_. 0), BadRows = (\<lambda>_. 0), SchemaStmts = [],
     DataStmts = [], SkipStmts = [], ErrorStmts = [], Reparsed = 0, Unexpecteds = [],
     Location = None, dataRows = []\<rparr>"

definition SchemaMode :: "Conv \<Rightarrow> bool" where
  "SchemaMode conv = (mode conv = schemaOnly)"

definition DataMode :: "Conv \<Rightarrow> bool" where
  "DataMode conv = (mode conv = dataOnly)"

text \<open>Modelled from the spec: \<^verbatim>\<open>Conv.Unexpected\<close> appends one event to the diagnostics
  log (\<^verbatim>\<open>TestUnexpecteds\<close>: one call, one event).\<close>

definition Unexpected :: "string \<Rightarrow> Conv \<Rightarrow> Conv" where
  "Unexpected u conv = conv\<lparr>Unexpecteds := Unexpecteds conv @ [u]\<rparr>"

text \<open>Modelled from the spec: the four statement counters of \<^verbatim>\<open>Conv\<close>, each keyed by the
  statement's tag (\<^verbatim>\<open>TestStatements\<close>: each call counts one statement).\<close>

definition SchemaStatement :: "string \<Rightarrow> Conv \<Rightarrow> Conv" where
  "SchemaStatement s conv = conv\<lparr>SchemaStmts := SchemaStmts conv @ [s]\<rparr>"

definition DataStatement :: "string \<Rightarrow> Conv \<Rightarrow> Conv" where
  "DataStatement s conv = conv\<lparr>DataStmts := DataStmts conv @ [s]\<rparr>"

definition SkipStatement :: "string \<Rightarrow> Conv \<Rightarrow> Conv" where
  "SkipStatement s conv = conv\<lparr>SkipStmts := SkipStmts conv @ [s]\<rparr>"

definition ErrorInStatement :: "string \<Rightarrow> Conv \<Rightarrow> Conv" where
  "ErrorInStatement s conv = conv\<lparr>ErrorStmts := ErrorStmts conv @ [s]\<rparr>"

text \<open>Modelled from the spec: \<^verbatim>\<open>Conv.StatsAddRow\<close> and \<^verbatim>\<open>Conv.StatsAddBadRow\<close> are not
  among the source files. Section 4.5 of the specification has every line read increment
  the destination table's row counter regardless of mode, so the flag the callers pass
  (\<^verbatim>\<open>conv.SchemaMode()\<close>) has no role here.\<close>

definition StatsAddRow :: "string \<Rightarrow> bool \<Rightarrow> Conv \<Rightarrow> Conv" where
  "StatsAddRow srcTable b conv = conv\<lparr>Rows := (Rows conv)(srcTable := Rows conv srcTable + 1)\<rparr>"

definition StatsAddBadRow :: "string \<Rightarrow> bool \<Rightarrow> Conv \<Rightarrow> Conv" where
  "StatsAddBadRow srcTable b conv =
     conv\<lparr>BadRows := (BadRows conv)(srcTable := BadRows conv srcTable + 1)\<rparr>"

text \<open>Modelled from the spec: \<^verbatim>\<open>Conv.SetLocation\<close> stores the active time zone.\<close>

definition SetLocation :: "string \<Rightarrow> Conv \<Rightarrow> Conv" where
  "SetLocation loc conv = conv\<lparr>Location := Some loc\<rparr>"

text \<open>Modelled from the spec: \<^verbatim>\<open>ProcessDataRow\<close> (the Data Row Converter of section 4.6)
  is not among the source files. Only its inputs are kept: each call appends the table
  name, the column names and the raw values it was given, in call order. The conversion
  of the values and the bad-row accounting are not modelled.\<close>

definition ProcessDataRow :: "Conv \<Rightarrow> string \<Rightarrow> string list \<Rightarrow> string list \<Rightarrow> Conv" where
  "ProcessDataRow conv srcTable srcCols vals =
     conv\<lparr>dataRows := dataRows conv @ [(srcTable, srcCols, vals)]\<rparr>"

section \<open>Run-time failures\<close>

text \<open>A Go panic ends the run; the model returns it as a value. \<open>ParseError n\<close> is the
  error \<^verbatim>\<open>readAndParseChunk\<close> returns for the last \<open>n\<close> lines of input.\<close>

datatype error = NilMapWrite | NilPointer | ParseError nat

section \<open>Constraint resolution\<close>

text \<open>The constraint kinds of \<^verbatim>\<open>pg_query.ConstrType\<close>.\<close>

datatype ConstrType =
  CONSTR_TYPE_UNDEFINED | CONSTR_NULL | CONSTR_NOTNULL | CONSTR_DEFAULT | CONSTR_IDENTITY
  | CONSTR_GENERATED | CONSTR_CHECK | CONSTR_PRIMARY | CONSTR_UNIQUE | CONSTR_EXCLUSION
  | CONSTR_FOREIGN | CONSTR_ATTR_DEFERRABLE | CONSTR_ATTR_NOT_DEFERRABLE
  | CONSTR_ATTR_DEFERRED | CONSTR_ATTR_IMMEDIATE

record constraint =
  ct :: ConstrType
  cols :: "string list"
  name :: string
  referCols :: "string list"
  referTable :: string

text \<open>\<^verbatim>\<open>conv.SrcSchema[table]\<close>: the entry, or the zero table for an unknown name.\<close>

definition srcTableOf :: "Conv \<Rightarrow> string \<Rightarrow> Table" where
  "srcTableOf conv table = (case SrcSchema conv table of None \<Rightarrow> zeroTable | Some t \<Rightarrow> t)"

definition checkEmpty :: "Conv \<Rightarrow> Key list \<Rightarrow> string \<Rightarrow> Conv" where
  "checkEmpty conv pkeys stmtType =
     (if length pkeys \<noteq> 0
      then Unexpected (stmtType @ '' statement is adding a second primary key'') conv
      else conv)"

fun toSchemaKeys :: "string list \<Rightarrow> Key list" where
  "toSchemaKeys [] = []"
| "toSchemaKeys (k # s) = \<lparr>KeyColumn = k, Desc = False\<rparr> # toSchemaKeys s"

definition toForeignKeys :: "constraint \<Rightarrow> ForeignKey" where
  "toForeignKeys fk = \<lparr>FkName = name fk, Columns = cols fk, ReferTable = referTable fk,
     ReferColumns = referCols fk\<rparr>"

definition updateCol :: "ConstrType \<Rightarrow> Column \<Rightarrow> Column" where
  "updateCol c cd =
     (case c of CONSTR_NOTNULL \<Rightarrow> cd\<lparr>NotNull := True\<rparr>
              | CONSTR_DEFAULT \<Rightarrow> cd\<lparr>IgnoredDefault := True\<rparr>
              | _ \<Rightarrow> cd)"

fun updateCols :: "ConstrType \<Rightarrow> string list \<Rightarrow> (string \<rightharpoonup> Column) option
    \<Rightarrow> error + (string \<rightharpoonup> Column) option" where
  "updateCols c [] colDef = Inr colDef"
| "updateCols c (k # colNames) colDef =
     (case colDef of
        None \<Rightarrow> Inl NilMapWrite
      | Some m \<Rightarrow>
          updateCols c colNames
            (Some (m(k \<mapsto> updateCol c (case m k of None \<Rightarrow> zeroColumn | Some cd \<Rightarrow> cd)))))"

text \<open>One turn of the loop of \<^verbatim>\<open>updateSchema\<close>: the switch on the constraint kind.\<close>

definition updateSchema1 :: "Conv \<Rightarrow> string \<Rightarrow> constraint \<Rightarrow> string \<Rightarrow> error + Conv" where
  "updateSchema1 conv table c stmtType =
     (case ct c of
        CONSTR_PRIMARY \<Rightarrow>
          (let t = srcTableOf conv table;
               conv1 = checkEmpty conv (PrimaryKeys t) stmtType;
               t1 = t\<lparr>PrimaryKeys := toSchemaKeys (cols c)\<rparr>
           in case updateCols CONSTR_NOTNULL (cols c) (ColDefs t1) of
                Inl e \<Rightarrow> Inl e
              | Inr d \<Rightarrow> Inr (conv1\<lparr>SrcSchema := (SrcSchema conv1)(table \<mapsto> t1\<lparr>ColDefs := d\<rparr>)\<rparr>))
      | CONSTR_FOREIGN \<Rightarrow>
          (let t = srcTableOf conv table;
               t1 = t\<lparr>ForeignKeys := ForeignKeys t @ [toForeignKeys c]\<rparr>
           in Inr (conv\<lparr>SrcSchema := (SrcSchema conv)(table \<mapsto> t1)\<rparr>))
      | CONSTR_UNIQUE \<Rightarrow>
          (let t = srcTableOf conv table;
               t1 = t\<lparr>Indexes := Indexes t @
                      [\<lparr>IdxName = name c, Unique = True, Keys = toSchemaKeys (cols c)\<rparr>]\<rparr>
           in Inr (conv\<lparr>SrcSchema := (SrcSchema conv)(table \<mapsto> t1)\<rparr>))
      | _ \<Rightarrow>
          (let t = srcTableOf conv table
           in case updateCols (ct c) (cols c) (ColDefs t) of
                Inl e \<Rightarrow> Inl e
              | Inr d \<Rightarrow> Inr (conv\<lparr>SrcSchema := (SrcSchema conv)(table \<mapsto> t\<lparr>ColDefs := d\<rparr>)\<rparr>)))"

fun updateSchema :: "Conv \<Rightarrow> string \<Rightarrow> constraint list \<Rightarrow> string \<Rightarrow> error + Conv" where
  "updateSchema conv table [] stmtType = Inr conv"
| "updateSchema conv table (c # cs) stmtType =
     (case updateSchema1 conv table c stmtType of
        Inl e \<Rightarrow> Inl e
      | Inr conv1 \<Rightarrow> updateSchema conv1 table cs stmtType)"

section \<open>Functions of Go's package strings\<close>

text \<open>Strings are byte lists. The functions below follow the Go library on the calls the
  program makes; where Go works on runes (an empty \<^verbatim>\<open>old\<close> or separator), the model works
  on bytes, which is the same for ASCII text.\<close>

definition Contains :: "string \<Rightarrow> string \<Rightarrow> bool" where
  "Contains s substr = sublist substr s"

definition TrimPrefix :: "string \<Rightarrow> string \<Rightarrow> string" where
  "TrimPrefix s p = (if prefix p s then drop (length p) s else s)"

definition Trim :: "string \<Rightarrow> string \<Rightarrow> string" where
  "Trim s cutset =
     rev (dropWhile (\<lambda>c. c \<in> set cutset) (rev (dropWhile (\<lambda>c. c \<in> set cutset) s)))"

fun Join :: "string list \<Rightarrow> string \<Rightarrow> string" where
  "Join [] sep = []"
| "Join [x] sep = x"
| "Join (x # y # xs) sep = x @ sep @ Join (y # xs) sep"

function ReplaceAll :: "string \<Rightarrow> string \<Rightarrow> string \<Rightarrow> string" where
  "ReplaceAll s old new =
     (if old = [] then concat (map (\<lambda>c. new @ [c]) s) @ new
      else if s = [] then []
      else if prefix old s then new @ ReplaceAll (drop (length old) s) old new
      else hd s # ReplaceAll (tl s) old new)"
  by pat_completeness auto
termination
  by (relation "measure (\<lambda>(s, old, new). length s)") auto

declare ReplaceAll.simps [simp del]

text \<open>\<open>splitFrom cur s sep\<close>: the fields of \<open>s\<close>, the first one continuing \<open>cur\<close>.\<close>

function splitFrom :: "string \<Rightarrow> string \<Rightarrow> string \<Rightarrow> string list" where
  "splitFrom cur s sep =
     (if s = [] then [cur]
      else if sep \<noteq> [] \<and> prefix sep s then cur # splitFrom [] (drop (length sep) s) sep
      else splitFrom (cur @ [hd s]) (tl s) sep)"
  by pat_completeness auto
termination
  by (relation "measure (\<lambda>(cur, s, sep). length s)") auto

declare splitFrom.simps [simp del]

definition Split :: "string \<Rightarrow> string \<Rightarrow> string list" where
  "Split s sep = (if sep = [] then map (\<lambda>c. [c]) s else splitFrom [] s sep)"

section \<open>The reader\<close>

text \<open>Modelled from the spec: type \<^verbatim>\<open>Reader\<close> of package \<^verbatim>\<open>internal\<close> is not among the
  source files. Sections 2 and 4.1 of the specification make it a line-oriented cursor
  over the dump's bytes with a line number, a byte offset and an end-of-stream flag.
  \<open>input\<close> is the part of the dump not yet read. \<open>ReadLine\<close> returns the next line with
  its line feed; when no line feed is left it returns the rest of the input (which can be
  empty) and raises the flag, which is never lowered again.\<close>

record Reader =
  input :: string
  LineNumber :: int
  Offset :: int
  EOF :: bool

definition NewReader :: "string \<Rightarrow> Reader" where
  "NewReader s = \<lparr>input = s, LineNumber = 0, Offset = 0, EOF = False\<rparr>"

definition ReadLine :: "Reader \<Rightarrow> string \<times> Reader" where
  "ReadLine r =
     (let b = takeWhile (\<lambda>c. c \<noteq> LF) (input r) in
      case dropWhile (\<lambda>c. c \<noteq> LF) (input r) of
        [] \<Rightarrow> (b, r\<lparr>input := [], LineNumber := LineNumber r + 1,
                     Offset := Offset r + int (length b), EOF := True\<rparr>)
      | nl # rest \<Rightarrow> (b @ [nl], r\<lparr>input := rest, LineNumber := LineNumber r + 1,
                     Offset := Offset r + int (length b) + 1\<rparr>))"

lemma ReadLine_shorter:
  assumes a: "ReadLine r = (b, r1)" and e: "\<not> EOF r1"
  shows "length (input r1) < length (input r)"
proof (cases "dropWhile (\<lambda>c. c \<noteq> LF) (input r)")
  case Nil
  have "EOF r1"
    using a unfolding ReadLine_def Let_def Nil by auto
  with e show ?thesis by simp
next
  case (Cons nl rest)
  have "length (dropWhile (\<lambda>c. c \<noteq> LF) (input r)) \<le> length (input r)"
    by (rule length_dropWhile_le)
  then have "length rest < length (input r)"
    unfolding Cons by simp
  moreover have "input r1 = rest"
    using a unfolding ReadLine_def Let_def Cons by auto
  ultimately show ?thesis by simp
qed

section \<open>The chunk assembler\<close>

text \<open>The SQL parser \<^verbatim>\<open>pg_query.Parse\<close> belongs to a library outside the repository: it is
  a parameter, a function from the text of a chunk to its statements, or \<open>None\<close> when the
  text does not parse. \<open>readAndParseChunk_loop\<close> is the loop of \<^verbatim>\<open>readAndParseChunk\<close>, with
  the lines read so far as \<open>l\<close>.\<close>

function readAndParseChunk_loop ::
  "(string \<Rightarrow> 's list option) \<Rightarrow> string list \<Rightarrow> Conv \<Rightarrow> Reader
     \<Rightarrow> (error + string \<times> 's list) \<times> Conv \<times> Reader" where
  "readAndParseChunk_loop Parse l conv r =
     (case ReadLine r of (b, r1) \<Rightarrow>
        if Contains b '';'' \<or> EOF r1 then
          (case Parse (concat (l @ [b])) of
             Some stmts \<Rightarrow> (Inr (concat (l @ [b]), stmts), conv, r1)
           | None \<Rightarrow>
               if EOF r1
               then (Inl (ParseError (length (l @ [b]))),
                     conv\<lparr>Reparsed := Reparsed conv + 1\<rparr>, r1)
               else readAndParseChunk_loop Parse (l @ [b])
                      (conv\<lparr>Reparsed := Reparsed conv + 1\<rparr>) r1)
        else if EOF r1 then (Inl (ParseError (length (l @ [b]))), conv, r1)
        else readAndParseChunk_loop Parse (l @ [b]) conv r1)"
  by pat_completeness auto
termination
  by (relation "measure (\<lambda>(Parse, l, conv, r). length (input r))")
     (auto intro: ReadLine_shorter [OF sym])

declare readAndParseChunk_loop.simps [simp del]

definition readAndParseChunk ::
  "(string \<Rightarrow> 's list option) \<Rightarrow> Conv \<Rightarrow> Reader
     \<Rightarrow> (error + string \<times> 's list) \<times> Conv \<times> Reader" where
  "readAndParseChunk Parse conv r = readAndParseChunk_loop Parse [] conv r"

section \<open>The copy-block decoder\<close>

function processCopyBlock :: "Conv \<Rightarrow> string \<Rightarrow> string list \<Rightarrow> Reader \<Rightarrow> Conv \<times> Reader" where
  "processCopyBlock conv srcTable srcCols r =
     (case ReadLine r of (b, r1) \<Rightarrow>
        if b = [backslash, CHR ''.'', LF] \<or> b = [backslash, CHR ''.'', CR, LF] then (conv, r1)
        else if EOF r1 then (Unexpected ''Reached eof while parsing copy-block'' conv, r1)
        else
          (let conv1 = StatsAddRow srcTable (SchemaMode conv) conv in
           if \<not> DataMode conv1 then processCopyBlock conv1 srcTable srcCols r1
           else
             (let s = ReplaceAll b [backslash, backslash] [backslash] in
              processCopyBlock
                (ProcessDataRow conv1 srcTable srcCols (Split (Trim s [CR, LF]) [tab]))
                srcTable srcCols r1)))"
  by pat_completeness auto
termination
  by (relation "measure (\<lambda>(conv, srcTable, srcCols, r). length (input r))")
     (auto intro: ReadLine_shorter [OF sym])

declare processCopyBlock.simps [simp del]

section \<open>The lines of an input and the parse attempts of a chunk\<close>

text \<open>\<open>readLines s\<close> is the sequence of lines that successive calls of \<open>ReadLine\<close>
  return on the input \<open>s\<close>, up to and including the call that raises the end-of-stream
  flag. \<open>attempts acc ls\<close> lists the buffers the chunk assembler would hand to the parser
  while absorbing the lines \<open>ls\<close> after the text \<open>acc\<close>, if no attempt succeeded: one
  after each line that holds a semicolon, and one after the last line.\<close>

function readLines :: "string \<Rightarrow> string list" where
  "readLines s =
     (case dropWhile (\<lambda>c. c \<noteq> LF) s of
        [] \<Rightarrow> [s]
      | nl # rest \<Rightarrow> (takeWhile (\<lambda>c. c \<noteq> LF) s @ [nl]) # readLines rest)"
  by pat_completeness auto
termination
proof (relation "measure length")
  show "wf (measure length)" by simp
next
  fix s :: string and nl rest
  assume c: "dropWhile (\<lambda>c. c \<noteq> LF) s = nl # rest"
  have "length (dropWhile (\<lambda>c. c \<noteq> LF) s) \<le> length s"
    by (rule length_dropWhile_le)
  then have "length rest < length s" unfolding c by simp
  then show "(rest, s) \<in> measure length" by simp
qed

declare readLines.simps [simp del]

fun attempts :: "string \<Rightarrow> string list \<Rightarrow> string list" where
  "attempts acc [] = []"
| "attempts acc (b # rest) =
     (if Contains b '';'' \<or> rest = [] then [acc @ b] else []) @ attempts (acc @ b) rest"

definition failed :: "(string \<Rightarrow> 's list option) \<Rightarrow> string \<Rightarrow> bool" where
  "failed Parse = (\<lambda>s. Parse s = None)"

section \<open>The copy-block format\<close>

text \<open>\<open>endOfBlock\<close> is the test for the end-of-block marker in \<^verbatim>\<open>processCopyBlock\<close>, and
  \<open>copyBlockLine\<close> is what one turn of its loop does to the conversion state for a line
  that is not the marker. A \<open>dataLine\<close> is a line as \<open>ReadLine\<close> returns it before the end
  of the stream (it ends with its only line feed) that is not the marker.

  \<open>escapeBackslash\<close> and \<open>encodeRow\<close> write a row the way the dump writes it in a copy
  block: every backslash doubled, the values separated by tabs, the line closed by a line
  terminator. \<open>decodeAsClaimed\<close> is the decoder of a line that removes the line terminator
  and nothing else.\<close>

definition escapeBackslash :: "string \<Rightarrow> string" where
  "escapeBackslash v = concat (map (\<lambda>c. if c = backslash then [backslash, backslash] else [c]) v)"

definition encodeRow :: "string list \<Rightarrow> string \<Rightarrow> string" where
  "encodeRow vals nl = Join (map escapeBackslash vals) [tab] @ nl"

definition copyBlockLine :: "Conv \<Rightarrow> string \<Rightarrow> string list \<Rightarrow> string \<Rightarrow> Conv" where
  "copyBlockLine conv srcTable srcCols b =
     (let conv1 = StatsAddRow srcTable (SchemaMode conv) conv in
      if \<not> DataMode conv1 then conv1
      else ProcessDataRow conv1 srcTable srcCols
             (Split (Trim (ReplaceAll b [backslash, backslash] [backslash]) [CR, LF]) [tab]))"

definition endOfBlock :: "string \<Rightarrow> bool" where
  "endOfBlock b = (b = [backslash, CHR ''.'', LF] \<or> b = [backslash, CHR ''.'', CR, LF])"

definition dataLine :: "string \<Rightarrow> bool" where
  "dataLine b = (\<not> endOfBlock b \<and> b \<noteq> [] \<and> last b = LF \<and> LF \<notin> set (butlast b))"

definition trimLineTerminator :: "string \<Rightarrow> string" where
  "trimLineTerminator b =
     (if suffix [CR, LF] b then take (length b - 2) b
      else if suffix [LF] b then take (length b - 1) b
      else b)"

definition decodeAsClaimed :: "string \<Rightarrow> string list" where
  "decodeAsClaimed b =
     Split (trimLineTerminator (ReplaceAll b [backslash, backslash] [backslash])) [tab]"

section \<open>The parsed statements (package pg_query)\<close>

text \<open>The syntax trees come from the parser library. The model keeps the node kinds and the
  fields that \<^verbatim>\<open>pgdump.go\<close> reads. A node of any other kind is \<open>Node_Other\<close> with the name
  of its Go type. A \<open>Node_String\<close> carries the text that the node's \<^verbatim>\<open>String()\<close> method
  returns, which is all the program reads of it. A pointer field that can be nil is an
  option. Statements are nodes too; as no statement the program handles occurs inside
  another one (but for the select of an insert), they form a type of their own.\<close>

datatype SortByDir = SORTBY_DEFAULT | SORTBY_ASC | SORTBY_DESC | SORTBY_USING

datatype AlterTableType = AT_SetNotNull | AT_AddConstraint | AT_Other string

record RangeVar =
  Catalogname :: string
  Schemaname :: string
  Relname :: string

datatype Node =
    Node_String (strText: string)
  | Node_Integer (Ival: "32 word")
  | Node_AConst (Val: Node)
  | Node_List (Items: "Node list")
  | Node_ResTarget (rtName: string)
  | Node_IndexElem (ieName: string) (Ordering: SortByDir)
  | Node_ColumnDef (Colname: string) (TypeNames: "Node list") (Typmods: "Node list")
      (TypeArrayBounds: "Node list") (cdConstraints: "Node list")
  | Node_Constraint (Contype: ConstrType) (Conname: string) (conKeys: "Node list")
      (FkAttrs: "Node list") (PkAttrs: "Node list") (Pktable: "RangeVar option")
  | Node_AlterTableCmd (Subtype: AlterTableType) (atcName: string) (Def: "Node option")
  | Node_SelectStmt (ValuesLists: "Node list")
  | Node_Other (otherType: string)

record AlterTableStmt =
  at_Relation :: "RangeVar option"
  at_Cmds :: "Node list"

record CopyStmt =
  cp_Relation :: "RangeVar option"
  cp_Attlist :: "Node list"

record CreateStmt =
  cr_Relation :: "RangeVar option"
  cr_TableElts :: "Node list"
  cr_InhRelations :: "Node list"

record InsertStmt =
  ins_Relation :: "RangeVar option"
  ins_Cols :: "Node list"
  ins_SelectStmt :: "Node option"

record VariableSetStmt =
  vs_Name :: string
  vs_Args :: "Node list"

record IndexStmt =
  ix_Relation :: "RangeVar option"
  ix_Idxname :: string
  ix_Unique :: bool
  ix_IndexParams :: "Node list"

datatype Stmt =
    Node_AlterTableStmt AlterTableStmt
  | Node_CopyStmt CopyStmt
  | Node_CreateStmt CreateStmt
  | Node_InsertStmt InsertStmt
  | Node_VariableSetStmt VariableSetStmt
  | Node_IndexStmt IndexStmt
  | Node_OtherStmt string

datatype stmtType = copyFrom | insert

record copyOrInsert =
  ci_stmt :: stmtType
  ci_table :: string
  ci_cols :: "string list"
  ci_rows :: "string list list"

section \<open>Helpers of the statement processor\<close>

text \<open>\<^verbatim>\<open>printNodeType\<close> on a node: the name of its Go type without the package and
  \<^verbatim>\<open>Node_\<close> prefixes.\<close>

fun printNodeType :: "Node \<Rightarrow> string" where
  "printNodeType (Node_String s) = ''String_''"
| "printNodeType (Node_Integer i) = ''Integer''"
| "printNodeType (Node_AConst v) = ''AConst''"
| "printNodeType (Node_List l) = ''List''"
| "printNodeType (Node_ResTarget n) = ''ResTarget''"
| "printNodeType (Node_IndexElem n d) = ''IndexElem''"
| "printNodeType (Node_ColumnDef n ty m b c) = ''ColumnDef''"
| "printNodeType (Node_Constraint c n k f p t) = ''Constraint''"
| "printNodeType (Node_AlterTableCmd s n d) = ''AlterTableCmd''"
| "printNodeType (Node_SelectStmt v) = ''SelectStmt''"
| "printNodeType (Node_Other ty) = ty"

fun printStmtType :: "Stmt \<Rightarrow> string" where
  "printStmtType (Node_AlterTableStmt n) = ''AlterTableStmt''"
| "printStmtType (Node_CopyStmt n) = ''CopyStmt''"
| "printStmtType (Node_CreateStmt n) = ''CreateStmt''"
| "printStmtType (Node_InsertStmt n) = ''InsertStmt''"
| "printStmtType (Node_VariableSetStmt n) = ''VariableSetStmt''"
| "printStmtType (Node_IndexStmt n) = ''IndexStmt''"
| "printStmtType (Node_OtherStmt ty) = ty"

definition logStmtError :: "Conv \<Rightarrow> string \<Rightarrow> string \<Rightarrow> Conv" where
  "logStmtError conv nodeType err =
     ErrorInStatement nodeType
       (Unexpected (''Processing '' @ nodeType @ '' statement: '' @ err) conv)"

definition trimEscapeChars :: "string \<Rightarrow> string" where
  "trimEscapeChars s = ReplaceAll s [backslash, CHR ''n''] [LF]"

definition trimQuote :: "string \<Rightarrow> string" where
  "trimQuote s =
     (let s1 = (if length s > 0 \<and> hd s = dquote then tl s else s)
      in if length s1 > 0 \<and> last s1 = dquote then butlast s1 else s1)"

definition trimString :: "string \<Rightarrow> string" where
  "trimString s = trimQuote (trimEscapeChars (TrimPrefix s ''str:''))"

text \<open>Go errors that are values (not panics) are their messages, on the left of a sum.\<close>

definition getString :: "Node \<Rightarrow> string + string" where
  "getString node =
     (case node of
        Node_String s \<Rightarrow> Inr (trimString s)
      | _ \<Rightarrow> Inl (''node '' @ printNodeType node @ '' is a not String node''))"

text \<open>\<^verbatim>\<open>strconv.FormatInt(i, 10)\<close>.\<close>

fun digitsOf :: "nat \<Rightarrow> string" where
  "digitsOf n =
     (if n < 10 then [''0123456789'' ! n]
      else digitsOf (n div 10) @ [''0123456789'' ! (n mod 10)])"

declare digitsOf.simps [simp del]

definition FormatInt :: "int \<Rightarrow> string" where
  "FormatInt i = (if i < 0 then CHR ''-'' # digitsOf (nat (- i)) else digitsOf (nat i))"

fun getTypeMods :: "Conv \<Rightarrow> Node list \<Rightarrow> Conv \<times> int list" where
  "getTypeMods conv [] = (conv, [])"
| "getTypeMods conv (x # t) =
     (case x of
        Node_AConst v \<Rightarrow>
          (case v of
             Node_Integer i \<Rightarrow>
               (case getTypeMods conv t of (conv1, l) \<Rightarrow> (conv1, sint i # l))
           | _ \<Rightarrow>
               getTypeMods
                 (Unexpected (''Found '' @ printNodeType v @ '' node while processing Typmods'')
                    conv) t)
      | _ \<Rightarrow>
          getTypeMods
            (Unexpected (''Found '' @ printNodeType x @ '' node while processing Typmods'') conv)
            t)"

fun getArrayBounds :: "Conv \<Rightarrow> Node list \<Rightarrow> Conv \<times> int list" where
  "getArrayBounds conv [] = (conv, [])"
| "getArrayBounds conv (x # t) =
     (case x of
        Node_Integer i \<Rightarrow>
          (case getArrayBounds conv t of (conv1, l) \<Rightarrow> (conv1, sint i # l))
      | _ \<Rightarrow>
          getArrayBounds
            (Unexpected (''Found Node node while processing ArrayBounds'') conv) t)"

fun getStrings :: "Node list \<Rightarrow> string + string list" where
  "getStrings [] = Inr []"
| "getStrings (node # nodes) =
     (case getString node of
        Inl err \<Rightarrow> Inl err
      | Inr s \<Rightarrow> (case getStrings nodes of Inl err \<Rightarrow> Inl err | Inr ids \<Rightarrow> Inr (s # ids)))"

definition getTypeID :: "Node list \<Rightarrow> string + string" where
  "getTypeID nodes =
     (case getStrings nodes of
        Inl err \<Rightarrow> Inl err
      | Inr ids \<Rightarrow>
          Inr (Join (if length ids > 1 \<and> hd ids = ''pg_catalog'' then tl ids else ids) ''.''))"

definition getTableName :: "RangeVar \<Rightarrow> string + string" where
  "getTableName n =
     (let l1 = (if Catalogname n \<noteq> [] then [Catalogname n] else []);
          l2 = (if Schemaname n \<noteq> [] \<and> Schemaname n \<noteq> ''public''
                then l1 @ [Schemaname n] else l1)
      in if Relname n = [] then Inl ''relname is empty: can't build table name''
         else Inr (Join (l2 @ [Relname n]) ''.''))"

text \<open>The inner loops of \<^verbatim>\<open>extractConstraints\<close>: the names in a list of nodes, where a node
  that is not a string is logged, counted as an error and left out.\<close>

fun constraintKeys :: "Conv \<Rightarrow> string \<Rightarrow> Node list \<Rightarrow> Conv \<times> string list" where
  "constraintKeys conv tag [] = (conv, [])"
| "constraintKeys conv tag (k # ks) =
     (case getString k of
        Inl err \<Rightarrow>
          constraintKeys
            (ErrorInStatement tag
               (Unexpected (''Processing Constraint statement: error processing constraints: ''
                  @ err) conv))
            tag ks
      | Inr s \<Rightarrow> (case constraintKeys conv tag ks of (conv1, l) \<Rightarrow> (conv1, s # l)))"

fun extractConstraints :: "Conv \<Rightarrow> string \<Rightarrow> Node list \<Rightarrow> error + Conv \<times> constraint list" where
  "extractConstraints conv stmtType [] = Inr (conv, [])"
| "extractConstraints conv stmtType (i # l) =
     (case i of
        Node_Constraint contype conname keys fkAttrs pkAttrs pktable \<Rightarrow>
          (case contype of
             CONSTR_FOREIGN \<Rightarrow>
               (case pktable of
                  None \<Rightarrow> Inl NilPointer
                | Some rv \<Rightarrow>
                    (case getTableName rv of
                       Inl err \<Rightarrow>
                         extractConstraints
                           (ErrorInStatement ''Constraint''
                              (Unexpected
                                 (''Processing Constraint statement: error processing constraints: ''
                                    @ err) conv))
                           stmtType l
                     | Inr t \<Rightarrow>
                         (case constraintKeys conv ''Constraint'' fkAttrs of (conv1, cs) \<Rightarrow>
                          case constraintKeys conv1 ''Constraint'' pkAttrs of (conv2, rcs) \<Rightarrow>
                          case extractConstraints conv2 stmtType l of
                            Inl e \<Rightarrow> Inl e
                          | Inr (conv3, rest) \<Rightarrow>
                              Inr (conv3,
                                   \<lparr>ct = contype, cols = cs, name = conname, referCols = rcs,
                                    referTable = t\<rparr> # rest))))
           | _ \<Rightarrow>
               (case constraintKeys conv ''Node.Constraint'' keys of (conv1, cs) \<Rightarrow>
                case extractConstraints conv1 stmtType l of
                  Inl e \<Rightarrow> Inl e
                | Inr (conv2, rest) \<Rightarrow>
                    Inr (conv2,
                         \<lparr>ct = contype, cols = cs, name = conname, referCols = [],
                          referTable = []\<rparr> # rest)))
      | _ \<Rightarrow>
          extractConstraints
            (Unexpected (''Processing '' @ stmtType @ '' statement: found '' @ printNodeType i
               @ '' node while processing constraints'' @ [LF]) conv)
            stmtType l)"

fun setConstraintCols :: "Conv \<Rightarrow> string \<Rightarrow> constraint list \<Rightarrow> Conv \<times> constraint list" where
  "setConstraintCols conv pgCol [] = (conv, [])"
| "setConstraintCols conv pgCol (c # cs) =
     (case setConstraintCols
             (if length (cols c) \<noteq> 0 then Unexpected ''ColumnDef constraint has keys'' conv
              else conv)
             pgCol cs of
        (conv1, rest) \<Rightarrow> (conv1, c\<lparr>cols := [pgCol]\<rparr> # rest))"

definition analyzeColDefConstraints ::
  "Conv \<Rightarrow> string \<Rightarrow> Node list \<Rightarrow> string \<Rightarrow> error + Conv \<times> constraint list" where
  "analyzeColDefConstraints conv stmtType l pgCol =
     (case extractConstraints conv stmtType l of
        Inl e \<Rightarrow> Inl e
      | Inr (conv1, cs) \<Rightarrow> Inr (setConstraintCols conv1 pgCol cs))"

fun toIndexKeys :: "Conv \<Rightarrow> string \<Rightarrow> Node list \<Rightarrow> Conv \<times> Key list" where
  "toIndexKeys conv idxName [] = (conv, [])"
| "toIndexKeys conv idxName (k # s) =
     (case k of
        Node_IndexElem n ord \<Rightarrow>
          if n = [] then
            toIndexKeys
              (Unexpected (''Failed to process index '' @ idxName @ '': empty index column name'')
                 conv) idxName s
          else
            (case toIndexKeys conv idxName s of
               (conv1, l) \<Rightarrow> (conv1, \<lparr>KeyColumn = n, Desc = (ord = SORTBY_DESC)\<rparr> # l))
      | _ \<Rightarrow> toIndexKeys conv idxName s)"

fun getCols :: "Node list \<Rightarrow> string + string list" where
  "getCols [] = Inr []"
| "getCols (n # nodes) =
     (case n of
        Node_ResTarget r \<Rightarrow>
          (case getCols nodes of
             Inl err \<Rightarrow> Inl err
           | Inr cs \<Rightarrow> Inr (if r \<noteq> [] then r # cs else cs))
      | _ \<Rightarrow>
          Inl (''expecting ResTarget node but got '' @ printNodeType n
                 @ '' node while processing Cols''))"

text \<open>The values of one row of an insert statement (the inner loop of \<^verbatim>\<open>getRows\<close>).\<close>

fun getRowValues :: "Conv \<Rightarrow> Node list \<Rightarrow> Conv \<times> string list" where
  "getRowValues conv [] = (conv, [])"
| "getRowValues conv (v # vs) =
     (case v of
        Node_AConst c \<Rightarrow>
          (case c of
             Node_String s \<Rightarrow>
               (case getRowValues conv vs of (conv1, l) \<Rightarrow> (conv1, trimString s # l))
           | Node_Integer i \<Rightarrow>
               (case getRowValues conv vs of (conv1, l) \<Rightarrow> (conv1, FormatInt (sint i) # l))
           | _ \<Rightarrow>
               getRowValues
                 (Unexpected (''Processing InsertStmt statement: found '' @ printNodeType c
                    @ '' node for A_Const Val'') conv) vs)
      | _ \<Rightarrow>
          getRowValues
            (Unexpected (''Processing InsertStmt statement: found '' @ printNodeType v
               @ '' node for ValuesList.Val'') conv) vs)"

fun getRows :: "Conv \<Rightarrow> Node list \<Rightarrow> Conv \<times> string list list" where
  "getRows conv [] = (conv, [])"
| "getRows conv (vl # vll) =
     (case (case vl of
              Node_List items \<Rightarrow> getRowValues conv items
            | _ \<Rightarrow>
                (Unexpected (''Processing InsertStmt statement: found '' @ printNodeType vl
                   @ '' in ValuesList'') conv, [])) of
        (conv1, vals) \<Rightarrow>
          (case getRows conv1 vll of (conv2, rows) \<Rightarrow> (conv2, vals # rows)))"

section \<open>The statement processor\<close>

definition processColumn ::
  "Conv \<Rightarrow> string \<Rightarrow> Node list \<Rightarrow> Node list \<Rightarrow> Node list \<Rightarrow> Node list
     \<Rightarrow> error + Conv \<times> (string + string \<times> Column \<times> constraint list)" where
  "processColumn conv colname typeNames typmods arrayBounds constraints =
     (case getTypeMods conv typmods of (conv1, mods) \<Rightarrow>
        if colname = [] then Inr (conv1, Inl ''colname is empty string'')
        else
          (case getTypeID typeNames of
             Inl err \<Rightarrow> Inr (conv1, Inl (''can't get type id for '' @ colname @ '': '' @ err))
           | Inr tid \<Rightarrow>
               (case getArrayBounds conv1 arrayBounds of (conv2, bounds) \<Rightarrow>
                  (case analyzeColDefConstraints conv2 ''ColumnDef'' constraints colname of
                     Inl e \<Rightarrow> Inl e
                   | Inr (conv3, cs) \<Rightarrow>
                       Inr (conv3,
                            Inr (colname,
                                 \<lparr>ColName = colname,
                                  ColType = \<lparr>TypeName = tid, Mods = mods, ArrayBounds = bounds\<rparr>,
                                  NotNull = False, IgnoredDefault = False\<rparr>,
                                 cs))))))"

text \<open>The loop of \<^verbatim>\<open>processCreateStmt\<close> over the table elements, with the column names, the
  column definitions and the constraints collected so far. \<open>Inl\<close> in the result is the
  error of a column, on which \<^verbatim>\<open>processCreateStmt\<close> gives the statement up.\<close>

fun createTableElts ::
  "Conv \<Rightarrow> string list \<Rightarrow> (string \<rightharpoonup> Column) \<Rightarrow> constraint list \<Rightarrow> Node list
     \<Rightarrow> error + Conv \<times> (string + string list \<times> (string \<rightharpoonup> Column) \<times> constraint list)" where
  "createTableElts conv colNames colDef constraints [] =
     Inr (conv, Inr (colNames, colDef, constraints))"
| "createTableElts conv colNames colDef constraints (te # tes) =
     (case te of
        Node_ColumnDef colname typeNames typmods arrayBounds cons \<Rightarrow>
          (case processColumn conv colname typeNames typmods arrayBounds cons of
             Inl e \<Rightarrow> Inl e
           | Inr (conv1, Inl err) \<Rightarrow> Inr (conv1, Inl err)
           | Inr (conv1, Inr (nm, col, colCons)) \<Rightarrow>
               createTableElts conv1 (colNames @ [nm]) (colDef(nm \<mapsto> col))
                 (constraints @ colCons) tes)
      | Node_Constraint contype conname keys fkAttrs pkAttrs pktable \<Rightarrow>
          (case extractConstraints conv ''CreateStmt'' [te] of
             Inl e \<Rightarrow> Inl e
           | Inr (conv1, cs) \<Rightarrow> createTableElts conv1 colNames colDef (constraints @ cs) tes)
      | _ \<Rightarrow>
          createTableElts
            (Unexpected ''Found Node node while processing CreateStmt TableElts'' conv)
            colNames colDef constraints tes)"

definition processCreateStmt :: "Conv \<Rightarrow> CreateStmt \<Rightarrow> error + Conv" where
  "processCreateStmt conv n =
     (case cr_Relation n of
        None \<Rightarrow> Inr (logStmtError conv ''CreateStmt'' ''relation is nil'')
      | Some rv \<Rightarrow>
          (case getTableName rv of
             Inl err \<Rightarrow> Inr (logStmtError conv ''CreateStmt'' (''can't get table name: '' @ err))
           | Inr tbl \<Rightarrow>
               if length (cr_InhRelations n) > 0 then
                 Inr (Unexpected (''Found inherited table '' @ tbl
                        @ '' -- we do not currently handle inherited tables'')
                        (SkipStatement ''CreateStmt'' conv))
               else
                 (case createTableElts conv [] Map.empty [] (cr_TableElts n) of
                    Inl e \<Rightarrow> Inl e
                  | Inr (conv1, Inl err) \<Rightarrow> Inr (logStmtError conv1 ''CreateStmt'' err)
                  | Inr (conv1, Inr (colNames, colDef, constraints)) \<Rightarrow>
                      (let conv2 = SchemaStatement ''CreateStmt'' conv1;
                           conv3 = conv2\<lparr>SrcSchema := (SrcSchema conv2)(tbl \<mapsto>
                                     \<lparr>TblName = tbl, ColNames = colNames,
                                      ColDefs = Some colDef, PrimaryKeys = [],
                                      ForeignKeys = [], Indexes = []\<rparr>)\<rparr>
                       in updateSchema conv3 tbl constraints ''CREATE TABLE''))))"

text \<open>One command of an alter-table statement, for a table that is in the schema.\<close>

definition alterTableCmd :: "Conv \<Rightarrow> string \<Rightarrow> Node \<Rightarrow> error + Conv" where
  "alterTableCmd conv tbl i =
     (case i of
        Node_AlterTableCmd sub nm df \<Rightarrow>
          if sub = AT_SetNotNull \<and> nm \<noteq> [] then
            (case updateSchema conv tbl
                    [\<lparr>ct = CONSTR_NOTNULL, cols = [nm], name = [], referCols = [],
                      referTable = []\<rparr>] ''ALTER TABLE'' of
               Inl e \<Rightarrow> Inl e
             | Inr conv1 \<Rightarrow> Inr (SchemaStatement ''AlterTableStmt.AlterTableCmd'' conv1))
          else if sub = AT_AddConstraint \<and> df \<noteq> None then
            (case df of
               Some (Node_Constraint contype conname keys fkAttrs pkAttrs pktable) \<Rightarrow>
                 (case extractConstraints conv ''AlterTableStmt''
                         [Node_Constraint contype conname keys fkAttrs pkAttrs pktable] of
                    Inl e \<Rightarrow> Inl e
                  | Inr (conv1, cs) \<Rightarrow>
                      (case updateSchema conv1 tbl cs ''ALTER TABLE'' of
                         Inl e \<Rightarrow> Inl e
                       | Inr conv2 \<Rightarrow>
                           Inr (SchemaStatement ''AlterTableStmt.AlterTableCmd.Constraint''
                                  conv2)))
             | Some other \<Rightarrow>
                 Inr (SkipStatement (''AlterTableStmt.AlterTableCmd.'' @ printNodeType other)
                        conv)
             | None \<Rightarrow> Inr conv)
          else Inr (SkipStatement ''AlterTableStmt.AlterTableCmd'' conv)
      | _ \<Rightarrow> Inr (SkipStatement (''AlterTableStmt.'' @ printNodeType i) conv))"

fun alterTableCmds :: "Conv \<Rightarrow> string \<Rightarrow> Node list \<Rightarrow> error + Conv" where
  "alterTableCmds conv tbl [] = Inr conv"
| "alterTableCmds conv tbl (i # cmds) =
     (case alterTableCmd conv tbl i of
        Inl e \<Rightarrow> Inl e
      | Inr conv1 \<Rightarrow> alterTableCmds conv1 tbl cmds)"

definition processAlterTableStmt :: "Conv \<Rightarrow> AlterTableStmt \<Rightarrow> error + Conv" where
  "processAlterTableStmt conv n =
     (case at_Relation n of
        None \<Rightarrow> Inr (logStmtError conv ''AlterTableStmt'' ''relation is nil'')
      | Some rv \<Rightarrow>
          (case getTableName rv of
             Inl err \<Rightarrow>
               Inr (logStmtError conv ''AlterTableStmt'' (''can't get table name: '' @ err))
           | Inr tbl \<Rightarrow>
               (case SrcSchema conv tbl of
                  Some t \<Rightarrow> alterTableCmds conv tbl (at_Cmds n)
                | None \<Rightarrow> Inr (SkipStatement ''AlterTableStmt'' conv))))"

definition processIndexStmt :: "Conv \<Rightarrow> IndexStmt \<Rightarrow> Conv" where
  "processIndexStmt conv n =
     (case ix_Relation n of
        None \<Rightarrow>
          logStmtError conv ''IndexStmt'' ''cannot process index statement with nil relation''
      | Some rv \<Rightarrow>
          (case getTableName rv of
             Inl err \<Rightarrow> logStmtError conv ''IndexStmt'' (''can't get table name: '' @ err)
           | Inr tableName \<Rightarrow>
               (case SrcSchema conv tableName of
                  Some ctable \<Rightarrow>
                    (case toIndexKeys conv (ix_Idxname n) (ix_IndexParams n) of
                       (conv1, keys) \<Rightarrow>
                         conv1\<lparr>SrcSchema := (SrcSchema conv1)(tableName \<mapsto>
                                 ctable\<lparr>Indexes := Indexes ctable @
                                   [\<lparr>IdxName = ix_Idxname n, Unique = ix_Unique n,
                                     Keys = keys\<rparr>]\<rparr>)\<rparr>)
                | None \<Rightarrow>
                    SkipStatement ''IndexStmt''
                      (Unexpected (''Table '' @ tableName
                         @ '' not found while processing index statement'') conv))))"

text \<open>\<^verbatim>\<open>time.LoadLocation\<close> depends on the time zone data of the machine: it is a parameter,
  from the name of a zone to the zone or to an error message.\<close>

definition processVariableSetStmt ::
  "(string \<Rightarrow> string + string) \<Rightarrow> Conv \<Rightarrow> VariableSetStmt \<Rightarrow> Conv" where
  "processVariableSetStmt LoadLocation conv n =
     (if vs_Name n = ''timezone'' \<and> length (vs_Args n) = 1 then
        (case hd (vs_Args n) of
           Node_AConst v \<Rightarrow>
             (case getString v of
                Inl err \<Rightarrow> logStmtError conv ''AConst'' (''can't get Arg: '' @ err)
              | Inr tz \<Rightarrow>
                  (case LoadLocation tz of
                     Inl err \<Rightarrow> logStmtError conv ''AConst'' err
                   | Inr loc \<Rightarrow> SetLocation loc conv))
         | other \<Rightarrow>
             logStmtError conv ''Node'' (''found '' @ printNodeType other @ '' node in Arg''))
      else conv)"

definition processInsertStmt :: "Conv \<Rightarrow> InsertStmt \<Rightarrow> error + Conv \<times> copyOrInsert option" where
  "processInsertStmt conv n =
     (case ins_Relation n of
        None \<Rightarrow> Inr (logStmtError conv ''InsertStmt'' ''relation is nil'', None)
      | Some rv \<Rightarrow>
          (case getTableName rv of
             Inl err \<Rightarrow>
               Inr (logStmtError conv ''InsertStmt'' (''can't get table name: '' @ err), None)
           | Inr tbl \<Rightarrow>
               (case SrcSchema conv tbl of
                  None \<Rightarrow> Inr (SkipStatement ''InsertStmt'' conv, None)
                | Some t \<Rightarrow>
                    (let conv1 = StatsAddRow tbl (SchemaMode conv) conv in
                     case getCols (ins_Cols n) of
                       Inl err \<Rightarrow>
                         (let conv2 = logStmtError conv1 ''InsertStmt''
                                        (''can't get col name: '' @ err)
                          in Inr (StatsAddBadRow tbl (SchemaMode conv2) conv2, None))
                     | Inr colNames \<Rightarrow>
                         (case ins_SelectStmt n of
                            None \<Rightarrow> Inl NilPointer
                          | Some (Node_SelectStmt vll) \<Rightarrow>
                              (case getRows conv1 vll of (conv2, rows) \<Rightarrow>
                                 (let conv3 = DataStatement ''SelectStmt'' conv2 in
                                  if DataMode conv3 then
                                    Inr (conv3, Some \<lparr>ci_stmt = insert, ci_table = tbl,
                                                      ci_cols = colNames, ci_rows = rows\<rparr>)
                                  else Inr (conv3, None)))
                          | Some sel \<Rightarrow>
                              Inr (Unexpected (''Found '' @ printNodeType sel
                                     @ '' node while processing InsertStmt SelectStmt'') conv1,
                                   None))))))"

text \<open>The names of the columns of a copy statement (the loop of \<^verbatim>\<open>processCopyStmt\<close>).\<close>

fun copyAttlist :: "Conv \<Rightarrow> Node list \<Rightarrow> Conv \<times> string list" where
  "copyAttlist conv [] = (conv, [])"
| "copyAttlist conv (a # attlist) =
     (case getString a of
        Inl err \<Rightarrow>
          (case copyAttlist
                  (Unexpected (''Processing CopyStmt statement Attlist: '' @ err) conv) attlist of
             (conv1, l) \<Rightarrow> (conv1, ''BOGUS_COPY_FROM_COLUMN'' # l))
      | Inr s \<Rightarrow> (case copyAttlist conv attlist of (conv1, l) \<Rightarrow> (conv1, s # l)))"

definition processCopyStmt :: "Conv \<Rightarrow> CopyStmt \<Rightarrow> Conv \<times> copyOrInsert" where
  "processCopyStmt conv n =
     (case (case cp_Relation n of
              Some rv \<Rightarrow>
                (case getTableName rv of
                   Inl err \<Rightarrow> (Unexpected (''Processing CopyStmt statement: '' @ err) conv, [])
                 | Inr tbl \<Rightarrow> (conv, tbl))
            | None \<Rightarrow>
                (logStmtError conv ''CopyStmt'' ''relation is nil'', ''BOGUS_COPY_FROM_TABLE'')) of
        (conv1, tbl) \<Rightarrow>
          (case SrcSchema conv1 tbl of
             None \<Rightarrow>
               (SkipStatement ''CopyStmt'' conv1,
                \<lparr>ci_stmt = copyFrom, ci_table = tbl, ci_cols = [], ci_rows = []\<rparr>)
           | Some t \<Rightarrow>
               (case copyAttlist conv1 (cp_Attlist n) of
                  (conv2, cs) \<Rightarrow>
                    (DataStatement ''CopyStmt'' conv2,
                     \<lparr>ci_stmt = copyFrom, ci_table = tbl, ci_cols = cs, ci_rows = []\<rparr>))))"

fun processStatements ::
  "(string \<Rightarrow> string + string) \<Rightarrow> Conv \<Rightarrow> Stmt list \<Rightarrow> error + Conv \<times> copyOrInsert option" where
  "processStatements LoadLocation conv [] = Inr (conv, None)"
| "processStatements LoadLocation conv (rawStmt # rawStmts) =
     (case rawStmt of
        Node_AlterTableStmt n \<Rightarrow>
          if SchemaMode conv then
            (case processAlterTableStmt conv n of
               Inl e \<Rightarrow> Inl e
             | Inr conv1 \<Rightarrow> processStatements LoadLocation conv1 rawStmts)
          else processStatements LoadLocation conv rawStmts
      | Node_CopyStmt n \<Rightarrow>
          (case processCopyStmt
                  (if rawStmts \<noteq> [] then
                     ErrorInStatement ''CopyStmt''
                       (Unexpected
                          ''CopyFrom is not the last statement in batch: ignoring following statements''
                          conv)
                   else conv) n of
             (conv1, ci) \<Rightarrow> Inr (conv1, Some ci))
      | Node_CreateStmt n \<Rightarrow>
          if SchemaMode conv then
            (case processCreateStmt conv n of
               Inl e \<Rightarrow> Inl e
             | Inr conv1 \<Rightarrow> processStatements LoadLocation conv1 rawStmts)
          else processStatements LoadLocation conv rawStmts
      | Node_InsertStmt n \<Rightarrow> processInsertStmt conv n
      | Node_VariableSetStmt n \<Rightarrow>
          if SchemaMode conv then
            processStatements LoadLocation (processVariableSetStmt LoadLocation conv n) rawStmts
          else processStatements LoadLocation conv rawStmts
      | Node_IndexStmt n \<Rightarrow>
          if SchemaMode conv then
            processStatements LoadLocation (processIndexStmt conv n) rawStmts
          else processStatements LoadLocation conv rawStmts
      | Node_OtherStmt ty \<Rightarrow>
          processStatements LoadLocation (SkipStatement ty conv) rawStmts)"

section \<open>The driver\<close>

text \<open>The loop over the rows of an insert statement in \<^verbatim>\<open>processPgDump\<close>.\<close>

fun processInsertRows :: "Conv \<Rightarrow> copyOrInsert \<Rightarrow> string list list \<Rightarrow> Conv" where
  "processInsertRows conv ci [] = conv"
| "processInsertRows conv ci (vals # rows) =
     processInsertRows
       (if length (ci_cols ci) = 0
        then ProcessDataRow conv (ci_table ci) (ColNames (srcTableOf conv (ci_table ci))) vals
        else ProcessDataRow conv (ci_table ci) (ci_cols ci) vals)
       ci rows"

text \<open>One turn of the loop of \<^verbatim>\<open>processPgDump\<close>: a chunk is read and parsed, its statements
  are processed, and the copy block or the rows of the insert statement that ended the
  chunk are consumed. A parse error ends the run, as a panic does.\<close>

definition processChunk ::
  "(string \<Rightarrow> Stmt list option) \<Rightarrow> (string \<Rightarrow> string + string) \<Rightarrow> Conv \<Rightarrow> Reader
     \<Rightarrow> error + Conv \<times> Reader" where
  "processChunk Parse LoadLocation conv r =
     (case readAndParseChunk Parse conv r of
        (Inl e, conv1, r1) \<Rightarrow> Inl e
      | (Inr (b, stmts), conv1, r1) \<Rightarrow>
          (case processStatements LoadLocation conv1 stmts of
             Inl e \<Rightarrow> Inl e
           | Inr (conv2, None) \<Rightarrow> Inr (conv2, r1)
           | Inr (conv2, Some ci) \<Rightarrow>
               (case ci_stmt ci of
                  copyFrom \<Rightarrow> Inr (processCopyBlock conv2 (ci_table ci) (ci_cols ci) r1)
                | insert \<Rightarrow> Inr (processInsertRows conv2 ci (ci_rows ci), r1))))"

text \<open>Each turn of the loop reads at least one line, so the loop ends: a call of
  \<open>ReadLine\<close> that does not raise the end-of-stream flag shortens the input.\<close>

lemma ReadLine_progress:
  "ReadLine r = (b, r1) \<Longrightarrow> EOF r1 \<or> length (input r1) < length (input r)"
  using ReadLine_shorter by blast

lemma ReadLine_EOF_sticky:
  assumes "ReadLine r = (b, r1)" and "EOF r"
  shows "EOF r1"
proof (cases "dropWhile (\<lambda>c. c \<noteq> LF) (input r)")
  case Nil
  show ?thesis using assms(1) unfolding ReadLine_def Let_def Nil by auto
next
  case (Cons nl rest)
  show ?thesis using assms unfolding ReadLine_def Let_def Cons by auto
qed

lemma readAndParseChunk_loop_progress:
  "readAndParseChunk_loop Parse l conv r = (out, conv', r') \<Longrightarrow>
   EOF r' \<or> length (input r') < length (input r)"
proof (induction Parse l conv r rule: readAndParseChunk_loop.induct)
  case (1 Parse l conv r)
  obtain b r1 where rl: "ReadLine r = (b, r1)" by (cases "ReadLine r")
  note p = ReadLine_progress [OF rl]
  show ?case
  proof (cases "EOF r1")
    case True
    have "r' = r1"
      using "1.prems" True
      by (subst (asm) readAndParseChunk_loop.simps) (auto simp: rl split: option.splits)
    then show ?thesis using True by simp
  next
    case False
    then have less: "length (input r1) < length (input r)" using p by simp
    show ?thesis
    proof (cases "Contains b '';''")
      case c: True
      show ?thesis
      proof (cases "Parse (concat (l @ [b]))")
        case None
        have "readAndParseChunk_loop Parse (l @ [b]) (conv\<lparr>Reparsed := Reparsed conv + 1\<rparr>) r1
                = (out, conv', r')"
          using "1.prems" False c None
          by (subst (asm) readAndParseChunk_loop.simps) (simp add: rl)
        from "1.IH"(1) [OF rl [symmetric] _ None False this] c less
        show ?thesis by auto
      next
        case (Some stmts)
        have "r' = r1"
          using "1.prems" False c Some
          by (subst (asm) readAndParseChunk_loop.simps) (simp add: rl)
        then show ?thesis using less by simp
      qed
    next
      case c: False
      have "readAndParseChunk_loop Parse (l @ [b]) conv r1 = (out, conv', r')"
        using "1.prems" False c
        by (subst (asm) readAndParseChunk_loop.simps) (simp add: rl)
      from "1.IH"(2) [OF rl [symmetric] _ False this] c False less
      show ?thesis by auto
    qed
  qed
qed

lemma processCopyBlock_progress:
  "processCopyBlock conv t cs r = (conv', r') \<Longrightarrow>
   (EOF r' \<or> length (input r') < length (input r)) \<and> (EOF r \<longrightarrow> EOF r')"
proof (induction conv t cs r rule: processCopyBlock.induct)
  case (1 conv srcTable srcCols r)
  obtain b r1 where rl: "ReadLine r = (b, r1)" by (cases "ReadLine r")
  note p = ReadLine_progress [OF rl]
  note st = ReadLine_EOF_sticky [OF rl]
  let ?conv1 = "StatsAddRow srcTable (SchemaMode conv) conv"
  let ?vals = "Split (Trim (ReplaceAll b [backslash, backslash] [backslash]) [CR, LF]) [tab]"
  show ?case
  proof (cases "b = [backslash, CHR ''.'', LF] \<or> b = [backslash, CHR ''.'', CR, LF] \<or> EOF r1")
    case True
    have "r' = r1"
      using "1.prems" True
      by (subst (asm) processCopyBlock.simps) (auto simp: rl split: if_splits)
    then show ?thesis using p st by auto
  next
    case False
    then have less: "length (input r1) < length (input r)" and ne: "\<not> EOF r" using p st by auto
    show ?thesis
    proof (cases "DataMode ?conv1")
      case True
      have "processCopyBlock (ProcessDataRow ?conv1 srcTable srcCols ?vals) srcTable srcCols r1
              = (conv', r')"
        using "1.prems" False True
        by (subst (asm) processCopyBlock.simps) (simp add: rl Let_def)
      from "1.IH"(2) [OF rl [symmetric] _ _ refl _ refl this] False True less ne
      show ?thesis by auto
    next
      case dm: False
      have "processCopyBlock ?conv1 srcTable srcCols r1 = (conv', r')"
        using "1.prems" False dm
        by (subst (asm) processCopyBlock.simps) (simp add: rl Let_def)
      from "1.IH"(1) [OF rl [symmetric] _ _ refl dm this] False less ne
      show ?thesis by auto
    qed
  qed
qed


lemma processChunk_progress:
  assumes "processChunk Parse LoadLocation conv r = Inr (conv', r')" and "\<not> EOF r'"
  shows "length (input r') < length (input r)"
proof -
  obtain out conv1 r1 where rc: "readAndParseChunk Parse conv r = (out, conv1, r1)"
    by (cases "readAndParseChunk Parse conv r")
  then have p1: "EOF r1 \<or> length (input r1) < length (input r)"
    unfolding readAndParseChunk_def by (rule readAndParseChunk_loop_progress)
  obtain b stmts where out: "out = Inr (b, stmts)"
    using assms(1) rc by (cases out) (auto simp: processChunk_def)
  obtain conv2 oci where ps: "processStatements LoadLocation conv1 stmts = Inr (conv2, oci)"
    using assms(1) rc out
    by (cases "processStatements LoadLocation conv1 stmts") (auto simp: processChunk_def)
  show ?thesis
  proof (cases "\<exists>ci. oci = Some ci \<and> ci_stmt ci = copyFrom")
    case True
    then obtain ci where ci: "oci = Some ci" "ci_stmt ci = copyFrom" by blast
    have "processCopyBlock conv2 (ci_table ci) (ci_cols ci) r1 = (conv', r')"
      using assms(1) rc out ps ci by (simp add: processChunk_def)
    then have "(EOF r' \<or> length (input r') < length (input r1)) \<and> (EOF r1 \<longrightarrow> EOF r')"
      by (rule processCopyBlock_progress)
    then show ?thesis using p1 assms(2) by auto
  next
    case False
    have "r' = r1"
    proof (cases oci)
      case None
      then show ?thesis using assms(1) rc out ps by (simp add: processChunk_def)
    next
      case (Some ci)
      then have "ci_stmt ci = insert" using False by (cases "ci_stmt ci") auto
      then show ?thesis using assms(1) rc out ps Some by (simp add: processChunk_def)
    qed
    then show ?thesis using p1 assms(2) by auto
  qed
qed

text \<open>\<^verbatim>\<open>processPgDump\<close>: chunks are processed until the reader has reached the end of the
  stream. The result is the error that ended the run, or the final state.\<close>

function processPgDump ::
  "(string \<Rightarrow> Stmt list option) \<Rightarrow> (string \<Rightarrow> string + string) \<Rightarrow> Conv \<Rightarrow> Reader
     \<Rightarrow> error + Conv \<times> Reader" where
  "processPgDump Parse LoadLocation conv r =
     (case processChunk Parse LoadLocation conv r of
        Inl e \<Rightarrow> Inl e
      | Inr (conv1, r1) \<Rightarrow>
          if EOF r1 then Inr (conv1, r1) else processPgDump Parse LoadLocation conv1 r1)"
  by pat_completeness auto
termination
  by (relation "measure (\<lambda>(Parse, LoadLocation, conv, r). length (input r))")
     (auto intro: processChunk_progress)

declare processPgDump.simps [simp del]

section \<open>The primary-key finalizer\<close>

text \<open>Modelled from the spec: \<^verbatim>\<open>Conv.AddPrimaryKeys\<close> is not among the source files; only
  its test \<^verbatim>\<open>TestAddPrimaryKeys\<close> is. Section 4.7 of the specification: for every table of
  the target schema that lacks a primary key, a synthetic integer column is allocated,
  named from a fixed base name disambiguated against the column names of the table,
  appended to the column order and made the sole primary key, and a sequence counter
  starting at zero is registered for the table. The base name is the one of the test,
  \<^verbatim>\<open>synth_id\<close>; the disambiguation tries the base name and then the base name followed by
  0, 1, 2, ... and takes the first name that is not a column of the table. One more
  candidate than the table has columns is always enough.\<close>

definition syntheticKeyCandidates :: "nat \<Rightarrow> string list" where
  "syntheticKeyCandidates n = ''synth_id'' # map (\<lambda>i. ''synth_id'' @ digitsOf i) [0..<n]"

definition buildPrimaryKey :: "string list \<Rightarrow> string" where
  "buildPrimaryKey colNames =
     (case find (\<lambda>k. k \<notin> set colNames) (syntheticKeyCandidates (length colNames)) of
        Some k \<Rightarrow> k
      | None \<Rightarrow> ''synth_id'')"

definition addPrimaryKey :: "CreateTable \<Rightarrow> CreateTable" where
  "addPrimaryKey spTable =
     (let k = buildPrimaryKey (CtColNames spTable)
      in spTable\<lparr>CtColNames := CtColNames spTable @ [k],
            CtColDefs := (CtColDefs spTable)(k \<mapsto> \<lparr>CdName = k, T = Int64\<rparr>),
            Pks := [\<lparr>Col = k, IkDesc = False\<rparr>]\<rparr>)"

definition AddPrimaryKeys :: "Conv \<Rightarrow> Conv" where
  "AddPrimaryKeys conv =
     conv\<lparr>SpSchema := (\<lambda>t. case SpSchema conv t of
                             None \<Rightarrow> None
                           | Some spTable \<Rightarrow>
                               if length (Pks spTable) = 0 then Some (addPrimaryKey spTable)
                               else Some spTable),
          SyntheticPKeys := (\<lambda>t. case SpSchema conv t of
                             None \<Rightarrow> SyntheticPKeys conv t
                           | Some spTable \<Rightarrow>
                               if length (Pks spTable) = 0
                               then Some \<lparr>SynthCol = buildPrimaryKey (CtColNames spTable),
                                          Sequence = 0\<rparr>
                               else SyntheticPKeys conv t)\<rparr>"

section \<open>Auxiliary notions for the proofs\<close>

text \<open>\<open>keeps c c'\<close>: the state \<open>c'\<close> has the mode of \<open>c\<close> and has handed the same rows to
  the row converter.\<close>

definition keeps :: "Conv \<Rightarrow> Conv \<Rightarrow> bool" where
  "keeps c c' = (mode c' = mode c \<and> dataRows c' = dataRows c)"

text \<open>The statements at which \<^verbatim>\<open>processStatements\<close> returns.\<close>

definition isCopyOrInsert :: "Stmt \<Rightarrow> bool" where
  "isCopyOrInsert s = (case s of Node_CopyStmt n \<Rightarrow> True | Node_InsertStmt n \<Rightarrow> True | _ \<Rightarrow> False)"

section \<open>Example states\<close>

definition exT :: Table where
  "exT = \<lparr>TblName = ''t'', ColNames = [''a'', ''b''],
     ColDefs = Some [''a'' \<mapsto> zeroColumn\<lparr>ColName := ''a''\<rparr>,
                     ''b'' \<mapsto> zeroColumn\<lparr>ColName := ''b''\<rparr>],
     PrimaryKeys = [\<lparr>KeyColumn = ''a'', Desc = False\<rparr>], ForeignKeys = [], Indexes = []\<rparr>"

definition exConv :: Conv where
  "exConv = MakeConv\<lparr>SrcSchema := [''t'' \<mapsto> exT]\<rparr>"

definition exPk :: constraint where
  "exPk = \<lparr>ct = CONSTR_PRIMARY, cols = [''b''], name = [], referCols = [], referTable = []\<rparr>"

definition exUq :: constraint where
  "exUq = \<lparr>ct = CONSTR_UNIQUE, cols = [''b''], name = [], referCols = [], referTable = []\<rparr>"

definition exParse :: "string \<Rightarrow> nat list option" where
  "exParse s = (if s = ''x;'' @ [LF] @ ''y;'' @ [LF] then Some [1, 2] else None)"

definition exReader :: Reader where
  "exReader = NewReader (''x;'' @ [LF] @ ''y;'' @ [LF] @ ''z'')"

definition exDataConv :: Conv where
  "exDataConv = MakeConv\<lparr>mode := dataOnly\<rparr>"

definition exRow :: "string list" where
  "exRow = ['' a'', [backslash], ''b '']"

definition exRowLine :: string where
  "exRowLine = '' a'' @ [tab, backslash, backslash, tab] @ ''b ''"

definition exBlockReader :: Reader where
  "exBlockReader = NewReader (exRowLine @ [LF] @ ''7'' @ [LF] @ [backslash, CHR ''.'', LF] @ ''rest'')"

definition exTruncReader :: Reader where
  "exTruncReader = NewReader (''7'' @ [LF] @ ''8'')"

definition exRv :: RangeVar where
  "exRv = \<lparr>Catalogname = [], Schemaname = ''public'', Relname = ''t''\<rparr>"

definition exValues :: "Node list" where
  "exValues = [Node_List [Node_AConst (Node_Integer 1),
                          Node_AConst (Node_String (''str:'' @ [dquote] @ ''x '' @ [dquote]))]]"

definition exInsert :: InsertStmt where
  "exInsert = \<lparr>ins_Relation = Some exRv, ins_Cols = [],
               ins_SelectStmt = Some (Node_SelectStmt exValues)\<rparr>"

definition exCopy :: CopyStmt where
  "exCopy = \<lparr>cp_Relation = Some exRv,
             cp_Attlist = [Node_String (''str:'' @ [dquote] @ ''a'' @ [dquote])]\<rparr>"

definition exDumpParse :: "string \<Rightarrow> Stmt list option" where
  "exDumpParse s =
     (if s = ''COPY t;'' @ [LF] then Some [Node_CopyStmt exCopy]
      else if s = [] then Some []
      else None)"

definition exDump :: Reader where
  "exDump = NewReader (''COPY t;'' @ [LF] @ ''1'' @ [LF] @ [backslash, CHR ''.'', LF])"

definition exLoad :: "string \<Rightarrow> string + string" where
  "exLoad s = Inr s"

definition exDataConvT :: Conv where
  "exDataConvT = exConv\<lparr>mode := dataOnly\<rparr>"

definition exInsertCols :: InsertStmt where
  "exInsertCols = exInsert\<lparr>ins_Cols := [Node_ResTarget ''b'', Node_ResTarget ''a'']\<rparr>"

definition exInherited :: CreateStmt where
  "exInherited = \<lparr>cr_Relation = Some \<lparr>Catalogname = [], Schemaname = [], Relname = ''child''\<rparr>,
     cr_TableElts = [], cr_InhRelations = [Node_Other ''RangeVar'']\<rparr>"

definition exChildRv :: RangeVar where
  "exChildRv = \<lparr>Catalogname = [], Schemaname = [], Relname = ''child''\<rparr>"

definition exSpTable :: CreateTable where
  "exSpTable = \<lparr>CtName = ''table'', CtColNames = [''a'', ''b''],
     CtColDefs = [''a'' \<mapsto> \<lparr>CdName = ''a'', T = Int64\<rparr>, ''b'' \<mapsto> \<lparr>CdName = ''b'', T = Float64\<rparr>],
     Pks = []\<rparr>"

definition exSpConv :: Conv where
  "exSpConv = MakeConv\<lparr>SpSchema := [''table'' \<mapsto> exSpTable]\<rparr>"

definition exInsertParse :: "string \<Rightarrow> Stmt list option" where
  "exInsertParse s =
     (if s = ''INSERT;'' @ [LF] then Some [Node_InsertStmt exInsert]
      else if s = [] then Some []
      else None)"

definition exInsertDump :: Reader where
  "exInsertDump = NewReader (''INSERT;'' @ [LF])"

section \<open>Properties of constraint resolution\<close>

lemma updateCol_idem: "updateCol c (updateCol c cd) = updateCol c cd"
  by (cases c) (simp_all add: updateCol_def)

lemma updateCol_NotNull: "NotNull (updateCol CONSTR_NOTNULL cd)"
  by (simp add: updateCol_def)

lemma toSchemaKeys_map: "toSchemaKeys ks = map (\<lambda>k. \<lparr>KeyColumn = k, Desc = False\<rparr>) ks"
  by (induction ks) simp_all

text \<open>On a map that is not nil, \<open>updateCols\<close> never fails: it rewrites exactly the
  listed columns, creating an entry from the zero column for a name the map lacks.\<close>

lemma updateCols_Some:
  "\<exists>m'. updateCols c ks (Some m) = Inr (Some m') \<and>
     (\<forall>k. m' k = (if k \<in> set ks
                   then Some (updateCol c (case m k of None \<Rightarrow> zeroColumn | Some cd \<Rightarrow> cd))
                   else m k))"
proof (induction ks arbitrary: m)
  case Nil
  then show ?case by simp
next
  case (Cons a ks)
  let ?m1 = "m(a \<mapsto> updateCol c (case m a of None \<Rightarrow> zeroColumn | Some cd \<Rightarrow> cd))"
  from Cons.IH [of ?m1] obtain m' where
    r: "updateCols c ks (Some ?m1) = Inr (Some m')" and
    v: "\<And>k. m' k = (if k \<in> set ks
                 then Some (updateCol c (case ?m1 k of None \<Rightarrow> zeroColumn | Some cd \<Rightarrow> cd))
                 else ?m1 k)"
    by blast
  have "updateCols c (a # ks) (Some m) = Inr (Some m')"
    using r by simp
  moreover have "m' k = (if k \<in> set (a # ks)
        then Some (updateCol c (case m k of None \<Rightarrow> zeroColumn | Some cd \<Rightarrow> cd))
        else m k)" for k
    using v [of k] by (simp add: updateCol_idem)
  ultimately show ?case by blast
qed

text \<open>Claim C1. Applying a primary-key constraint to a table of the source schema
  replaces the table's primary key by the keys of the constraint, whatever the previous
  key was; it logs one diagnostic exactly when the table already had a primary key (and
  none otherwise); and afterwards every column the constraint lists has a definition
  with the not-null flag set. The other columns and the other tables are untouched.\<close>

theorem updateSchema_primary_key:
  assumes "SrcSchema conv table = Some t" and "ColDefs t = Some m" and "ct c = CONSTR_PRIMARY"
  shows "\<exists>conv' t' m'. updateSchema conv table [c] stmtType = Inr conv'
     \<and> SrcSchema conv' table = Some t' \<and> ColDefs t' = Some m'
     \<and> PrimaryKeys t' = map (\<lambda>k. \<lparr>KeyColumn = k, Desc = False\<rparr>) (cols c)
     \<and> (\<forall>k \<in> set (cols c). \<exists>cd. m' k = Some cd \<and> NotNull cd)
     \<and> (\<forall>k. k \<notin> set (cols c) \<longrightarrow> m' k = m k)
     \<and> (\<forall>other. other \<noteq> table \<longrightarrow> SrcSchema conv' other = SrcSchema conv other)
     \<and> Unexpecteds conv' = Unexpecteds conv @
          (if PrimaryKeys t = [] then []
           else [stmtType @ '' statement is adding a second primary key''])"
proof -
  obtain m' where
    r: "updateCols CONSTR_NOTNULL (cols c) (Some m) = Inr (Some m')" and
    v: "\<And>k. m' k = (if k \<in> set (cols c)
          then Some (updateCol CONSTR_NOTNULL (case m k of None \<Rightarrow> zeroColumn | Some cd \<Rightarrow> cd))
          else m k)"
    using updateCols_Some [of CONSTR_NOTNULL "cols c" m] by blast
  define conv1 where "conv1 = checkEmpty conv (PrimaryKeys t) stmtType"
  define t' where "t' = t\<lparr>PrimaryKeys := toSchemaKeys (cols c), ColDefs := Some m'\<rparr>"
  define conv' where "conv' = conv1\<lparr>SrcSchema := (SrcSchema conv1)(table \<mapsto> t')\<rparr>"
  have run: "updateSchema conv table [c] stmtType = Inr conv'"
    using assms r
    by (simp add: updateSchema1_def srcTableOf_def conv'_def conv1_def t'_def Let_def)
  have s1: "SrcSchema conv1 = SrcSchema conv"
    by (simp add: conv1_def checkEmpty_def Unexpected_def)
  have u1: "Unexpecteds conv1 = Unexpecteds conv @
          (if PrimaryKeys t = [] then []
           else [stmtType @ '' statement is adding a second primary key''])"
    by (simp add: conv1_def checkEmpty_def Unexpected_def)
  show ?thesis
    using run s1 u1 v by (auto simp: conv'_def t'_def toSchemaKeys_map updateCol_NotNull)
qed

theorem updateSchema_primary_key_witness:
  "SrcSchema exConv ''t'' = Some exT \<and> ct exPk = CONSTR_PRIMARY \<and> PrimaryKeys exT \<noteq> [] \<and>
   (\<exists>conv' t' m' cd. updateSchema exConv ''t'' [exPk] ''ALTER TABLE'' = Inr conv'
      \<and> SrcSchema conv' ''t'' = Some t' \<and> ColDefs t' = Some m'
      \<and> PrimaryKeys t' = [\<lparr>KeyColumn = ''b'', Desc = False\<rparr>]
      \<and> m' ''b'' = Some cd \<and> NotNull cd
      \<and> Unexpecteds conv' = [''ALTER TABLE statement is adding a second primary key''])"
proof -
  have a: "SrcSchema exConv ''t'' = Some exT" by (simp add: exConv_def MakeConv_def)
  have b: "ColDefs exT = Some [''a'' \<mapsto> zeroColumn\<lparr>ColName := ''a''\<rparr>,
                                ''b'' \<mapsto> zeroColumn\<lparr>ColName := ''b''\<rparr>]"
    by (simp add: exT_def)
  have c: "ct exPk = CONSTR_PRIMARY" by (simp add: exPk_def)
  have d: "PrimaryKeys exT \<noteq> []" by (simp add: exT_def)
  have e: "Unexpecteds exConv = []" by (simp add: exConv_def MakeConv_def)
  have f: "cols exPk = [''b'']" by (simp add: exPk_def)
  from updateSchema_primary_key [OF a b c, of "''ALTER TABLE''"] a c d e f
  show ?thesis by auto
qed

text \<open>Claim C8, as the code has it. Applying a unique constraint to a table of the source
  schema appends one index to the table's index list: its uniqueness flag is set, its
  keys are the constrained columns in order, and its name is the constraint's name copied
  as it is, so it is empty when the constraint had none. Nothing else changes.\<close>

theorem updateSchema_unique_index:
  assumes "SrcSchema conv table = Some t" and "ct c = CONSTR_UNIQUE"
  shows "updateSchema conv table [c] stmtType =
     Inr (conv\<lparr>SrcSchema := (SrcSchema conv)(table \<mapsto>
            t\<lparr>Indexes := Indexes t @
                 [\<lparr>IdxName = name c, Unique = True,
                   Keys = map (\<lambda>k. \<lparr>KeyColumn = k, Desc = False\<rparr>) (cols c)\<rparr>]\<rparr>)\<rparr>)"
  using assms by (simp add: updateSchema1_def srcTableOf_def Let_def toSchemaKeys_map)

theorem updateSchema_unique_index_witness:
  "SrcSchema exConv ''t'' = Some exT \<and> ct exUq = CONSTR_UNIQUE \<and>
   updateSchema exConv ''t'' [exUq] ''CREATE TABLE'' =
     Inr (exConv\<lparr>SrcSchema := (SrcSchema exConv)(''t'' \<mapsto>
            exT\<lparr>Indexes := [\<lparr>IdxName = [], Unique = True,
                              Keys = [\<lparr>KeyColumn = ''b'', Desc = False\<rparr>]\<rparr>]\<rparr>)\<rparr>)"
proof -
  have a: "SrcSchema exConv ''t'' = Some exT" by (simp add: exConv_def MakeConv_def)
  have c: "ct exUq = CONSTR_UNIQUE" by (simp add: exUq_def)
  have i: "Indexes exT = []" by (simp add: exT_def)
  have n: "name exUq = []" "cols exUq = [''b'']" by (simp_all add: exUq_def)
  from updateSchema_unique_index [OF a c, of "''CREATE TABLE''"] a c i n
  show ?thesis by simp
qed

text \<open>The claim as written has \<open>updateSchema\<close> synthesize a name for the index of an
  unnamed unique constraint. It does not: the unnamed constraint \<open>exUq\<close> leaves an index
  whose name is the empty string.\<close>

theorem updateSchema_unique_name_counterexample:
  "name exUq = [] \<and> ct exUq = CONSTR_UNIQUE \<and>
   (case updateSchema exConv ''t'' [exUq] ''CREATE TABLE'' of
      Inl e \<Rightarrow> None
    | Inr conv' \<Rightarrow> Some (map IdxName (Indexes (srcTableOf conv' ''t'')))) = Some [[]]"
  by (simp add: exUq_def exConv_def exT_def MakeConv_def updateSchema1_def srcTableOf_def)

section \<open>Properties of the chunk assembler\<close>

lemma readLines_Nil: "dropWhile (\<lambda>c. c \<noteq> LF) s = [] \<Longrightarrow> readLines s = [s]"
  by (subst readLines.simps) (simp del: dropWhile_eq_Nil_conv)

lemma readLines_Cons:
  "dropWhile (\<lambda>c. c \<noteq> LF) s = nl # rest \<Longrightarrow>
   readLines s = (takeWhile (\<lambda>c. c \<noteq> LF) s @ [nl]) # readLines rest"
  by (subst readLines.simps) (simp del: dropWhile_eq_Cons_conv)

lemma readLines_not_Nil: "readLines s \<noteq> []"
  by (subst readLines.simps) (simp split: list.split del: dropWhile_eq_Cons_conv)

lemma concat_readLines: "concat (readLines s) = s"
proof (induction s rule: readLines.induct)
  case (1 s)
  show ?case
  proof (cases "dropWhile (\<lambda>c. c \<noteq> LF) s")
    case Nil
    then show ?thesis by (simp add: readLines_Nil)
  next
    case (Cons nl rest)
    have "takeWhile (\<lambda>c. c \<noteq> LF) s @ dropWhile (\<lambda>c. c \<noteq> LF) s = s"
      by (rule takeWhile_dropWhile_id)
    then have s: "takeWhile (\<lambda>c. c \<noteq> LF) s @ nl # rest = s" unfolding Cons .
    have "concat (readLines rest) = rest" using "1.IH" [OF Cons] .
    then show ?thesis using s by (simp add: readLines_Cons [OF Cons])
  qed
qed

lemma ReadLine_Nil:
  assumes "dropWhile (\<lambda>c. c \<noteq> LF) (input r) = []"
  shows "ReadLine r = (input r, r\<lparr>input := [], LineNumber := LineNumber r + 1,
           Offset := Offset r + int (length (input r)), EOF := True\<rparr>)"
proof -
  have "takeWhile (\<lambda>c. c \<noteq> LF) (input r) @ dropWhile (\<lambda>c. c \<noteq> LF) (input r) = input r"
    by (rule takeWhile_dropWhile_id)
  then have t: "takeWhile (\<lambda>c. c \<noteq> LF) (input r) = input r" unfolding assms by simp
  show ?thesis unfolding ReadLine_def Let_def assms t by simp
qed

lemma ReadLine_Cons:
  assumes "dropWhile (\<lambda>c. c \<noteq> LF) (input r) = nl # rest"
  shows "ReadLine r = (takeWhile (\<lambda>c. c \<noteq> LF) (input r) @ [nl],
           r\<lparr>input := rest, LineNumber := LineNumber r + 1,
             Offset := Offset r + int (length (takeWhile (\<lambda>c. c \<noteq> LF) (input r))) + 1\<rparr>)"
  unfolding ReadLine_def Let_def assms by simp

lemma Contains_semicolon: "Contains b '';'' = (semicolon \<in> set b)"
  unfolding Contains_def by (induction b) (simp_all add: sublist_Cons_right)

lemma loop_eof:
  assumes "dropWhile (\<lambda>c. c \<noteq> LF) (input r) = []"
  shows "readAndParseChunk_loop Parse l conv r =
     (case Parse (concat l @ input r) of
        Some stmts \<Rightarrow> (Inr (concat l @ input r, stmts), conv, snd (ReadLine r))
      | None \<Rightarrow> (Inl (ParseError (Suc (length l))), conv\<lparr>Reparsed := Reparsed conv + 1\<rparr>,
                   snd (ReadLine r)))"
  by (subst readAndParseChunk_loop.simps) (simp add: ReadLine_Nil [OF assms] split: option.split)

lemma loop_line:
  assumes "dropWhile (\<lambda>c. c \<noteq> LF) (input r) = nl # rest" and "\<not> EOF r"
  shows "readAndParseChunk_loop Parse l conv r =
     (let b = takeWhile (\<lambda>c. c \<noteq> LF) (input r) @ [nl] in
      if Contains b '';'' then
        (case Parse (concat l @ b) of
           Some stmts \<Rightarrow> (Inr (concat l @ b, stmts), conv, snd (ReadLine r))
         | None \<Rightarrow> readAndParseChunk_loop Parse (l @ [b])
                     (conv\<lparr>Reparsed := Reparsed conv + 1\<rparr>) (snd (ReadLine r)))
      else readAndParseChunk_loop Parse (l @ [b]) conv (snd (ReadLine r)))"
  using assms(2)
  by (subst readAndParseChunk_loop.simps)
     (simp add: ReadLine_Cons [OF assms(1)] Let_def split: option.split)

lemma loop_result:
  "\<not> EOF r \<Longrightarrow>
   fst (readAndParseChunk_loop Parse l conv r) =
     (case dropWhile (failed Parse) (attempts (concat l) (readLines (input r))) of
        [] \<Rightarrow> Inl (ParseError (length l + length (readLines (input r))))
      | s # _ \<Rightarrow> Inr (s, the (Parse s)))"
proof (induction r arbitrary: l conv rule: measure_induct_rule [where f = "\<lambda>r. length (input r)"])
  case (less r)
  show ?case
  proof (cases "dropWhile (\<lambda>c. c \<noteq> LF) (input r)")
    case Nil
    show ?thesis
      by (simp add: loop_eof [OF Nil] readLines_Nil [OF Nil] failed_def split: option.split)
  next
    case (Cons nl rest)
    let ?b = "takeWhile (\<lambda>c. c \<noteq> LF) (input r) @ [nl]"
    let ?r1 = "snd (ReadLine r)"
    have r1: "input ?r1 = rest" "\<not> EOF ?r1"
      using less.prems by (simp_all add: ReadLine_Cons [OF Cons])
    have "length (dropWhile (\<lambda>c. c \<noteq> LF) (input r)) \<le> length (input r)"
      by (rule length_dropWhile_le)
    then have shorter: "length (input ?r1) < length (input r)"
      unfolding Cons r1 by simp
    have ne: "readLines rest \<noteq> []" by (rule readLines_not_Nil)
    have IH: "fst (readAndParseChunk_loop Parse (l @ [?b]) c ?r1) =
       (case dropWhile (failed Parse) (attempts (concat l @ ?b) (readLines rest)) of
          [] \<Rightarrow> Inl (ParseError (length l + Suc (length (readLines rest))))
        | s # _ \<Rightarrow> Inr (s, the (Parse s)))" for c
      using less.IH [OF shorter r1(2), of "l @ [?b]" c] r1(1) by (simp cong: list.case_cong)
    have rl: "readLines (input r) = ?b # readLines rest"
      by (rule readLines_Cons [OF Cons])
    show ?thesis
      unfolding rl loop_line [OF Cons less.prems] Let_def
      using ne by (simp add: IH failed_def split: option.split cong: list.case_cong)
  qed
qed

lemma loop_conv:
  "\<not> EOF r \<Longrightarrow>
   fst (snd (readAndParseChunk_loop Parse l conv r)) =
     conv\<lparr>Reparsed := Reparsed conv +
       of_nat (length (takeWhile (failed Parse) (attempts (concat l) (readLines (input r)))))\<rparr>"
proof (induction r arbitrary: l conv rule: measure_induct_rule [where f = "\<lambda>r. length (input r)"])
  case (less r)
  show ?case
  proof (cases "dropWhile (\<lambda>c. c \<noteq> LF) (input r)")
    case Nil
    show ?thesis
      by (simp add: loop_eof [OF Nil] readLines_Nil [OF Nil] failed_def split: option.split)
  next
    case (Cons nl rest)
    let ?b = "takeWhile (\<lambda>c. c \<noteq> LF) (input r) @ [nl]"
    let ?r1 = "snd (ReadLine r)"
    have r1: "input ?r1 = rest" "\<not> EOF ?r1"
      using less.prems by (simp_all add: ReadLine_Cons [OF Cons])
    have "length (dropWhile (\<lambda>c. c \<noteq> LF) (input r)) \<le> length (input r)"
      by (rule length_dropWhile_le)
    then have shorter: "length (input ?r1) < length (input r)"
      unfolding Cons r1 by simp
    have ne: "readLines rest \<noteq> []" by (rule readLines_not_Nil)
    have IH: "fst (snd (readAndParseChunk_loop Parse (l @ [?b]) c ?r1)) =
       c\<lparr>Reparsed := Reparsed c +
         of_nat (length (takeWhile (failed Parse) (attempts (concat l @ ?b) (readLines rest))))\<rparr>" for c
      using less.IH [OF shorter r1(2), of "l @ [?b]" c] r1(1) by simp
    have rl: "readLines (input r) = ?b # readLines rest"
      by (rule readLines_Cons [OF Cons])
    show ?thesis
      unfolding rl loop_line [OF Cons less.prems] Let_def
      using ne by (simp add: IH failed_def split: option.split)
  qed
qed

lemma loop_reader:
  "\<not> EOF r \<Longrightarrow>
   (EOF (snd (snd (readAndParseChunk_loop Parse l conv r))) \<longrightarrow>
      input (snd (snd (readAndParseChunk_loop Parse l conv r))) = []) \<and>
   (case fst (readAndParseChunk_loop Parse l conv r) of
      Inl e \<Rightarrow> EOF (snd (snd (readAndParseChunk_loop Parse l conv r)))
    | Inr (s, stmts) \<Rightarrow>
        concat l @ input r = s @ input (snd (snd (readAndParseChunk_loop Parse l conv r))))"
proof (induction r arbitrary: l conv rule: measure_induct_rule [where f = "\<lambda>r. length (input r)"])
  case (less r)
  show ?case
  proof (cases "dropWhile (\<lambda>c. c \<noteq> LF) (input r)")
    case Nil
    show ?thesis
      by (simp add: loop_eof [OF Nil] ReadLine_Nil [OF Nil] split: option.split)
  next
    case (Cons nl rest)
    let ?b = "takeWhile (\<lambda>c. c \<noteq> LF) (input r) @ [nl]"
    let ?r1 = "snd (ReadLine r)"
    have r1: "input ?r1 = rest" "\<not> EOF ?r1"
      using less.prems by (simp_all add: ReadLine_Cons [OF Cons])
    have "length (dropWhile (\<lambda>c. c \<noteq> LF) (input r)) \<le> length (input r)"
      by (rule length_dropWhile_le)
    then have shorter: "length (input ?r1) < length (input r)"
      unfolding Cons r1 by simp
    have "takeWhile (\<lambda>c. c \<noteq> LF) (input r) @ dropWhile (\<lambda>c. c \<noteq> LF) (input r) = input r"
      by (rule takeWhile_dropWhile_id)
    then have inp: "input r = ?b @ rest" unfolding Cons by simp
    note IH = less.IH [OF shorter r1(2), of "l @ [?b]", unfolded r1(1)]
    have c: "concat l @ input r = concat (l @ [?b]) @ rest"
      using inp by simp
    show ?thesis
      unfolding loop_line [OF Cons less.prems] Let_def c
      using IH r1 by (simp split: option.split)
  qed
qed

lemma attempts_last:
  "ls \<noteq> [] \<Longrightarrow> attempts acc ls \<noteq> [] \<and> last (attempts acc ls) = acc @ concat ls"
proof (induction ls arbitrary: acc)
  case Nil
  then show ?case by simp
next
  case (Cons b rest)
  show ?case
  proof (cases "rest = []")
    case True
    then show ?thesis by simp
  next
    case False
    from Cons.IH [OF False, of "acc @ b"] show ?thesis by simp
  qed
qed

lemma whole_input_attempted: "input r \<in> set (attempts [] (readLines (input r)))"
proof -
  have "attempts [] (readLines (input r)) \<noteq> [] \<and>
        last (attempts [] (readLines (input r))) = [] @ concat (readLines (input r))"
    by (rule attempts_last [OF readLines_not_Nil])
  then have "attempts [] (readLines (input r)) \<noteq> []"
    and "last (attempts [] (readLines (input r))) = input r"
    by (simp_all add: concat_readLines)
  then show ?thesis using last_in_set by metis
qed

text \<open>Claim C2. \<open>readAndParseChunk\<close> always returns. Called on a reader that has not
  reached the end of the stream, it returns an error if and only if it reaches the end of
  the stream and the accumulated buffer, which is then the whole remaining input, does
  not parse; equivalently, if and only if every parse attempt fails. A failed attempt
  before that is not fatal: the loop absorbs further lines, a successful result is the
  accumulated text that parsed, read off the front of the input, and the reparse counter
  grows by the number of attempts that failed before the first success (by all of them
  when none succeeds). Nothing else of the conversion state changes.\<close>

theorem readAndParseChunk_error_iff:
  assumes "\<not> EOF r" and "readAndParseChunk Parse conv r = (out, conv', r')"
  shows "(isl out \<longleftrightarrow> EOF r' \<and> Parse (input r) = None)
     \<and> (isl out \<longleftrightarrow> (\<forall>s \<in> set (attempts [] (readLines (input r))). Parse s = None))
     \<and> (\<forall>s stmts. out = Inr (s, stmts) \<longrightarrow> Parse s = Some stmts \<and> input r = s @ input r')
     \<and> conv' = conv\<lparr>Reparsed := Reparsed conv +
          of_nat (length (takeWhile (failed Parse) (attempts [] (readLines (input r)))))\<rparr>"
proof -
  let ?as = "attempts [] (readLines (input r))"
  have out: "out = (case dropWhile (failed Parse) ?as of
                      [] \<Rightarrow> Inl (ParseError (length (readLines (input r))))
                    | s # _ \<Rightarrow> Inr (s, the (Parse s)))"
    using loop_result [OF assms(1), of Parse "[]" conv] assms(2)
    by (simp add: readAndParseChunk_def cong: list.case_cong)
  have conv': "conv' = conv\<lparr>Reparsed := Reparsed conv +
          of_nat (length (takeWhile (failed Parse) ?as))\<rparr>"
    using loop_conv [OF assms(1), of Parse "[]" conv] assms(2)
    by (simp add: readAndParseChunk_def)
  have rd: "EOF r' \<longrightarrow> input r' = []"
    and rd2: "(case out of Inl e \<Rightarrow> EOF r' | Inr (s, stmts) \<Rightarrow> input r = s @ input r')"
    using loop_reader [OF assms(1), of Parse "[]" conv] assms(2)
    by (simp_all add: readAndParseChunk_def split: sum.splits prod.splits)
  have all: "isl out \<longleftrightarrow> (\<forall>s \<in> set ?as. Parse s = None)"
  proof (cases "dropWhile (failed Parse) ?as")
    case Nil
    have "isl out" unfolding out Nil by simp
    moreover have "\<forall>s \<in> set ?as. failed Parse s"
      using Nil by (simp only: dropWhile_eq_Nil_conv)
    ultimately show ?thesis by (simp add: failed_def)
  next
    case (Cons s ss)
    have "\<not> isl out" unfolding out Cons by simp
    moreover have "\<not> (\<forall>s \<in> set ?as. failed Parse s)"
    proof
      assume "\<forall>s \<in> set ?as. failed Parse s"
      then have "dropWhile (failed Parse) ?as = []"
        by (simp only: dropWhile_eq_Nil_conv)
      then show False unfolding Cons by simp
    qed
    ultimately show ?thesis by (simp add: failed_def)
  qed
  have ok: "Parse s = Some stmts \<and> input r = s @ input r'" if "out = Inr (s, stmts)" for s stmts
  proof (cases "dropWhile (failed Parse) ?as")
    case Nil
    have "isl out" unfolding out Nil by simp
    then show ?thesis using that by simp
  next
    case (Cons s' ss)
    have "hd (dropWhile (failed Parse) ?as) = s'" unfolding Cons by simp
    moreover have "dropWhile (failed Parse) ?as \<noteq> []" unfolding Cons by simp
    ultimately have "\<not> failed Parse s'"
      using hd_dropWhile [of "failed Parse" ?as] by simp
    then have "Parse s' \<noteq> None" by (simp add: failed_def)
    moreover have "out = Inr (s', the (Parse s'))" unfolding out Cons by simp
    then have "s = s'" "stmts = the (Parse s')"
      using that by simp_all
    ultimately show ?thesis using rd2 that by auto
  qed
  have eof: "isl out \<longleftrightarrow> EOF r' \<and> Parse (input r) = None"
  proof
    assume e: "isl out"
    then have "Parse (input r) = None"
      using all whole_input_attempted by blast
    moreover have "EOF r'" using e rd2 by (cases out) simp_all
    ultimately show "EOF r' \<and> Parse (input r) = None" by simp
  next
    assume a: "EOF r' \<and> Parse (input r) = None"
    show "isl out"
    proof (cases out)
      case (Inl e)
      then show ?thesis by simp
    next
      case (Inr p)
      obtain s stmts where p: "p = (s, stmts)" by (cases p)
      from ok [of s stmts] Inr p have "Parse s = Some stmts" "input r = s @ input r'"
        by simp_all
      with a rd show ?thesis by simp
    qed
  qed
  show ?thesis using eof all ok conv' by blast
qed

lemma exReader_run:
  "readAndParseChunk exParse MakeConv exReader =
     (Inr (''x;'' @ [LF] @ ''y;'' @ [LF], [1, 2]), MakeConv\<lparr>Reparsed := 1\<rparr>,
      \<lparr>input = ''z'', LineNumber = 2, Offset = 6, EOF = False\<rparr>)"
  by (simp add: readAndParseChunk_def readAndParseChunk_loop.simps ReadLine_def exReader_def
        NewReader_def exParse_def Contains_semicolon MakeConv_def)

theorem readAndParseChunk_error_iff_witness:
  "\<not> EOF exReader \<and>
   readAndParseChunk exParse MakeConv exReader =
     (Inr (''x;'' @ [LF] @ ''y;'' @ [LF], [1, 2]), MakeConv\<lparr>Reparsed := 1\<rparr>,
      \<lparr>input = ''z'', LineNumber = 2, Offset = 6, EOF = False\<rparr>) \<and>
   exParse (''x;'' @ [LF]) = None \<and>
   exParse (''x;'' @ [LF] @ ''y;'' @ [LF]) = Some [1, 2] \<and>
   input exReader = (''x;'' @ [LF] @ ''y;'' @ [LF]) @ ''z'' \<and>
   MakeConv\<lparr>Reparsed := 1\<rparr> = MakeConv\<lparr>Reparsed := Reparsed MakeConv +
     of_nat (length (takeWhile (failed exParse) (attempts [] (readLines (input exReader)))))\<rparr>"
proof -
  have e: "\<not> EOF exReader" by (simp add: exReader_def NewReader_def)
  have p: "exParse (''x;'' @ [LF]) = None" by (simp add: exParse_def)
  from readAndParseChunk_error_iff [OF e exReader_run] e p exReader_run
  show ?thesis by simp
qed

section \<open>Properties of the copy-block decoder\<close>

lemma splitFrom_Nil: "splitFrom cur [] sep = [cur]"
  by (subst splitFrom.simps) simp

lemma splitFrom_Cons:
  "splitFrom cur (c # s) [t] =
     (if c = t then cur # splitFrom [] s [t] else splitFrom (cur @ [c]) s [t])"
  by (subst splitFrom.simps) simp

lemma ReplaceAll_Nil: "ReplaceAll [] [backslash, backslash] [backslash] = []"
  by (subst ReplaceAll.simps) simp

lemma ReplaceAll_other:
  "c \<noteq> backslash \<Longrightarrow>
   ReplaceAll (c # s) [backslash, backslash] [backslash] =
     c # ReplaceAll s [backslash, backslash] [backslash]"
  by (subst ReplaceAll.simps) simp

lemma ReplaceAll_single:
  "ReplaceAll [c] [backslash, backslash] [backslash] = [c]"
  by (subst ReplaceAll.simps) (simp add: ReplaceAll_Nil)

lemma ReplaceAll_pair:
  "ReplaceAll (backslash # backslash # s) [backslash, backslash] [backslash] =
     backslash # ReplaceAll s [backslash, backslash] [backslash]"
  by (subst ReplaceAll.simps) simp

lemma ReplaceAll_lone:
  "c \<noteq> backslash \<Longrightarrow>
   ReplaceAll (backslash # c # s) [backslash, backslash] [backslash] =
     backslash # ReplaceAll (c # s) [backslash, backslash] [backslash]"
  by (subst ReplaceAll.simps) simp

lemma ReplaceAll_escape:
  "ReplaceAll (escapeBackslash v @ s) [backslash, backslash] [backslash] =
     v @ ReplaceAll s [backslash, backslash] [backslash]"
  by (induction v) (simp_all add: escapeBackslash_def ReplaceAll_pair ReplaceAll_other)

lemma ReplaceAll_no_backslash:
  "backslash \<notin> set s \<Longrightarrow> ReplaceAll s [backslash, backslash] [backslash] = s"
  by (induction s) (auto simp: ReplaceAll_Nil ReplaceAll_other)

lemma ReplaceAll_encodeRow:
  "backslash \<notin> set nl \<Longrightarrow>
   ReplaceAll (encodeRow vals nl) [backslash, backslash] [backslash] = Join vals [tab] @ nl"
proof (induction vals rule: induct_list012)
  case 1
  then show ?case by (simp add: encodeRow_def ReplaceAll_no_backslash)
next
  case (2 x)
  then show ?case by (simp add: encodeRow_def ReplaceAll_escape ReplaceAll_no_backslash)
next
  case (3 x y xs)
  then show ?case
    by (simp add: encodeRow_def ReplaceAll_escape ReplaceAll_other)
qed

lemma Trim_line:
  assumes "CR \<notin> set s" and "LF \<notin> set s" and "set nl \<subseteq> {CR, LF}"
  shows "Trim (s @ nl) [CR, LF] = s"
proof (cases s rule: rev_cases)
  case Nil
  have "\<forall>c \<in> set nl. c \<in> set [CR, LF]"
    using assms(3) by auto
  then have d: "dropWhile (\<lambda>c. c \<in> set [CR, LF]) nl = []"
    by (simp only: dropWhile_eq_Nil_conv)
  show ?thesis unfolding Trim_def Nil append_Nil d by simp
next
  case (snoc s' c)
  have front: "dropWhile (\<lambda>c. c \<in> set [CR, LF]) (s @ nl) = s @ nl"
  proof (cases s)
    case Nil
    then show ?thesis using snoc by simp
  next
    case (Cons a s2)
    then show ?thesis using assms(1,2) by auto
  qed
  have tail: "dropWhile (\<lambda>c. c \<in> set [CR, LF]) (rev nl @ rev s) = rev s"
  proof -
    have "dropWhile (\<lambda>c. c \<in> set [CR, LF]) (rev nl @ rev s) =
          dropWhile (\<lambda>c. c \<in> set [CR, LF]) (rev s)"
      by (rule dropWhile_append2) (use assms(3) in auto)
    also have "\<dots> = rev s" using snoc assms(1,2) by auto
    finally show ?thesis .
  qed
  show ?thesis unfolding Trim_def front rev_append tail by simp
qed

lemma splitFrom_no_tab:
  "tab \<notin> set v \<Longrightarrow> splitFrom cur (v @ s) [tab] = splitFrom (cur @ v) s [tab]"
  by (induction v arbitrary: cur) (auto simp: splitFrom_Cons)

lemma splitFrom_Join:
  "vals \<noteq> [] \<Longrightarrow> \<forall>v \<in> set vals. tab \<notin> set v \<Longrightarrow>
   splitFrom cur (Join vals [tab]) [tab] = (cur @ hd vals) # tl vals"
proof (induction vals arbitrary: cur rule: induct_list012)
  case 1
  then show ?case by simp
next
  case (2 x)
  then show ?case
    using splitFrom_no_tab [of x cur "[]"] by (simp add: splitFrom_Nil)
next
  case (3 x y xs)
  then show ?case
    using splitFrom_no_tab [of x cur "tab # Join (y # xs) [tab]"]
    by (simp add: splitFrom_Cons)
qed

lemma Split_Join:
  "vals \<noteq> [] \<Longrightarrow> \<forall>v \<in> set vals. tab \<notin> set v \<Longrightarrow> Split (Join vals [tab]) [tab] = vals"
  by (simp add: Split_def splitFrom_Join)

lemma set_Join: "set (Join vals sep) \<subseteq> \<Union> (set ` set vals) \<union> set sep"
  by (induction vals rule: induct_list012) auto

text \<open>Decoding an encoded row gives the row back.\<close>

lemma decode_encodeRow:
  assumes "vals \<noteq> []"
    and "\<forall>v \<in> set vals. tab \<notin> set v \<and> CR \<notin> set v \<and> LF \<notin> set v"
    and "nl = [LF] \<or> nl = [CR, LF]"
  shows "Split (Trim (ReplaceAll (encodeRow vals nl) [backslash, backslash] [backslash])
           [CR, LF]) [tab] = vals"
proof -
  have "backslash \<notin> set nl" using assms(3) by auto
  then have r: "ReplaceAll (encodeRow vals nl) [backslash, backslash] [backslash] =
      Join vals [tab] @ nl"
    by (rule ReplaceAll_encodeRow)
  have "CR \<notin> set (Join vals [tab])" "LF \<notin> set (Join vals [tab])"
    using set_Join [of vals "[tab]"] assms(2) by auto
  moreover have "set nl \<subseteq> {CR, LF}" using assms(3) by auto
  ultimately have t: "Trim (Join vals [tab] @ nl) [CR, LF] = Join vals [tab]"
    by (rule Trim_line)
  show ?thesis unfolding r t using assms(1,2) by (simp add: Split_Join)
qed

lemma ReadLine_line:
  assumes "input r = c @ LF # rest" and "LF \<notin> set c"
  shows "ReadLine r = (c @ [LF], r\<lparr>input := rest, LineNumber := LineNumber r + 1,
           Offset := Offset r + int (length c) + 1\<rparr>)"
proof -
  have t: "takeWhile (\<lambda>x. x \<noteq> LF) (c @ LF # rest) = c"
    using assms(2) by (induction c) auto
  have d: "dropWhile (\<lambda>x. x \<noteq> LF) (c @ LF # rest) = LF # rest"
    using assms(2) by (induction c) auto
  show ?thesis unfolding ReadLine_def Let_def assms(1) t d by simp
qed

lemma ReadLine_eof:
  assumes "LF \<notin> set (input r)"
  shows "ReadLine r = (input r, r\<lparr>input := [], LineNumber := LineNumber r + 1,
           Offset := Offset r + int (length (input r)), EOF := True\<rparr>)"
proof -
  have "\<forall>x \<in> set (input r). x \<noteq> LF" using assms by auto
  then have t: "takeWhile (\<lambda>x. x \<noteq> LF) (input r) = input r"
    and d: "dropWhile (\<lambda>x. x \<noteq> LF) (input r) = []"
    by (simp_all only: takeWhile_eq_all_conv dropWhile_eq_Nil_conv)
  show ?thesis unfolding ReadLine_def Let_def t d by simp
qed

lemma processCopyBlock_line:
  assumes "\<not> EOF r" and "input r = c @ LF # rest" and "LF \<notin> set c"
    and "\<not> endOfBlock (c @ [LF])"
  shows "processCopyBlock conv t cs r =
     processCopyBlock (copyBlockLine conv t cs (c @ [LF])) t cs
       (r\<lparr>input := rest, LineNumber := LineNumber r + 1,
          Offset := Offset r + int (length c) + 1\<rparr>)"
  using assms(1,4)
  by (subst processCopyBlock.simps)
     (simp add: ReadLine_line [OF assms(2,3)] copyBlockLine_def endOfBlock_def Let_def)

lemma processCopyBlock_end:
  assumes "input r = m @ rest" and "endOfBlock m"
  shows "processCopyBlock conv t cs r =
     (conv, r\<lparr>input := rest, LineNumber := LineNumber r + 1,
              Offset := Offset r + int (length m)\<rparr>)"
proof -
  obtain c where m: "m = c @ [LF]" and c: "LF \<notin> set c"
    using assms(2) by (auto simp: endOfBlock_def)
  have i: "input r = c @ LF # rest" using assms(1) m by simp
  show ?thesis
    using assms(2) m
    by (subst processCopyBlock.simps) (auto simp: ReadLine_line [OF i c] endOfBlock_def)
qed

lemma processCopyBlock_eof:
  assumes "LF \<notin> set (input r)"
  shows "processCopyBlock conv t cs r =
     (Unexpected ''Reached eof while parsing copy-block'' conv,
      r\<lparr>input := [], LineNumber := LineNumber r + 1,
        Offset := Offset r + int (length (input r)), EOF := True\<rparr>)"
  using assms
  by (subst processCopyBlock.simps) (auto simp: ReadLine_eof [OF assms])

lemma copyBlockLine_Rows:
  "Rows (copyBlockLine conv t cs b) = (Rows conv)(t := Rows conv t + 1)"
  by (simp add: copyBlockLine_def StatsAddRow_def ProcessDataRow_def Let_def)

lemma copyBlockLine_Unexpecteds: "Unexpecteds (copyBlockLine conv t cs b) = Unexpecteds conv"
  by (simp add: copyBlockLine_def StatsAddRow_def ProcessDataRow_def Let_def)

lemma copyBlockLine_mode: "mode (copyBlockLine conv t cs b) = mode conv"
  by (simp add: copyBlockLine_def StatsAddRow_def ProcessDataRow_def Let_def)

lemma copy_block_lines:
  assumes "\<not> EOF r" and "\<forall>b \<in> set ls. dataLine b" and "input r = concat ls @ rest"
  shows "\<exists>conv1 r1. processCopyBlock conv t cs r = processCopyBlock conv1 t cs r1
     \<and> Rows conv1 = (Rows conv)(t := Rows conv t + of_nat (length ls))
     \<and> Unexpecteds conv1 = Unexpecteds conv \<and> mode conv1 = mode conv
     \<and> input r1 = rest \<and> \<not> EOF r1"
  using assms
proof (induction ls arbitrary: conv r)
  case Nil
  then show ?case by auto
next
  case (Cons b ls)
  have b: "dataLine b" using Cons.prems(2) by simp
  then obtain c where bc: "b = c @ [LF]" and c: "LF \<notin> set c" and ne: "\<not> endOfBlock (c @ [LF])"
    unfolding dataLine_def by (metis append_butlast_last_id)
  let ?r1 = "r\<lparr>input := concat ls @ rest, LineNumber := LineNumber r + 1,
          Offset := Offset r + int (length c) + 1\<rparr>"
  let ?c1 = "copyBlockLine conv t cs (c @ [LF])"
  have i: "input r = c @ LF # (concat ls @ rest)"
    using Cons.prems(3) bc by simp
  have step: "processCopyBlock conv t cs r = processCopyBlock ?c1 t cs ?r1"
    by (rule processCopyBlock_line [OF Cons.prems(1) i c ne])
  have "\<not> EOF ?r1" "\<forall>b \<in> set ls. dataLine b" "input ?r1 = concat ls @ rest"
    using Cons.prems by simp_all
  from Cons.IH [OF this, of ?c1] obtain conv2 r2 where
    "processCopyBlock ?c1 t cs ?r1 = processCopyBlock conv2 t cs r2"
    "Rows conv2 = (Rows ?c1)(t := Rows ?c1 t + of_nat (length ls))"
    "Unexpecteds conv2 = Unexpecteds ?c1" "mode conv2 = mode ?c1"
    "input r2 = rest" "\<not> EOF r2"
    by blast
  then show ?case
    unfolding step
    by (intro exI [of _ conv2] exI [of _ r2])
       (simp add: copyBlockLine_Rows copyBlockLine_Unexpecteds copyBlockLine_mode fun_eq_iff)
qed

lemma splitFrom_not_Nil: "splitFrom cur s [tab] \<noteq> []"
  by (induction s arbitrary: cur) (simp_all add: splitFrom_Nil splitFrom_Cons)

lemma Join_splitFrom: "Join (splitFrom cur s [tab]) [tab] = cur @ s"
proof (induction s arbitrary: cur)
  case Nil
  then show ?case by (simp add: splitFrom_Nil)
next
  case (Cons c s)
  have ne: "splitFrom [] s [tab] \<noteq> []"
    by (rule splitFrom_not_Nil)
  show ?case
  proof (cases "c = tab")
    case True
    from ne obtain x xs where x: "splitFrom [] s [tab] = x # xs"
      by (cases "splitFrom [] s [tab]") auto
    have "Join (x # xs) [tab] = s" using Cons.IH [of "[]"] x by simp
    then show ?thesis using True x by (simp add: splitFrom_Cons)
  next
    case False
    then show ?thesis using Cons.IH [of "cur @ [c]"] by (simp add: splitFrom_Cons)
  qed
qed

lemma splitFrom_no_tabs:
  "tab \<notin> set cur \<Longrightarrow> v \<in> set (splitFrom cur s [tab]) \<Longrightarrow> tab \<notin> set v"
proof (induction s arbitrary: cur)
  case Nil
  then show ?case by (simp add: splitFrom_Nil)
next
  case (Cons c s)
  show ?case
  proof (cases "c = tab")
    case True
    then have "v = cur \<or> v \<in> set (splitFrom [] s [tab])"
      using Cons.prems(2) by (simp add: splitFrom_Cons)
    then show ?thesis using Cons.prems(1) Cons.IH [of "[]"] by auto
  next
    case False
    then have "v \<in> set (splitFrom (cur @ [c]) s [tab])"
      using Cons.prems(2) by (simp add: splitFrom_Cons)
    moreover have "tab \<notin> set (cur @ [c])" using False Cons.prems(1) by simp
    ultimately show ?thesis by (rule Cons.IH [rotated])
  qed
qed

lemma Trim_parts:
  "\<exists>lead trail. s = lead @ Trim s cutset @ trail \<and> set lead \<subseteq> set cutset
     \<and> set trail \<subseteq> set cutset"
proof -
  let ?P = "\<lambda>c. c \<in> set cutset"
  let ?u = "dropWhile ?P s"
  have 1: "s = takeWhile ?P s @ ?u" by simp
  have "?u = rev (dropWhile ?P (rev ?u)) @ rev (takeWhile ?P (rev ?u))"
    by (metis rev_append rev_rev_ident takeWhile_dropWhile_id)
  then have 2: "?u = Trim s cutset @ rev (takeWhile ?P (rev ?u))"
    unfolding Trim_def .
  have 3: "set (takeWhile ?P s) \<subseteq> set cutset"
    by (auto dest: set_takeWhileD)
  have 4: "set (rev (takeWhile ?P (rev ?u))) \<subseteq> set cutset"
    by (auto dest: set_takeWhileD)
  have "s = takeWhile ?P s @ Trim s cutset @ rev (takeWhile ?P (rev ?u))"
    using 1 2 by metis
  then show ?thesis using 3 4 by blast
qed

lemma Trim_ends:
  assumes "Trim s cutset \<noteq> []"
  shows "hd (Trim s cutset) \<notin> set cutset \<and> last (Trim s cutset) \<notin> set cutset"
proof -
  let ?P = "\<lambda>c. c \<in> set cutset"
  let ?u = "dropWhile ?P s"
  let ?w = "dropWhile ?P (rev ?u)"
  have w: "?w \<noteq> []" using assms by (simp add: Trim_def)
  have u: "?u \<noteq> []"
  proof
    assume "?u = []"
    then have "?w = []" by (simp only: rev.simps dropWhile.simps)
    with w show False by simp
  qed
  have "last (Trim s cutset) = hd ?w"
    using w by (simp add: Trim_def last_rev)
  moreover have "\<not> ?P (hd ?w)" using w by (rule hd_dropWhile)
  moreover have "hd (Trim s cutset) = last ?w"
    using w by (simp add: Trim_def hd_rev)
  moreover have "last ?w = last (rev ?u)"
  proof -
    have "rev ?u = takeWhile ?P (rev ?u) @ ?w" by simp
    then show ?thesis using w by (metis last_appendR)
  qed
  moreover have "last (rev ?u) = hd ?u" using u by (simp add: last_rev)
  moreover have "\<not> ?P (hd ?u)" using u by (rule hd_dropWhile)
  ultimately show ?thesis by simp
qed

text \<open>Claim C3, as the code has it. In data mode, for every data line of a copy block the
  decoder collapses the doubled backslashes, removes every leading and every trailing
  carriage return and line feed of the line (the line terminator, but also such
  characters at the start of the line or just before the terminator), and splits what is
  left on tabs: the values handed to the row converter, joined by tabs, are the collapsed
  line without its leading and trailing carriage returns and line feeds, and no value
  holds a tab. Spaces are never removed: a row whose values hold no tab, carriage return
  or line feed, written with its backslashes doubled and closed by either line
  terminator, is handed to the row converter as exactly those values.\<close>

theorem processCopyBlock_decodes_line:
  assumes "DataMode conv" and "\<not> EOF r" and "input r = c @ LF # rest" and "LF \<notin> set c"
    and "\<not> endOfBlock (c @ [LF])"
  shows "\<exists>vals lead trail r1.
      processCopyBlock conv t cs r =
        processCopyBlock (ProcessDataRow (StatsAddRow t (SchemaMode conv) conv) t cs vals) t cs r1
      \<and> input r1 = rest \<and> \<not> EOF r1
      \<and> ReplaceAll (c @ [LF]) [backslash, backslash] [backslash] = lead @ Join vals [tab] @ trail
      \<and> set lead \<subseteq> {CR, LF} \<and> set trail \<subseteq> {CR, LF}
      \<and> (Join vals [tab] = [] \<or>
           hd (Join vals [tab]) \<notin> {CR, LF} \<and> last (Join vals [tab]) \<notin> {CR, LF})
      \<and> vals \<noteq> [] \<and> (\<forall>v \<in> set vals. tab \<notin> set v)
      \<and> (\<forall>row nl. row \<noteq> [] \<and> (\<forall>v \<in> set row. tab \<notin> set v \<and> CR \<notin> set v \<and> LF \<notin> set v)
             \<and> (nl = [LF] \<or> nl = [CR, LF]) \<and> c @ [LF] = encodeRow row nl \<longrightarrow> vals = row)"
proof -
  let ?s = "ReplaceAll (c @ [LF]) [backslash, backslash] [backslash]"
  let ?vals = "Split (Trim ?s [CR, LF]) [tab]"
  let ?r1 = "r\<lparr>input := rest, LineNumber := LineNumber r + 1,
          Offset := Offset r + int (length c) + 1\<rparr>"
  have dm: "DataMode (StatsAddRow t (SchemaMode conv) conv)"
    using assms(1) by (simp add: DataMode_def StatsAddRow_def)
  have step: "processCopyBlock conv t cs r =
      processCopyBlock (ProcessDataRow (StatsAddRow t (SchemaMode conv) conv) t cs ?vals) t cs ?r1"
    unfolding processCopyBlock_line [OF assms(2,3,4,5)]
    using dm by (simp add: copyBlockLine_def Let_def)
  have j: "Join ?vals [tab] = Trim ?s [CR, LF]"
    by (simp add: Split_def Join_splitFrom)
  obtain lead trail where parts: "?s = lead @ Trim ?s [CR, LF] @ trail"
    "set lead \<subseteq> set [CR, LF]" "set trail \<subseteq> set [CR, LF]"
    using Trim_parts [of ?s "[CR, LF]"] by blast
  have ends: "Join ?vals [tab] = [] \<or>
      hd (Join ?vals [tab]) \<notin> {CR, LF} \<and> last (Join ?vals [tab]) \<notin> {CR, LF}"
    unfolding j using Trim_ends [of ?s "[CR, LF]"] by auto
  have ne: "?vals \<noteq> []" by (simp add: Split_def splitFrom_not_Nil)
  have nt: "\<forall>v \<in> set ?vals. tab \<notin> set v"
    using splitFrom_no_tabs [of "[]"] by (auto simp: Split_def)
  have rt: "?vals = row"
    if "row \<noteq> [] \<and> (\<forall>v \<in> set row. tab \<notin> set v \<and> CR \<notin> set v \<and> LF \<notin> set v)
         \<and> (nl = [LF] \<or> nl = [CR, LF]) \<and> c @ [LF] = encodeRow row nl" for row nl
    using that decode_encodeRow [of row nl] by simp
  have p: "?s = lead @ Join ?vals [tab] @ trail" using parts(1) j by simp
  show ?thesis
    apply (rule exI [of _ ?vals], rule exI [of _ lead], rule exI [of _ trail],
           rule exI [of _ ?r1])
    using step p parts(2,3) ends ne nt rt assms(2) by simp
qed

theorem processCopyBlock_decodes_line_witness:
  "DataMode exDataConv \<and> \<not> EOF exBlockReader
   \<and> input exBlockReader = exRowLine @ LF # (''7'' @ [LF] @ [backslash, CHR ''.'', LF] @ ''rest'')
   \<and> LF \<notin> set exRowLine \<and> \<not> endOfBlock (exRowLine @ [LF])
   \<and> exRowLine @ [LF] = encodeRow exRow [LF]
   \<and> (\<exists>r1. processCopyBlock exDataConv ''t'' [''x'', ''y'', ''z''] exBlockReader =
         processCopyBlock
           (ProcessDataRow (StatsAddRow ''t'' (SchemaMode exDataConv) exDataConv) ''t''
              [''x'', ''y'', ''z''] exRow)
           ''t'' [''x'', ''y'', ''z''] r1
        \<and> input r1 = ''7'' @ [LF] @ [backslash, CHR ''.'', LF] @ ''rest'')"
proof -
  have 1: "DataMode exDataConv" by (simp add: exDataConv_def DataMode_def)
  have 2: "\<not> EOF exBlockReader" by (simp add: exBlockReader_def NewReader_def)
  have 3: "input exBlockReader =
      exRowLine @ LF # (''7'' @ [LF] @ [backslash, CHR ''.'', LF] @ ''rest'')"
    by (simp add: exBlockReader_def NewReader_def)
  have 4: "LF \<notin> set exRowLine" by (simp add: exRowLine_def)
  have 5: "\<not> endOfBlock (exRowLine @ [LF])" by (simp add: exRowLine_def endOfBlock_def)
  have 6: "exRowLine @ [LF] = encodeRow exRow [LF]"
    by (simp add: exRowLine_def exRow_def encodeRow_def escapeBackslash_def)
  have 7: "exRow \<noteq> [] \<and> (\<forall>v \<in> set exRow. tab \<notin> set v \<and> CR \<notin> set v \<and> LF \<notin> set v)"
    by (simp add: exRow_def)
  from processCopyBlock_decodes_line [OF 1 2 3 4 5, of "''t''" "[''x'', ''y'', ''z'']"]
  obtain vals r1 where
    a: "processCopyBlock exDataConv ''t'' [''x'', ''y'', ''z''] exBlockReader =
        processCopyBlock
          (ProcessDataRow (StatsAddRow ''t'' (SchemaMode exDataConv) exDataConv) ''t''
             [''x'', ''y'', ''z''] vals)
          ''t'' [''x'', ''y'', ''z''] r1"
    and b: "input r1 = ''7'' @ [LF] @ [backslash, CHR ''.'', LF] @ ''rest''"
    and c: "\<forall>row nl. row \<noteq> [] \<and> (\<forall>v \<in> set row. tab \<notin> set v \<and> CR \<notin> set v \<and> LF \<notin> set v)
             \<and> (nl = [LF] \<or> nl = [CR, LF]) \<and> exRowLine @ [LF] = encodeRow row nl \<longrightarrow> vals = row"
    by blast
  have "vals = exRow" using c 6 7 by blast
  with a b 1 2 3 4 5 6 show ?thesis by blast
qed

text \<open>The claim as written has the decoder remove only the line terminator. For the line
  made of a carriage return, the letter x and a line feed the converter receives the
  value \<open>''x''\<close>, while removing the terminator alone would leave the carriage return in
  the value.\<close>

theorem processCopyBlock_trim_counterexample:
  "dataRows (fst (processCopyBlock exDataConv ''t'' [''a'']
      (NewReader ([CR, CHR ''x'', LF] @ [backslash, CHR ''.'', LF])))) = [(''t'', [''a''], [''x''])]
   \<and> decodeAsClaimed [CR, CHR ''x'', LF] = [[CR, CHR ''x'']]"
  by (simp add: processCopyBlock.simps ReadLine_def NewReader_def exDataConv_def MakeConv_def
        StatsAddRow_def SchemaMode_def DataMode_def ProcessDataRow_def Split_def Trim_def
        ReplaceAll.simps splitFrom.simps decodeAsClaimed_def trimLineTerminator_def
        suffix_to_prefix)

text \<open>Claim C5. Every line of a copy block read before the end-of-block marker adds one to
  the row counter of the destination table, whatever the mode (the statement makes no
  assumption on it). A line equal to the marker followed by a line feed, or by a carriage
  return and a line feed, ends the block: the reader is left just after it and nothing is
  logged. When the stream ends inside the block, the lines read before are counted, one
  diagnostic is logged and the function returns, with the end-of-stream flag raised.\<close>

theorem processCopyBlock_counts_rows:
  assumes "\<not> EOF r" and "\<forall>b \<in> set ls. dataLine b"
    and "processCopyBlock conv t cs r = (conv', r')"
  shows "(\<forall>m rest. input r = concat ls @ m @ rest \<and> endOfBlock m \<longrightarrow>
            Rows conv' = (Rows conv)(t := Rows conv t + of_nat (length ls))
            \<and> Unexpecteds conv' = Unexpecteds conv \<and> input r' = rest \<and> \<not> EOF r')
     \<and> (\<forall>rest. input r = concat ls @ rest \<and> LF \<notin> set rest \<longrightarrow>
            Rows conv' = (Rows conv)(t := Rows conv t + of_nat (length ls))
            \<and> Unexpecteds conv' = Unexpecteds conv @ [''Reached eof while parsing copy-block'']
            \<and> input r' = [] \<and> EOF r')"
proof (intro conjI allI impI)
  fix m rest
  assume a: "input r = concat ls @ m @ rest \<and> endOfBlock m"
  from copy_block_lines [OF assms(1,2), of "m @ rest" conv t cs] a obtain conv1 r1 where
    s: "processCopyBlock conv t cs r = processCopyBlock conv1 t cs r1"
    and c: "Rows conv1 = (Rows conv)(t := Rows conv t + of_nat (length ls))"
       "Unexpecteds conv1 = Unexpecteds conv" "input r1 = m @ rest" "\<not> EOF r1"
    by blast
  have "processCopyBlock conv1 t cs r1 =
      (conv1, r1\<lparr>input := rest, LineNumber := LineNumber r1 + 1,
                 Offset := Offset r1 + int (length m)\<rparr>)"
    using c(3) a by (intro processCopyBlock_end) simp_all
  then have e: "conv' = conv1"
    "r' = r1\<lparr>input := rest, LineNumber := LineNumber r1 + 1, Offset := Offset r1 + int (length m)\<rparr>"
    using s assms(3) by simp_all
  show "Rows conv' = (Rows conv)(t := Rows conv t + of_nat (length ls))" using e c by simp
  show "Unexpecteds conv' = Unexpecteds conv" using e c by simp
  show "input r' = rest" using e by simp
  show "\<not> EOF r'" using e c by simp
next
  fix rest
  assume a: "input r = concat ls @ rest \<and> LF \<notin> set rest"
  from copy_block_lines [OF assms(1,2), of rest conv t cs] a obtain conv1 r1 where
    s: "processCopyBlock conv t cs r = processCopyBlock conv1 t cs r1"
    and c: "Rows conv1 = (Rows conv)(t := Rows conv t + of_nat (length ls))"
       "Unexpecteds conv1 = Unexpecteds conv" "input r1 = rest" "\<not> EOF r1"
    by blast
  have "LF \<notin> set (input r1)" using c(3) a by simp
  then have "processCopyBlock conv1 t cs r1 =
     (Unexpected ''Reached eof while parsing copy-block'' conv1,
      r1\<lparr>input := [], LineNumber := LineNumber r1 + 1,
         Offset := Offset r1 + int (length (input r1)), EOF := True\<rparr>)"
    by (rule processCopyBlock_eof)
  then have e: "conv' = Unexpected ''Reached eof while parsing copy-block'' conv1"
    "r' = r1\<lparr>input := [], LineNumber := LineNumber r1 + 1,
         Offset := Offset r1 + int (length (input r1)), EOF := True\<rparr>"
    using s assms(3) by simp_all
  show "Rows conv' = (Rows conv)(t := Rows conv t + of_nat (length ls))"
    using e c by (simp add: Unexpected_def)
  show "Unexpecteds conv' = Unexpecteds conv @ [''Reached eof while parsing copy-block'']"
    using e c by (simp add: Unexpected_def)
  show "input r' = []" using e by simp
  show "EOF r'" using e by simp
qed

theorem processCopyBlock_counts_rows_witness:
  "\<not> EOF exBlockReader \<and> dataLine (exRowLine @ [LF]) \<and> dataLine (''7'' @ [LF])
   \<and> endOfBlock [backslash, CHR ''.'', LF]
   \<and> input exBlockReader =
       concat [exRowLine @ [LF], ''7'' @ [LF]] @ [backslash, CHR ''.'', LF] @ ''rest''
   \<and> SchemaMode MakeConv
   \<and> Rows (fst (processCopyBlock MakeConv ''t'' [] exBlockReader)) ''t'' = 2
   \<and> Unexpecteds (fst (processCopyBlock MakeConv ''t'' [] exBlockReader)) = []
   \<and> input (snd (processCopyBlock MakeConv ''t'' [] exBlockReader)) = ''rest''
   \<and> DataMode exDataConv
   \<and> Rows (fst (processCopyBlock exDataConv ''t'' [] exBlockReader)) ''t'' = 2
   \<and> \<not> EOF exTruncReader \<and> input exTruncReader = concat [''7'' @ [LF]] @ ''8''
   \<and> Rows (fst (processCopyBlock exDataConv ''t'' [] exTruncReader)) ''t'' = 1
   \<and> Unexpecteds (fst (processCopyBlock exDataConv ''t'' [] exTruncReader)) =
       [''Reached eof while parsing copy-block'']
   \<and> EOF (snd (processCopyBlock exDataConv ''t'' [] exTruncReader))"
proof -
  have 1: "\<not> EOF exBlockReader" by (simp add: exBlockReader_def NewReader_def)
  have 2: "dataLine (exRowLine @ [LF])" "dataLine (''7'' @ [LF])"
    by (simp_all add: dataLine_def endOfBlock_def exRowLine_def)
  then have 3: "\<forall>b \<in> set [exRowLine @ [LF], ''7'' @ [LF]]. dataLine b" by simp
  have 4: "endOfBlock [backslash, CHR ''.'', LF]" by (simp add: endOfBlock_def)
  have 5: "input exBlockReader =
      concat [exRowLine @ [LF], ''7'' @ [LF]] @ [backslash, CHR ''.'', LF] @ ''rest''"
    by (simp add: exBlockReader_def NewReader_def)
  have 6: "SchemaMode MakeConv" "DataMode exDataConv"
    by (simp_all add: SchemaMode_def DataMode_def MakeConv_def exDataConv_def)
  have 7: "\<not> EOF exTruncReader" "input exTruncReader = concat [''7'' @ [LF]] @ ''8''"
    "LF \<notin> set ''8''" "\<forall>b \<in> set [''7'' @ [LF]]. dataLine b"
    by (simp_all add: exTruncReader_def NewReader_def dataLine_def endOfBlock_def)
  have z: "Rows MakeConv ''t'' = 0" "Unexpecteds MakeConv = []"
    "Rows exDataConv ''t'' = 0" "Unexpecteds exDataConv = []"
    by (simp_all add: MakeConv_def exDataConv_def)
  note a = processCopyBlock_counts_rows [OF 1 3 prod.collapse [symmetric],
      of MakeConv "''t''" "[]", THEN conjunct1, rule_format, OF conjI [OF 5 4]]
  note b = processCopyBlock_counts_rows [OF 1 3 prod.collapse [symmetric],
      of exDataConv "''t''" "[]", THEN conjunct1, rule_format, OF conjI [OF 5 4]]
  note c = processCopyBlock_counts_rows [OF 7(1) 7(4) prod.collapse [symmetric],
      of exDataConv "''t''" "[]", THEN conjunct2, rule_format, OF conjI [OF 7(2) 7(3)]]
  show ?thesis
    using a b c 1 2 4 5 6 7(1,2) z by simp
qed

lemma processCopyBlock_schema_mode:
  "\<not> DataMode conv \<Longrightarrow>
   dataRows (fst (processCopyBlock conv t cs r)) = dataRows conv
   \<and> mode (fst (processCopyBlock conv t cs r)) = mode conv"
proof (induction conv t cs r rule: processCopyBlock.induct)
  case (1 conv srcTable srcCols r)
  obtain b r1 where rl: "ReadLine r = (b, r1)" by (cases "ReadLine r")
  let ?conv1 = "StatsAddRow srcTable (SchemaMode conv) conv"
  have nd: "\<not> DataMode ?conv1" using "1.prems" by (simp add: DataMode_def StatsAddRow_def)
  show ?case
  proof (cases "b = [backslash, CHR ''.'', LF] \<or> b = [backslash, CHR ''.'', CR, LF] \<or> EOF r1")
    case True
    then show ?thesis
      by (subst (1 2) processCopyBlock.simps) (auto simp: rl Unexpected_def)
  next
    case False
    then have ih: "dataRows (fst (processCopyBlock ?conv1 srcTable srcCols r1)) = dataRows ?conv1
        \<and> mode (fst (processCopyBlock ?conv1 srcTable srcCols r1)) = mode ?conv1"
      using "1.IH"(1) [OF rl [symmetric] _ _ refl nd nd] by simp
    have "processCopyBlock conv srcTable srcCols r = processCopyBlock ?conv1 srcTable srcCols r1"
      using False nd by (subst processCopyBlock.simps) (simp add: rl Let_def)
    then show ?thesis using ih by (simp add: StatsAddRow_def)
  qed
qed

section \<open>Properties of the statement processor\<close>

lemma keeps_refl: "keeps c c"
  by (simp add: keeps_def)

lemma keeps_trans: "keeps a b \<Longrightarrow> keeps b c \<Longrightarrow> keeps a c"
  by (simp add: keeps_def)

lemma keeps_log:
  "keeps c c' \<Longrightarrow> keeps c (Unexpected u c')"
  "keeps c c' \<Longrightarrow> keeps c (SkipStatement s c')"
  "keeps c c' \<Longrightarrow> keeps c (ErrorInStatement s c')"
  "keeps c c' \<Longrightarrow> keeps c (SchemaStatement s c')"
  "keeps c c' \<Longrightarrow> keeps c (DataStatement s c')"
  "keeps c c' \<Longrightarrow> keeps c (StatsAddRow t b c')"
  "keeps c c' \<Longrightarrow> keeps c (StatsAddBadRow t b c')"
  "keeps c c' \<Longrightarrow> keeps c (SetLocation l c')"
  "keeps c c' \<Longrightarrow> keeps c (logStmtError c' n e)"
  "keeps c c' \<Longrightarrow> keeps c (c'\<lparr>SrcSchema := m\<rparr>)"
  "keeps c c' \<Longrightarrow> keeps c (c'\<lparr>Reparsed := k\<rparr>)"
  by (simp_all add: keeps_def Unexpected_def SkipStatement_def ErrorInStatement_def
        SchemaStatement_def DataStatement_def StatsAddRow_def StatsAddBadRow_def
        SetLocation_def logStmtError_def)

lemma keeps_getTypeMods: "keeps c conv \<Longrightarrow> keeps c (fst (getTypeMods conv l))"
  by (induction conv l rule: getTypeMods.induct)
     (auto simp: keeps_log split: Node.splits prod.splits)

lemma keeps_getArrayBounds: "keeps c conv \<Longrightarrow> keeps c (fst (getArrayBounds conv l))"
  by (induction conv l rule: getArrayBounds.induct)
     (auto simp: keeps_log split: Node.splits prod.splits)

lemma keeps_constraintKeys: "keeps c conv \<Longrightarrow> keeps c (fst (constraintKeys conv tag l))"
  by (induction conv tag l rule: constraintKeys.induct)
     (auto simp: keeps_log split: sum.splits prod.splits)

lemma keeps_toIndexKeys: "keeps c conv \<Longrightarrow> keeps c (fst (toIndexKeys conv idx l))"
  by (induction conv idx l rule: toIndexKeys.induct)
     (auto simp: keeps_log split: Node.splits prod.splits)

lemma keeps_getRowValues: "keeps c conv \<Longrightarrow> keeps c (fst (getRowValues conv l))"
  by (induction conv l rule: getRowValues.induct)
     (auto simp: keeps_log split: Node.splits prod.splits)

lemma keeps_getRows: "keeps c conv \<Longrightarrow> keeps c (fst (getRows conv l))"
proof (induction l arbitrary: conv)
  case Nil
  then show ?case by simp
next
  case (Cons vl vll)
  define inner where "inner = (case vl of
              Node_List items \<Rightarrow> getRowValues conv items
            | _ \<Rightarrow>
                (Unexpected (''Processing InsertStmt statement: found '' @ printNodeType vl
                   @ '' in ValuesList'') conv, []))"
  have "keeps c (fst inner)"
    unfolding inner_def using Cons.prems
    by (cases vl) (simp_all add: keeps_log keeps_getRowValues)
  then have "keeps c (fst (getRows (fst inner) vll))" by (rule Cons.IH)
  moreover have "fst (getRows conv (vl # vll)) = fst (getRows (fst inner) vll)"
    unfolding inner_def by (simp split: prod.splits)
  ultimately show ?case by simp
qed

lemma keeps_copyAttlist: "keeps c conv \<Longrightarrow> keeps c (fst (copyAttlist conv l))"
  by (induction conv l rule: copyAttlist.induct)
     (auto simp: keeps_log split: sum.splits prod.splits)

lemma keeps_setConstraintCols: "keeps c conv \<Longrightarrow> keeps c (fst (setConstraintCols conv p l))"
  by (induction conv p l rule: setConstraintCols.induct)
     (auto simp: keeps_log split: prod.splits)


lemma keeps_extractConstraints:
  "extractConstraints conv st l = Inr (conv', cs) \<Longrightarrow> keeps c conv \<Longrightarrow> keeps c conv'"
proof (induction l arbitrary: conv conv' cs)
  case Nil
  then show ?case by simp
next
  case (Cons i l)
  show ?case
  proof (cases i)
    case (Node_Constraint contype conname keys fkAttrs pkAttrs pktable)
    show ?thesis
    proof (cases "contype = CONSTR_FOREIGN")
      case True
      show ?thesis
      proof (cases pktable)
        case None
        then show ?thesis using Cons.prems(1) Node_Constraint True by simp
      next
        case (Some rv)
        show ?thesis
        proof (cases "getTableName rv")
          case (Inl err)
          then have "extractConstraints
                (ErrorInStatement ''Constraint''
                   (Unexpected (''Processing Constraint statement: error processing constraints: ''
                      @ err) conv)) st l = Inr (conv', cs)"
            using Cons.prems(1) Node_Constraint True Some by simp
          then show ?thesis by (rule Cons.IH) (simp add: keeps_log Cons.prems(2))
        next
          case (Inr t)
          obtain conv1 ks where k1: "constraintKeys conv ''Constraint'' fkAttrs = (conv1, ks)"
            by (cases "constraintKeys conv ''Constraint'' fkAttrs")
          obtain conv2 rs where k2: "constraintKeys conv1 ''Constraint'' pkAttrs = (conv2, rs)"
            by (cases "constraintKeys conv1 ''Constraint'' pkAttrs")
          have "keeps c conv1" using keeps_constraintKeys [OF Cons.prems(2)] k1
            by (metis fst_conv)
          then have "keeps c conv2" using keeps_constraintKeys k2 by (metis fst_conv)
          moreover obtain rest where "extractConstraints conv2 st l = Inr (conv', rest)"
            using Cons.prems(1) Node_Constraint True Some Inr k1 k2
            by (auto split: sum.splits)
          ultimately show ?thesis using Cons.IH by blast
        qed
      qed
    next
      case False
      obtain conv1 ks where k1: "constraintKeys conv ''Node.Constraint'' keys = (conv1, ks)"
        by (cases "constraintKeys conv ''Node.Constraint'' keys")
      have "keeps c conv1" using keeps_constraintKeys [OF Cons.prems(2)] k1
        by (metis fst_conv)
      moreover obtain rest where "extractConstraints conv1 st l = Inr (conv', rest)"
        using Cons.prems(1) Node_Constraint False k1
        by (cases contype) (auto split: sum.splits)
      ultimately show ?thesis using Cons.IH by blast
    qed
  qed (use Cons in \<open>auto simp: keeps_log\<close>)
qed

lemma keeps_analyzeColDefConstraints:
  "analyzeColDefConstraints conv st l p = Inr (conv', cs) \<Longrightarrow> keeps c conv \<Longrightarrow> keeps c conv'"
  unfolding analyzeColDefConstraints_def
  using keeps_extractConstraints keeps_setConstraintCols
  by (auto split: sum.splits prod.splits) (metis fst_conv)

lemma keeps_updateSchema1:
  "updateSchema1 conv t k st = Inr conv' \<Longrightarrow> keeps c conv \<Longrightarrow> keeps c conv'"
  unfolding updateSchema1_def checkEmpty_def Let_def
  by (cases "ct k") (auto simp: keeps_log split: sum.splits if_splits)

lemma keeps_updateSchema:
  "updateSchema conv t ks st = Inr conv' \<Longrightarrow> keeps c conv \<Longrightarrow> keeps c conv'"
proof (induction ks arbitrary: conv)
  case Nil
  then show ?case by simp
next
  case (Cons k ks)
  then show ?case
    by (auto split: sum.splits dest: keeps_updateSchema1)
qed


lemma keeps_processColumn:
  assumes "processColumn conv cn tn tm ab co = Inr (conv', res)" and "keeps c conv"
  shows "keeps c conv'"
proof -
  obtain conv1 mods where m: "getTypeMods conv tm = (conv1, mods)"
    by (cases "getTypeMods conv tm")
  have k1: "keeps c conv1" using keeps_getTypeMods [OF assms(2), of tm] m by simp
  show ?thesis
  proof (cases "cn = [] \<or> isl (getTypeID tn)")
    case True
    then have "conv' = conv1"
      using assms(1) m by (auto simp: processColumn_def split: sum.splits if_splits)
    then show ?thesis using k1 by simp
  next
    case False
    then obtain tid where tid: "getTypeID tn = Inr tid" and cn: "cn \<noteq> []"
      by (cases "getTypeID tn") auto
    obtain conv2 bounds where b: "getArrayBounds conv1 ab = (conv2, bounds)"
      by (cases "getArrayBounds conv1 ab")
    have k2: "keeps c conv2" using keeps_getArrayBounds [OF k1, of ab] b by simp
    obtain cs where "analyzeColDefConstraints conv2 ''ColumnDef'' co cn = Inr (conv', cs)"
      using assms(1) m tid cn b
      by (auto simp: processColumn_def split: sum.splits)
    then show ?thesis using k2 by (rule keeps_analyzeColDefConstraints)
  qed
qed

lemma keeps_createTableElts:
  "createTableElts conv ns d ks tes = Inr (conv', res) \<Longrightarrow> keeps c conv \<Longrightarrow> keeps c conv'"
proof (induction tes arbitrary: conv ns d ks)
  case Nil
  then show ?case by simp
next
  case (Cons te tes)
  show ?case
  proof (cases te)
    case (Node_ColumnDef cn tn tm ab co)
    obtain conv1 r1 where pc: "processColumn conv cn tn tm ab co = Inr (conv1, r1)"
      using Cons.prems(1) Node_ColumnDef
      by (cases "processColumn conv cn tn tm ab co") auto
    have k1: "keeps c conv1" using pc Cons.prems(2) by (rule keeps_processColumn)
    show ?thesis
    proof (cases r1)
      case (Inl err)
      then have "conv' = conv1" using Cons.prems(1) Node_ColumnDef pc by simp
      then show ?thesis using k1 by simp
    next
      case (Inr tr)
      obtain nm col cc where tr: "tr = (nm, col, cc)" by (cases tr)
      have "createTableElts conv1 (ns @ [nm]) (d(nm \<mapsto> col)) (ks @ cc) tes = Inr (conv', res)"
        using Cons.prems(1) Node_ColumnDef pc Inr tr by simp
      then show ?thesis using k1 by (rule Cons.IH)
    qed
  next
    case (Node_Constraint contype conname keys fkAttrs pkAttrs pktable)
    obtain conv1 cs where ec: "extractConstraints conv ''CreateStmt'' [te] = Inr (conv1, cs)"
      using Cons.prems(1) Node_Constraint
      by (cases "extractConstraints conv ''CreateStmt'' [te]") auto
    have k1: "keeps c conv1" using ec Cons.prems(2) by (rule keeps_extractConstraints)
    have "createTableElts conv1 ns d (ks @ cs) tes = Inr (conv', res)"
      using Cons.prems(1) ec unfolding Node_Constraint by simp
    then show ?thesis using k1 by (rule Cons.IH)
  qed (use Cons in \<open>auto simp: keeps_log\<close>)
qed

lemma keeps_processCreateStmt:
  assumes "processCreateStmt conv n = Inr conv'" and "keeps c conv"
  shows "keeps c conv'"
proof (cases "cr_Relation n")
  case None
  then show ?thesis using assms by (auto simp: processCreateStmt_def keeps_log)
next
  case (Some rv)
  show ?thesis
  proof (cases "getTableName rv")
    case (Inl err)
    then show ?thesis using assms Some by (auto simp: processCreateStmt_def keeps_log)
  next
    case (Inr tbl)
    show ?thesis
    proof (cases "length (cr_InhRelations n) > 0")
      case True
      then show ?thesis using assms Some Inr by (auto simp: processCreateStmt_def keeps_log)
    next
      case False
      obtain conv1 res where ce:
        "createTableElts conv [] Map.empty [] (cr_TableElts n) = Inr (conv1, res)"
        using assms(1) Some Inr False
        by (cases "createTableElts conv [] Map.empty [] (cr_TableElts n)")
           (auto simp: processCreateStmt_def)
      have k1: "keeps c conv1" using ce assms(2) by (rule keeps_createTableElts)
      show ?thesis
      proof (cases res)
        case (Inl err)
        then show ?thesis
          using assms(1) Some Inr False ce k1 by (auto simp: processCreateStmt_def keeps_log)
      next
        case r: (Inr tr)
        obtain colNames colDef constraints where tr: "tr = (colNames, colDef, constraints)"
          by (cases tr)
        let ?conv2 = "SchemaStatement ''CreateStmt'' conv1"
        let ?conv3 = "?conv2\<lparr>SrcSchema := (SrcSchema ?conv2)(tbl \<mapsto>
                                     \<lparr>TblName = tbl, ColNames = colNames,
                                      ColDefs = Some colDef, PrimaryKeys = [],
                                      ForeignKeys = [], Indexes = []\<rparr>)\<rparr>"
        have "updateSchema ?conv3 tbl constraints ''CREATE TABLE'' = Inr conv'"
          using assms(1) Some Inr False ce r tr by (simp add: processCreateStmt_def Let_def)
        moreover have "keeps c ?conv3" using k1 by (simp add: keeps_log)
        ultimately show ?thesis by (rule keeps_updateSchema)
      qed
    qed
  qed
qed

lemma keeps_alterTableCmd:
  assumes "alterTableCmd conv tbl i = Inr conv'" and "keeps c conv"
  shows "keeps c conv'"
proof (cases i)
  case (Node_AlterTableCmd sub nm df)
  consider (notnull) "sub = AT_SetNotNull \<and> nm \<noteq> []"
    | (addc) "\<not> (sub = AT_SetNotNull \<and> nm \<noteq> [])" "sub = AT_AddConstraint \<and> df \<noteq> None"
    | (other) "\<not> (sub = AT_SetNotNull \<and> nm \<noteq> [])" "\<not> (sub = AT_AddConstraint \<and> df \<noteq> None)"
    by blast
  then show ?thesis
  proof cases
    case notnull
    then obtain conv1 where
      u: "updateSchema conv tbl [\<lparr>ct = CONSTR_NOTNULL, cols = [nm], name = [], referCols = [],
                      referTable = []\<rparr>] ''ALTER TABLE'' = Inr conv1"
      and c: "conv' = SchemaStatement ''AlterTableStmt.AlterTableCmd'' conv1"
      using assms(1) Node_AlterTableCmd
      by (auto simp: alterTableCmd_def split: sum.splits)
    have "keeps c conv1" using u assms(2) by (rule keeps_updateSchema)
    then show ?thesis using c by (simp add: keeps_log)
  next
    case addc
    then obtain d where d: "df = Some d" by auto
    show ?thesis
    proof (cases d)
      case (Node_Constraint contype conname keys fkAttrs pkAttrs pktable)
      obtain conv1 cs conv2 where
        e: "extractConstraints conv ''AlterTableStmt'' [d] = Inr (conv1, cs)"
        and u: "updateSchema conv1 tbl cs ''ALTER TABLE'' = Inr conv2"
        and c: "conv' = SchemaStatement ''AlterTableStmt.AlterTableCmd.Constraint'' conv2"
        using assms(1) Node_AlterTableCmd addc d Node_Constraint
        by (auto simp: alterTableCmd_def split: sum.splits)
      have "keeps c conv1" using e assms(2) by (rule keeps_extractConstraints)
      then have "keeps c conv2" using u keeps_updateSchema by blast
      then show ?thesis using c by (simp add: keeps_log)
    qed (use assms Node_AlterTableCmd addc d in \<open>auto simp: alterTableCmd_def keeps_log\<close>)
  next
    case other
    then show ?thesis
      using assms Node_AlterTableCmd by (auto simp: alterTableCmd_def keeps_log)
  qed
qed (use assms in \<open>auto simp: alterTableCmd_def keeps_log\<close>)

lemma keeps_alterTableCmds:
  "alterTableCmds conv tbl cmds = Inr conv' \<Longrightarrow> keeps c conv \<Longrightarrow> keeps c conv'"
proof (induction cmds arbitrary: conv)
  case Nil
  then show ?case by simp
next
  case (Cons i cmds)
  then show ?case by (auto split: sum.splits dest: keeps_alterTableCmd)
qed

lemma keeps_processAlterTableStmt:
  "processAlterTableStmt conv n = Inr conv' \<Longrightarrow> keeps c conv \<Longrightarrow> keeps c conv'"
  unfolding processAlterTableStmt_def
  by (auto simp: keeps_log split: option.splits sum.splits dest: keeps_alterTableCmds)

lemma keeps_processIndexStmt: "keeps c conv \<Longrightarrow> keeps c (processIndexStmt conv n)"
  unfolding processIndexStmt_def
  using keeps_toIndexKeys [of c conv "ix_Idxname n" "ix_IndexParams n"]
  by (auto simp: keeps_log split: option.splits sum.splits prod.splits)

lemma keeps_processVariableSetStmt:
  "keeps c conv \<Longrightarrow> keeps c (processVariableSetStmt L conv n)"
  unfolding processVariableSetStmt_def
  by (auto simp: keeps_log split: Node.splits sum.splits)


text \<open>Reading the values of an insert statement only logs diagnostics.\<close>

lemma getRowValues_logs:
  "fst (getRowValues conv l) = conv\<lparr>Unexpecteds := Unexpecteds (fst (getRowValues conv l))\<rparr>"
proof (induction l arbitrary: conv)
  case Nil
  then show ?case by simp
next
  case (Cons v vs)
  have u: "fst (getRowValues (Unexpected m conv) vs) =
      conv\<lparr>Unexpecteds := Unexpecteds (fst (getRowValues (Unexpected m conv) vs))\<rparr>" for m
    using Cons.IH [of "Unexpected m conv"] by (simp add: Unexpected_def)
  show ?case
  proof (cases v)
    case (Node_AConst c)
    then show ?thesis
      using Cons.IH [of conv] u by (cases c) (simp_all add: case_prod_beta)
  qed (use u in simp_all)
qed

lemma getRows_logs:
  "fst (getRows conv l) = conv\<lparr>Unexpecteds := Unexpecteds (fst (getRows conv l))\<rparr>"
proof (induction l arbitrary: conv)
  case Nil
  then show ?case by simp
next
  case (Cons vl vll)
  define inner where "inner = (case vl of
              Node_List items \<Rightarrow> getRowValues conv items
            | _ \<Rightarrow>
                (Unexpected (''Processing InsertStmt statement: found '' @ printNodeType vl
                   @ '' in ValuesList'') conv, []))"
  have i: "fst inner = conv\<lparr>Unexpecteds := Unexpecteds (fst inner)\<rparr>"
    unfolding inner_def using getRowValues_logs [of conv]
    by (cases vl) (simp_all add: Unexpected_def)
  have r: "fst (getRows conv (vl # vll)) = fst (getRows (fst inner) vll)"
    unfolding inner_def by (simp split: prod.splits)
  have "fst (getRows (fst inner) vll) =
      (fst inner)\<lparr>Unexpecteds := Unexpecteds (fst (getRows (fst inner) vll))\<rparr>"
    by (rule Cons.IH)
  then have "fst (getRows (fst inner) vll) =
      conv\<lparr>Unexpecteds := Unexpecteds (fst (getRows (fst inner) vll))\<rparr>"
    by (subst (asm) i) simp
  then show ?case unfolding r .
qed

text \<open>What \<^verbatim>\<open>processInsertStmt\<close> does for an insert statement into a table of the schema
  whose column list and values are well formed.\<close>

lemma processInsertStmt_known:
  assumes "ins_Relation n = Some rv" and "getTableName rv = Inr tbl"
    and "SrcSchema conv tbl = Some t" and "getCols (ins_Cols n) = Inr colNames"
    and "ins_SelectStmt n = Some (Node_SelectStmt vll)"
  shows "\<exists>conv1. processInsertStmt conv n =
        Inr (conv1,
             if DataMode conv
             then Some \<lparr>ci_stmt = insert, ci_table = tbl, ci_cols = colNames,
                        ci_rows = snd (getRows (StatsAddRow tbl (SchemaMode conv) conv) vll)\<rparr>
             else None)
      \<and> Rows conv1 = (Rows conv)(tbl := Rows conv tbl + 1)
      \<and> DataStmts conv1 = DataStmts conv @ [''SelectStmt'']
      \<and> dataRows conv1 = dataRows conv \<and> mode conv1 = mode conv
      \<and> SrcSchema conv1 = SrcSchema conv"
proof -
  let ?c1 = "StatsAddRow tbl (SchemaMode conv) conv"
  obtain conv2 rows where g: "getRows ?c1 vll = (conv2, rows)" by (cases "getRows ?c1 vll")
  have c2: "conv2 = ?c1\<lparr>Unexpecteds := Unexpecteds conv2\<rparr>"
    using getRows_logs [of ?c1 vll] g by simp
  let ?c3 = "DataStatement ''SelectStmt'' conv2"
  have dm: "DataMode ?c3 = DataMode conv"
    by (subst c2) (simp add: DataMode_def DataStatement_def StatsAddRow_def)
  have run: "processInsertStmt conv n =
      Inr (?c3, if DataMode conv
                then Some \<lparr>ci_stmt = insert, ci_table = tbl, ci_cols = colNames,
                           ci_rows = rows\<rparr>
                else None)"
    using assms g dm by (simp add: processInsertStmt_def Let_def)
  have "Rows ?c3 = (Rows conv)(tbl := Rows conv tbl + 1)"
    "DataStmts ?c3 = DataStmts conv @ [''SelectStmt'']"
    "dataRows ?c3 = dataRows conv" "mode ?c3 = mode conv" "SrcSchema ?c3 = SrcSchema conv"
    by (subst c2, simp add: DataStatement_def StatsAddRow_def)+
  then show ?thesis using run g by simp
qed

lemma keeps_processInsertStmt:
  assumes "processInsertStmt conv n = Inr (conv', oci)" and "keeps c conv"
  shows "keeps c conv' \<and> (\<forall>ci. oci = Some ci \<longrightarrow> DataMode conv' \<and> ci_stmt ci = insert)"
proof (cases "ins_Relation n")
  case None
  then show ?thesis using assms by (auto simp: processInsertStmt_def keeps_log)
next
  case (Some rv)
  show ?thesis
  proof (cases "getTableName rv")
    case (Inl err)
    then show ?thesis using assms Some by (auto simp: processInsertStmt_def keeps_log)
  next
    case (Inr tbl)
    show ?thesis
    proof (cases "SrcSchema conv tbl")
      case None
      then show ?thesis using assms Some Inr by (auto simp: processInsertStmt_def keeps_log)
    next
      case t: (Some t)
      let ?c1 = "StatsAddRow tbl (SchemaMode conv) conv"
      have k1: "keeps c ?c1" using assms(2) by (simp add: keeps_log)
      show ?thesis
      proof (cases "getCols (ins_Cols n)")
        case (Inl err)
        then show ?thesis
          using assms(1) Some Inr t k1
          by (auto simp: processInsertStmt_def Let_def keeps_log)
      next
        case cn: (Inr colNames)
        show ?thesis
        proof (cases "ins_SelectStmt n")
          case None
          then show ?thesis
            using assms(1) Some Inr t cn by (simp add: processInsertStmt_def Let_def)
        next
          case sel: (Some sel)
          show ?thesis
          proof (cases sel)
            case (Node_SelectStmt vll)
            obtain conv2 rows where g: "getRows ?c1 vll = (conv2, rows)"
              by (cases "getRows ?c1 vll")
            have "keeps c conv2" using keeps_getRows [OF k1, of vll] g by simp
            then have k3: "keeps c (DataStatement ''SelectStmt'' conv2)"
              by (simp add: keeps_log)
            show ?thesis
              using assms(1) Some Inr t cn sel Node_SelectStmt g k3
              by (auto simp: processInsertStmt_def Let_def split: if_splits)
          qed (use assms(1) Some Inr t cn sel k1 in
                \<open>auto simp: processInsertStmt_def Let_def keeps_log\<close>)
        qed
      qed
    qed
  qed
qed

lemma keeps_processCopyStmt:
  assumes "keeps c conv"
  shows "keeps c (fst (processCopyStmt conv n)) \<and> ci_stmt (snd (processCopyStmt conv n)) = copyFrom"
proof -
  define pre where "pre = (case cp_Relation n of
              Some rv \<Rightarrow>
                (case getTableName rv of
                   Inl err \<Rightarrow> (Unexpected (''Processing CopyStmt statement: '' @ err) conv, [])
                 | Inr tbl \<Rightarrow> (conv, tbl))
            | None \<Rightarrow>
                (logStmtError conv ''CopyStmt'' ''relation is nil'', ''BOGUS_COPY_FROM_TABLE''))"
  have k1: "keeps c (fst pre)"
    unfolding pre_def using assms by (auto simp: keeps_log split: option.splits sum.splits)
  have k2: "keeps c (fst (copyAttlist (fst pre) (cp_Attlist n)))"
    using k1 by (rule keeps_copyAttlist)
  show ?thesis
    unfolding processCopyStmt_def pre_def [symmetric]
    using k1 k2 by (auto simp: keeps_log split: prod.splits option.splits)
qed

lemma keeps_processStatements:
  "processStatements L conv stmts = Inr (conv', oci) \<Longrightarrow> keeps c conv \<Longrightarrow>
   keeps c conv' \<and> (\<forall>ci. oci = Some ci \<and> ci_stmt ci = insert \<longrightarrow> DataMode conv')"
proof (induction stmts arbitrary: conv)
  case Nil
  then show ?case by simp
next
  case (Cons s stmts)
  show ?case
  proof (cases s)
    case (Node_AlterTableStmt n)
    show ?thesis
    proof (cases "SchemaMode conv")
      case True
      then obtain conv1 where a: "processAlterTableStmt conv n = Inr conv1"
        and r: "processStatements L conv1 stmts = Inr (conv', oci)"
        using Cons.prems(1) Node_AlterTableStmt by (auto split: sum.splits)
      have "keeps c conv1" using a Cons.prems(2) by (rule keeps_processAlterTableStmt)
      with r show ?thesis by (rule Cons.IH)
    next
      case False
      then show ?thesis using Cons Node_AlterTableStmt by simp
    qed
  next
    case (Node_CopyStmt n)
    let ?c0 = "if stmts \<noteq> [] then
                     ErrorInStatement ''CopyStmt''
                       (Unexpected
                          ''CopyFrom is not the last statement in batch: ignoring following statements''
                          conv)
                   else conv"
    have "keeps c ?c0" using Cons.prems(2) by (simp add: keeps_log)
    from keeps_processCopyStmt [OF this, of n] show ?thesis
      using Cons.prems(1) Node_CopyStmt by (auto split: prod.splits)
  next
    case (Node_CreateStmt n)
    show ?thesis
    proof (cases "SchemaMode conv")
      case True
      then obtain conv1 where a: "processCreateStmt conv n = Inr conv1"
        and r: "processStatements L conv1 stmts = Inr (conv', oci)"
        using Cons.prems(1) Node_CreateStmt by (auto split: sum.splits)
      have "keeps c conv1" using a Cons.prems(2) by (rule keeps_processCreateStmt)
      with r show ?thesis by (rule Cons.IH)
    next
      case False
      then show ?thesis using Cons Node_CreateStmt by simp
    qed
  next
    case (Node_InsertStmt n)
    then have "processInsertStmt conv n = Inr (conv', oci)" using Cons.prems(1) by simp
    from keeps_processInsertStmt [OF this Cons.prems(2)] show ?thesis by blast
  next
    case (Node_VariableSetStmt n)
    show ?thesis
      using Cons Node_VariableSetStmt keeps_processVariableSetStmt [OF Cons.prems(2)]
      by (cases "SchemaMode conv") auto
  next
    case (Node_IndexStmt n)
    show ?thesis
      using Cons Node_IndexStmt keeps_processIndexStmt [OF Cons.prems(2)]
      by (cases "SchemaMode conv") auto
  next
    case (Node_OtherStmt ty)
    have "keeps c (SkipStatement ty conv)" using Cons.prems(2) by (simp add: keeps_log)
    then show ?thesis using Cons.IH Cons.prems(1) Node_OtherStmt by simp
  qed
qed


lemma keeps_readAndParseChunk_loop:
  "readAndParseChunk_loop Parse l conv r = (out, conv', r') \<Longrightarrow> keeps c conv \<Longrightarrow>
   keeps c conv'"
proof (induction Parse l conv r rule: readAndParseChunk_loop.induct)
  case (1 Parse l conv r)
  obtain b r1 where rl: "ReadLine r = (b, r1)" by (cases "ReadLine r")
  let ?c1 = "conv\<lparr>Reparsed := Reparsed conv + 1\<rparr>"
  have k1: "keeps c ?c1" using "1.prems"(2) by (simp add: keeps_log)
  show ?case
  proof (cases "EOF r1")
    case True
    have "conv' = conv \<or> conv' = ?c1"
      using "1.prems"(1) True
      by (subst (asm) readAndParseChunk_loop.simps) (auto simp: rl split: option.splits)
    then show ?thesis using k1 "1.prems"(2) by auto
  next
    case False
    show ?thesis
    proof (cases "Contains b '';''")
      case c: True
      show ?thesis
      proof (cases "Parse (concat (l @ [b]))")
        case None
        have "readAndParseChunk_loop Parse (l @ [b]) ?c1 r1 = (out, conv', r')"
          using "1.prems"(1) False c None
          by (subst (asm) readAndParseChunk_loop.simps) (simp add: rl)
        from "1.IH"(1) [OF rl [symmetric] _ None False this k1] c
        show ?thesis by auto
      next
        case (Some stmts)
        have "conv' = conv"
          using "1.prems"(1) False c Some
          by (subst (asm) readAndParseChunk_loop.simps) (simp add: rl)
        then show ?thesis using "1.prems"(2) by simp
      qed
    next
      case c: False
      have "readAndParseChunk_loop Parse (l @ [b]) conv r1 = (out, conv', r')"
        using "1.prems"(1) False c
        by (subst (asm) readAndParseChunk_loop.simps) (simp add: rl)
      from "1.IH"(2) [OF rl [symmetric] _ False this "1.prems"(2)] c False
      show ?thesis by auto
    qed
  qed
qed

lemma processChunk_schema_mode:
  assumes "processChunk Parse L conv r = Inr (conv', r')" and "\<not> DataMode conv"
  shows "keeps conv conv'"
proof -
  obtain out conv1 r1 where rc: "readAndParseChunk Parse conv r = (out, conv1, r1)"
    by (cases "readAndParseChunk Parse conv r")
  have k1: "keeps conv conv1"
    using rc keeps_refl unfolding readAndParseChunk_def by (rule keeps_readAndParseChunk_loop)
  obtain b stmts where out: "out = Inr (b, stmts)"
    using assms(1) rc by (cases out) (auto simp: processChunk_def)
  obtain conv2 oci where ps: "processStatements L conv1 stmts = Inr (conv2, oci)"
    using assms(1) rc out
    by (cases "processStatements L conv1 stmts") (auto simp: processChunk_def)
  have k2: "keeps conv conv2"
    and ins: "\<forall>ci. oci = Some ci \<and> ci_stmt ci = insert \<longrightarrow> DataMode conv2"
    using keeps_processStatements [OF ps k1] by blast+
  have nd: "\<not> DataMode conv2" using k2 assms(2) by (simp add: keeps_def DataMode_def)
  show ?thesis
  proof (cases oci)
    case None
    then show ?thesis using assms(1) rc out ps k2 by (simp add: processChunk_def)
  next
    case (Some ci)
    then have cf: "ci_stmt ci = copyFrom" using ins nd by (cases "ci_stmt ci") auto
    then have "processCopyBlock conv2 (ci_table ci) (ci_cols ci) r1 = (conv', r')"
      using assms(1) rc out ps Some by (simp add: processChunk_def)
    then have "conv' = fst (processCopyBlock conv2 (ci_table ci) (ci_cols ci) r1)" by simp
    then have "keeps conv2 conv'"
      using processCopyBlock_schema_mode [OF nd, of "ci_table ci" "ci_cols ci" r1]
      by (simp add: keeps_def)
    with k2 show ?thesis by (rule keeps_trans)
  qed
qed

lemma processPgDump_schema_mode:
  "processPgDump Parse L conv r = Inr (conv', r') \<Longrightarrow> \<not> DataMode conv \<Longrightarrow> keeps conv conv'"
proof (induction Parse L conv r rule: processPgDump.induct)
  case (1 Parse L conv r)
  obtain conv1 r1 where pc: "processChunk Parse L conv r = Inr (conv1, r1)"
    using "1.prems"(1)
    by (subst (asm) processPgDump.simps) (auto split: sum.splits)
  have k1: "keeps conv conv1" using pc "1.prems"(2) by (rule processChunk_schema_mode)
  show ?case
  proof (cases "EOF r1")
    case True
    then have "conv' = conv1"
      using "1.prems"(1) pc by (subst (asm) processPgDump.simps) simp
    then show ?thesis using k1 by simp
  next
    case False
    then have run: "processPgDump Parse L conv1 r1 = Inr (conv', r')"
      using "1.prems"(1) pc by (subst (asm) processPgDump.simps) simp
    have nd: "\<not> DataMode conv1" using k1 "1.prems"(2) by (simp add: keeps_def DataMode_def)
    have "keeps conv1 conv'"
      by (rule "1.IH" [OF pc refl False run nd])
    with k1 show ?thesis by (rule keeps_trans)
  qed
qed

lemma copyAttlist_logs:
  "fst (copyAttlist conv l) = conv\<lparr>Unexpecteds := Unexpecteds (fst (copyAttlist conv l))\<rparr>"
proof (induction l arbitrary: conv)
  case Nil
  then show ?case by simp
next
  case (Cons a l)
  have u: "fst (copyAttlist (Unexpected m conv) l) =
      conv\<lparr>Unexpecteds := Unexpecteds (fst (copyAttlist (Unexpected m conv) l))\<rparr>" for m
    using Cons.IH [of "Unexpected m conv"] by (simp add: Unexpected_def)
  show ?case
    using Cons.IH [of conv] u by (cases "getString a") (simp_all add: case_prod_beta)
qed

lemma processCopyStmt_known:
  assumes "cp_Relation m = Some rv" and "getTableName rv = Inr tbl"
    and "SrcSchema conv tbl = Some t"
  shows "\<exists>conv1 cs. processCopyStmt conv m =
        (conv1, \<lparr>ci_stmt = copyFrom, ci_table = tbl, ci_cols = cs, ci_rows = []\<rparr>)
      \<and> DataStmts conv1 = DataStmts conv @ [''CopyStmt'']
      \<and> dataRows conv1 = dataRows conv \<and> mode conv1 = mode conv \<and> Rows conv1 = Rows conv"
proof -
  obtain conv2 cs where g: "copyAttlist conv (cp_Attlist m) = (conv2, cs)"
    by (cases "copyAttlist conv (cp_Attlist m)")
  have c2: "conv2 = conv\<lparr>Unexpecteds := Unexpecteds conv2\<rparr>"
    using copyAttlist_logs [of conv "cp_Attlist m"] g by simp
  have run: "processCopyStmt conv m =
      (DataStatement ''CopyStmt'' conv2,
       \<lparr>ci_stmt = copyFrom, ci_table = tbl, ci_cols = cs, ci_rows = []\<rparr>)"
    using assms g by (simp add: processCopyStmt_def)
  have "DataStmts (DataStatement ''CopyStmt'' conv2) = DataStmts conv @ [''CopyStmt'']"
    "dataRows (DataStatement ''CopyStmt'' conv2) = dataRows conv"
    "mode (DataStatement ''CopyStmt'' conv2) = mode conv"
    "Rows (DataStatement ''CopyStmt'' conv2) = Rows conv"
    by (subst c2, simp add: DataStatement_def)+
  then show ?thesis using run by simp
qed

lemma exRv_name: "getTableName exRv = Inr ''t''"
  by (simp add: getTableName_def exRv_def)

lemma exConv_t: "SrcSchema exConv ''t'' = Some exT" "SrcSchema exDataConvT ''t'' = Some exT"
  by (simp_all add: exConv_def exDataConvT_def MakeConv_def)

section \<open>Properties of the statement dispatch\<close>

lemma processInsertRows_rows:
  "dataRows (processInsertRows conv ci rows) =
     dataRows conv @
     map (\<lambda>vals. (ci_table ci,
                   if ci_cols ci = [] then ColNames (srcTableOf conv (ci_table ci))
                   else ci_cols ci,
                   vals)) rows
   \<and> SrcSchema (processInsertRows conv ci rows) = SrcSchema conv"
proof (induction rows arbitrary: conv)
  case Nil
  then show ?case by simp
next
  case (Cons vals rows)
  show ?case
  proof (cases "ci_cols ci = []")
    case True
    let ?c1 = "ProcessDataRow conv (ci_table ci) (ColNames (srcTableOf conv (ci_table ci))) vals"
    have t: "srcTableOf ?c1 (ci_table ci) = srcTableOf conv (ci_table ci)"
      by (simp add: srcTableOf_def ProcessDataRow_def)
    show ?thesis
      using Cons.IH [of ?c1] True by (simp add: t) (simp add: ProcessDataRow_def)
  next
    case False
    let ?c1 = "ProcessDataRow conv (ci_table ci) (ci_cols ci) vals"
    show ?thesis
      using Cons.IH [of ?c1] False by (simp add: ProcessDataRow_def)
  qed
qed

lemma getCols_ResTargets: "[] \<notin> set names \<Longrightarrow> getCols (map Node_ResTarget names) = Inr names"
  by (induction names) auto

lemma processInsertStmt_Some:
  assumes "processInsertStmt conv n = Inr (conv1, Some ci)"
  shows "\<exists>rv t vll. ins_Relation n = Some rv \<and> getTableName rv = Inr (ci_table ci)
      \<and> SrcSchema conv (ci_table ci) = Some t \<and> getCols (ins_Cols n) = Inr (ci_cols ci)
      \<and> ins_SelectStmt n = Some (Node_SelectStmt vll) \<and> SrcSchema conv1 = SrcSchema conv
      \<and> DataMode conv \<and> ci_stmt ci = insert"
proof -
  obtain rv where rv: "ins_Relation n = Some rv"
    using assms by (cases "ins_Relation n") (auto simp: processInsertStmt_def)
  obtain tbl where tbl: "getTableName rv = Inr tbl"
    using assms rv by (cases "getTableName rv") (auto simp: processInsertStmt_def)
  obtain t where t: "SrcSchema conv tbl = Some t"
    using assms rv tbl by (cases "SrcSchema conv tbl") (auto simp: processInsertStmt_def)
  obtain colNames where cn: "getCols (ins_Cols n) = Inr colNames"
    using assms rv tbl t
    by (cases "getCols (ins_Cols n)") (auto simp: processInsertStmt_def Let_def)
  obtain sel where sel: "ins_SelectStmt n = Some sel"
    using assms rv tbl t cn
    by (cases "ins_SelectStmt n") (auto simp: processInsertStmt_def Let_def)
  obtain vll where vll: "sel = Node_SelectStmt vll"
    using assms rv tbl t cn sel
    by (cases sel) (auto simp: processInsertStmt_def Let_def)
  from processInsertStmt_known [OF rv tbl t cn sel [unfolded vll]] assms
  show ?thesis using rv tbl t cn sel vll by (auto split: if_splits)
qed

text \<open>Claim C7. When \<^verbatim>\<open>processInsertStmt\<close> yields the rows of an insert statement, the table
  of the statement is in the source schema, and the loop of \<^verbatim>\<open>processPgDump\<close> over the rows
  calls the row converter once per row, in order: with the column names of that table in
  the schema, in the schema's order, when the statement has no column list; and with
  exactly the names of the statement's column list, in the statement's order, when it has
  one.\<close>

theorem insert_rows_column_names:
  assumes "processInsertStmt conv n = Inr (conv1, Some ci)"
  shows "\<exists>t. SrcSchema conv (ci_table ci) = Some t
     \<and> (ins_Cols n = [] \<longrightarrow>
          dataRows (processInsertRows conv1 ci (ci_rows ci)) =
            dataRows conv1 @ map (\<lambda>vals. (ci_table ci, ColNames t, vals)) (ci_rows ci))
     \<and> (\<forall>names. ins_Cols n = map Node_ResTarget names \<and> names \<noteq> [] \<and> [] \<notin> set names \<longrightarrow>
          dataRows (processInsertRows conv1 ci (ci_rows ci)) =
            dataRows conv1 @ map (\<lambda>vals. (ci_table ci, names, vals)) (ci_rows ci))"
proof -
  from processInsertStmt_Some [OF assms] obtain rv t vll where
    f: "ins_Relation n = Some rv" "getTableName rv = Inr (ci_table ci)"
      "SrcSchema conv (ci_table ci) = Some t" "getCols (ins_Cols n) = Inr (ci_cols ci)"
      "SrcSchema conv1 = SrcSchema conv"
    by blast
  have st: "srcTableOf conv1 (ci_table ci) = t"
    using f(3,5) by (simp add: srcTableOf_def)
  note rows = processInsertRows_rows [of conv1 ci "ci_rows ci", THEN conjunct1, unfolded st]
  have a: "dataRows (processInsertRows conv1 ci (ci_rows ci)) =
            dataRows conv1 @ map (\<lambda>vals. (ci_table ci, ColNames t, vals)) (ci_rows ci)"
    if "ins_Cols n = []"
    using that f(4) rows by simp
  have b: "dataRows (processInsertRows conv1 ci (ci_rows ci)) =
            dataRows conv1 @ map (\<lambda>vals. (ci_table ci, names, vals)) (ci_rows ci)"
    if "ins_Cols n = map Node_ResTarget names \<and> names \<noteq> [] \<and> [] \<notin> set names" for names
  proof -
    have "ci_cols ci = names" using that f(4) getCols_ResTargets [of names] by simp
    then show ?thesis using that rows by simp
  qed
  show ?thesis using f(3) a b by blast
qed

lemma exInsert_run:
  "\<exists>conv1. processInsertStmt exDataConvT exInsert =
     Inr (conv1, Some \<lparr>ci_stmt = insert, ci_table = ''t'', ci_cols = [],
                        ci_rows = [[''1'', ''x '']]\<rparr>) \<and> dataRows conv1 = []"
  by (simp add: processInsertStmt_def exInsert_def exRv_name exConv_t exValues_def
        trimString_def trimQuote_def trimEscapeChars_def TrimPrefix_def ReplaceAll.simps
        FormatInt_def digitsOf.simps DataMode_def SchemaMode_def DataStatement_def
        StatsAddRow_def exDataConvT_def exConv_def MakeConv_def)

lemma exInsertCols_run:
  "\<exists>conv1. processInsertStmt exDataConvT exInsertCols =
     Inr (conv1, Some \<lparr>ci_stmt = insert, ci_table = ''t'', ci_cols = [''b'', ''a''],
                        ci_rows = [[''1'', ''x '']]\<rparr>) \<and> dataRows conv1 = []"
  by (simp add: processInsertStmt_def exInsertCols_def exInsert_def exRv_name exConv_t
        exValues_def trimString_def trimQuote_def trimEscapeChars_def TrimPrefix_def
        ReplaceAll.simps FormatInt_def digitsOf.simps DataMode_def SchemaMode_def
        DataStatement_def StatsAddRow_def exDataConvT_def exConv_def MakeConv_def)

theorem insert_rows_column_names_witness:
  "(\<exists>conv1 ci. processInsertStmt exDataConvT exInsert = Inr (conv1, Some ci)
      \<and> ins_Cols exInsert = [] \<and> SrcSchema exDataConvT ''t'' = Some exT
      \<and> ColNames exT = [''a'', ''b'']
      \<and> dataRows (processInsertRows conv1 ci (ci_rows ci)) =
           [(''t'', [''a'', ''b''], [''1'', ''x ''])])
   \<and> (\<exists>conv1 ci. processInsertStmt exDataConvT exInsertCols = Inr (conv1, Some ci)
      \<and> ins_Cols exInsertCols = map Node_ResTarget [''b'', ''a'']
      \<and> dataRows (processInsertRows conv1 ci (ci_rows ci)) =
           [(''t'', [''b'', ''a''], [''1'', ''x ''])])"
proof -
  obtain c1 where r1: "processInsertStmt exDataConvT exInsert =
     Inr (c1, Some \<lparr>ci_stmt = insert, ci_table = ''t'', ci_cols = [],
                        ci_rows = [[''1'', ''x '']]\<rparr>)" and d1: "dataRows c1 = []"
    using exInsert_run by blast
  obtain c2 where r2: "processInsertStmt exDataConvT exInsertCols =
     Inr (c2, Some \<lparr>ci_stmt = insert, ci_table = ''t'', ci_cols = [''b'', ''a''],
                        ci_rows = [[''1'', ''x '']]\<rparr>)" and d2: "dataRows c2 = []"
    using exInsertCols_run by blast
  have i1: "ins_Cols exInsert = []" by (simp add: exInsert_def)
  have i2: "ins_Cols exInsertCols = map Node_ResTarget [''b'', ''a'']"
    by (simp add: exInsertCols_def)
  have cn: "ColNames exT = [''a'', ''b'']" by (simp add: exT_def)
  from insert_rows_column_names [OF r1] i1 d1 exConv_t(2) cn
  have a: "dataRows (processInsertRows c1 \<lparr>ci_stmt = insert, ci_table = ''t'', ci_cols = [],
                        ci_rows = [[''1'', ''x '']]\<rparr> [[''1'', ''x '']]) =
           [(''t'', [''a'', ''b''], [''1'', ''x ''])]"
    by auto
  from insert_rows_column_names [OF r2] i2 d2
  have b: "dataRows (processInsertRows c2 \<lparr>ci_stmt = insert, ci_table = ''t'',
                        ci_cols = [''b'', ''a''], ci_rows = [[''1'', ''x '']]\<rparr>
             [[''1'', ''x '']]) = [(''t'', [''b'', ''a''], [''1'', ''x ''])]"
    by auto
  show ?thesis
    using r1 r2 i1 i2 cn a b exConv_t(2) by auto
qed


text \<open>Claim C9. A create-table statement that declares inheritance is counted as skipped
  and logged as unexpected; it leaves the source schema as it was (so the table gets no
  entry) and is not counted as an error. An alter-table, insert or copy statement that
  names a table absent from the source schema is counted as skipped, with the tag of its
  statement kind, and nothing else of the state changes: no error is counted and none is
  raised. The insert statement yields no rows; the copy statement still announces its
  copy block, with no columns.\<close>

theorem unknown_tables_are_skipped:
  "(\<forall>(n::CreateStmt) rv tbl.
      cr_Relation n = Some rv \<and> getTableName rv = Inr tbl \<and> cr_InhRelations n \<noteq> [] \<longrightarrow>
      (\<exists>conv'. processCreateStmt conv n = Inr conv'
         \<and> SrcSchema conv' = SrcSchema conv
         \<and> SkipStmts conv' = SkipStmts conv @ [''CreateStmt'']
         \<and> Unexpecteds conv' = Unexpecteds conv @
              [''Found inherited table '' @ tbl @ '' -- we do not currently handle inherited tables'']
         \<and> ErrorStmts conv' = ErrorStmts conv))
   \<and> (\<forall>(n::AlterTableStmt) rv tbl.
        at_Relation n = Some rv \<and> getTableName rv = Inr tbl \<and> SrcSchema conv tbl = None \<longrightarrow>
        processAlterTableStmt conv n = Inr (conv\<lparr>SkipStmts := SkipStmts conv @ [''AlterTableStmt'']\<rparr>))
   \<and> (\<forall>(n::InsertStmt) rv tbl.
        ins_Relation n = Some rv \<and> getTableName rv = Inr tbl \<and> SrcSchema conv tbl = None \<longrightarrow>
        processInsertStmt conv n = Inr (conv\<lparr>SkipStmts := SkipStmts conv @ [''InsertStmt'']\<rparr>, None))
   \<and> (\<forall>(n::CopyStmt) rv tbl.
        cp_Relation n = Some rv \<and> getTableName rv = Inr tbl \<and> SrcSchema conv tbl = None \<longrightarrow>
        processCopyStmt conv n =
          (conv\<lparr>SkipStmts := SkipStmts conv @ [''CopyStmt'']\<rparr>,
           \<lparr>ci_stmt = copyFrom, ci_table = tbl, ci_cols = [], ci_rows = []\<rparr>))"
  by (auto simp: processCreateStmt_def processAlterTableStmt_def processInsertStmt_def
        processCopyStmt_def SkipStatement_def Unexpected_def)

theorem unknown_tables_are_skipped_witness:
  "cr_Relation exInherited = Some exChildRv \<and> getTableName exChildRv = Inr ''child''
   \<and> cr_InhRelations exInherited \<noteq> [] \<and> SrcSchema exConv ''child'' = None
   \<and> (\<exists>conv'. processCreateStmt exConv exInherited = Inr conv'
         \<and> SrcSchema conv' ''child'' = None \<and> SkipStmts conv' = [''CreateStmt'']
         \<and> ErrorStmts conv' = []
         \<and> processAlterTableStmt conv' \<lparr>at_Relation = Some exChildRv, at_Cmds = []\<rparr> =
             Inr (conv'\<lparr>SkipStmts := [''CreateStmt'', ''AlterTableStmt'']\<rparr>)
         \<and> processInsertStmt conv'
               \<lparr>ins_Relation = Some exChildRv, ins_Cols = [], ins_SelectStmt = None\<rparr> =
             Inr (conv'\<lparr>SkipStmts := [''CreateStmt'', ''InsertStmt'']\<rparr>, None)
         \<and> processCopyStmt conv' \<lparr>cp_Relation = Some exChildRv, cp_Attlist = []\<rparr> =
             (conv'\<lparr>SkipStmts := [''CreateStmt'', ''CopyStmt'']\<rparr>,
              \<lparr>ci_stmt = copyFrom, ci_table = ''child'', ci_cols = [], ci_rows = []\<rparr>))"
proof -
  have 1: "cr_Relation exInherited = Some exChildRv" "cr_InhRelations exInherited \<noteq> []"
    by (simp_all add: exInherited_def exChildRv_def)
  have 2: "getTableName exChildRv = Inr ''child''"
    by (simp add: getTableName_def exChildRv_def)
  have 3: "SrcSchema exConv ''child'' = None" "SkipStmts exConv = []" "ErrorStmts exConv = []"
    by (simp_all add: exConv_def MakeConv_def)
  from unknown_tables_are_skipped [of exConv, THEN conjunct1, rule_format,
      of exInherited exChildRv "''child''"] 1 2
  obtain conv' where c: "processCreateStmt exConv exInherited = Inr conv'"
    "SrcSchema conv' = SrcSchema exConv" "SkipStmts conv' = SkipStmts exConv @ [''CreateStmt'']"
    "ErrorStmts conv' = ErrorStmts exConv"
    by blast
  have u: "SrcSchema conv' ''child'' = None" using c(2) 3(1) by simp
  note t = unknown_tables_are_skipped [of conv', THEN conjunct2]
  have a: "processAlterTableStmt conv' \<lparr>at_Relation = Some exChildRv, at_Cmds = []\<rparr> =
             Inr (conv'\<lparr>SkipStmts := [''CreateStmt'', ''AlterTableStmt'']\<rparr>)"
    using t [THEN conjunct1, rule_format,
        of "\<lparr>at_Relation = Some exChildRv, at_Cmds = []\<rparr>" exChildRv "''child''"] 2 u c(3) 3(2)
    by simp
  have i: "processInsertStmt conv'
               \<lparr>ins_Relation = Some exChildRv, ins_Cols = [], ins_SelectStmt = None\<rparr> =
             Inr (conv'\<lparr>SkipStmts := [''CreateStmt'', ''InsertStmt'']\<rparr>, None)"
    using t [THEN conjunct2, THEN conjunct1, rule_format,
        of "\<lparr>ins_Relation = Some exChildRv, ins_Cols = [], ins_SelectStmt = None\<rparr>"
           exChildRv "''child''"] 2 u c(3) 3(2)
    by simp
  have cp: "processCopyStmt conv' \<lparr>cp_Relation = Some exChildRv, cp_Attlist = []\<rparr> =
             (conv'\<lparr>SkipStmts := [''CreateStmt'', ''CopyStmt'']\<rparr>,
              \<lparr>ci_stmt = copyFrom, ci_table = ''child'', ci_cols = [], ci_rows = []\<rparr>)"
    using t [THEN conjunct2, THEN conjunct2, rule_format,
        of "\<lparr>cp_Relation = Some exChildRv, cp_Attlist = []\<rparr>" exChildRv "''child''"] 2 u c(3) 3(2)
    by simp
  show ?thesis
    using 1 2 3 c u a i cp by auto
qed

lemma processStatements_append:
  "\<forall>s \<in> set pre. \<not> isCopyOrInsert s \<Longrightarrow>
   processStatements L conv (pre @ rest) =
     (case processStatements L conv pre of
        Inl e \<Rightarrow> Inl e
      | Inr (conv1, oci) \<Rightarrow> processStatements L conv1 rest)"
proof (induction pre arbitrary: conv)
  case Nil
  then show ?case by simp
next
  case (Cons s pre)
  then have ih: "processStatements L c (pre @ rest) =
     (case processStatements L c pre of
        Inl e \<Rightarrow> Inl e
      | Inr (conv1, oci) \<Rightarrow> processStatements L conv1 rest)" for c
    by simp
  have n: "\<not> isCopyOrInsert s" using Cons.prems by simp
  show ?case
  proof (cases s)
    case (Node_AlterTableStmt n)
    then show ?thesis by (simp add: ih split: sum.splits)
  next
    case (Node_CreateStmt n)
    then show ?thesis by (simp add: ih split: sum.splits)
  next
    case (Node_VariableSetStmt n)
    then show ?thesis by (simp add: ih)
  next
    case (Node_IndexStmt n)
    then show ?thesis by (simp add: ih)
  next
    case (Node_OtherStmt ty)
    then show ?thesis by (simp add: ih)
  qed (use n in \<open>simp_all add: isCopyOrInsert_def\<close>)
qed

text \<open>Claim C10. \<^verbatim>\<open>processStatements\<close> returns at the first copy or insert statement of a
  batch. With an insert statement the result is that of \<^verbatim>\<open>processInsertStmt\<close> on the state
  left by the statements before it: the statements after it change nothing and leave no
  diagnostic. With a copy statement the result is that of \<^verbatim>\<open>processCopyStmt\<close>, and it
  depends on the statements after it only in that, when there are any, one diagnostic is
  logged and one statement error is counted first.\<close>

theorem processStatements_returns_at_copy_or_insert:
  assumes "\<forall>s \<in> set pre. \<not> isCopyOrInsert s"
  shows "processStatements L conv (pre @ Node_InsertStmt n # post) =
       (case processStatements L conv pre of
          Inl e \<Rightarrow> Inl e
        | Inr (conv1, oci) \<Rightarrow> processInsertStmt conv1 n)
     \<and> processStatements L conv (pre @ Node_CopyStmt m # post) =
       (case processStatements L conv pre of
          Inl e \<Rightarrow> Inl e
        | Inr (conv1, oci) \<Rightarrow>
            (case processCopyStmt
                    (if post \<noteq> [] then
                       ErrorInStatement ''CopyStmt''
                         (Unexpected
                            ''CopyFrom is not the last statement in batch: ignoring following statements''
                            conv1)
                     else conv1) m of
               (conv2, ci) \<Rightarrow> Inr (conv2, Some ci)))"
  by (simp add: processStatements_append [OF assms] split: sum.splits)


theorem processStatements_returns_at_copy_or_insert_witness:
  "\<not> isCopyOrInsert (Node_OtherStmt ''SelectStmt'')
   \<and> (\<exists>conv1. processStatements exLoad exConv
          [Node_OtherStmt ''SelectStmt'', Node_InsertStmt exInsert, Node_OtherStmt ''CommentStmt'']
          = Inr (conv1, None)
        \<and> SkipStmts conv1 = [''SelectStmt''] \<and> Unexpecteds conv1 = [] \<and> ErrorStmts conv1 = [])
   \<and> (\<exists>conv1 ci. processStatements exLoad exConv
          [Node_OtherStmt ''SelectStmt'', Node_CopyStmt exCopy, Node_OtherStmt ''CommentStmt'']
          = Inr (conv1, Some ci)
        \<and> SkipStmts conv1 = [''SelectStmt'']
        \<and> Unexpecteds conv1 =
            [''CopyFrom is not the last statement in batch: ignoring following statements'']
        \<and> ErrorStmts conv1 = [''CopyStmt''])"
proof -
  have h: "\<forall>s \<in> set [Node_OtherStmt ''SelectStmt'']. \<not> isCopyOrInsert s"
    by (simp add: isCopyOrInsert_def)
  have p: "processStatements exLoad exConv [Node_OtherStmt ''SelectStmt''] =
      Inr (SkipStatement ''SelectStmt'' exConv, None)"
    by simp
  have i: "\<exists>conv1. processInsertStmt (SkipStatement ''SelectStmt'' exConv) exInsert =
        Inr (conv1, None)
      \<and> SkipStmts conv1 = [''SelectStmt''] \<and> Unexpecteds conv1 = [] \<and> ErrorStmts conv1 = []"
    by (simp add: processInsertStmt_def exInsert_def exRv_name exValues_def
        trimString_def trimQuote_def trimEscapeChars_def TrimPrefix_def ReplaceAll.simps
        FormatInt_def digitsOf.simps DataMode_def SchemaMode_def DataStatement_def
        StatsAddRow_def SkipStatement_def exConv_def MakeConv_def)
  have c: "\<exists>conv1 ci. processCopyStmt
         (ErrorInStatement ''CopyStmt''
            (Unexpected
               ''CopyFrom is not the last statement in batch: ignoring following statements''
               (SkipStatement ''SelectStmt'' exConv))) exCopy = (conv1, ci)
      \<and> SkipStmts conv1 = [''SelectStmt'']
      \<and> Unexpecteds conv1 =
            [''CopyFrom is not the last statement in batch: ignoring following statements'']
      \<and> ErrorStmts conv1 = [''CopyStmt'']"
    by (simp add: processCopyStmt_def exCopy_def exRv_name getString_def DataStatement_def
        ErrorInStatement_def Unexpected_def SkipStatement_def exConv_def MakeConv_def)
  note t = processStatements_returns_at_copy_or_insert [OF h, of exLoad exConv exInsert
      "[Node_OtherStmt ''CommentStmt'']" exCopy, unfolded p]
  have a: "\<exists>conv1. processStatements exLoad exConv
          [Node_OtherStmt ''SelectStmt'', Node_InsertStmt exInsert, Node_OtherStmt ''CommentStmt'']
          = Inr (conv1, None)
        \<and> SkipStmts conv1 = [''SelectStmt''] \<and> Unexpecteds conv1 = [] \<and> ErrorStmts conv1 = []"
    using t [THEN conjunct1] i by simp
  have b: "\<exists>conv1 ci. processStatements exLoad exConv
          [Node_OtherStmt ''SelectStmt'', Node_CopyStmt exCopy, Node_OtherStmt ''CommentStmt'']
          = Inr (conv1, Some ci)
        \<and> SkipStmts conv1 = [''SelectStmt'']
        \<and> Unexpecteds conv1 =
            [''CopyFrom is not the last statement in batch: ignoring following statements'']
        \<and> ErrorStmts conv1 = [''CopyStmt'']"
    using t [THEN conjunct2] c by auto
  show ?thesis using a b by (simp add: isCopyOrInsert_def)
qed

section \<open>Properties of the primary-key finalizer\<close>

lemma digit_inj:
  assumes "a < 10" and "b < 10" and "''0123456789'' ! a = ''0123456789'' ! b"
  shows "a = b"
proof -
  have d: "distinct ''0123456789''" by simp
  have "a < length ''0123456789''" "b < length ''0123456789''" using assms(1,2) by simp_all
  then show ?thesis using assms(3) d nth_eq_iff_index_eq by blast
qed

lemma digitsOf_not_Nil: "digitsOf n \<noteq> []"
  by (subst digitsOf.simps) simp

lemma digitsOf_inj: "digitsOf n = digitsOf m \<Longrightarrow> n = m"
proof (induction n arbitrary: m rule: digitsOf.induct)
  case (1 n)
  show ?case
  proof (cases "n < 10")
    case True
    then have n: "digitsOf n = [''0123456789'' ! n]" by (subst digitsOf.simps) simp
    show ?thesis
    proof (cases "m < 10")
      case m: True
      then have "digitsOf m = [''0123456789'' ! m]" by (subst digitsOf.simps) simp
      then show ?thesis using "1.prems" n True m digit_inj by simp
    next
      case False
      then have "digitsOf m = digitsOf (m div 10) @ [''0123456789'' ! (m mod 10)]"
        by (subst digitsOf.simps) simp
      then have "length (digitsOf m) \<ge> 2"
        using digitsOf_not_Nil [of "m div 10"]
        by (cases "digitsOf (m div 10)") simp_all
      moreover have "length (digitsOf m) = 1" using "1.prems" [symmetric] n by simp
      ultimately show ?thesis by simp
    qed
  next
    case False
    then have n: "digitsOf n = digitsOf (n div 10) @ [''0123456789'' ! (n mod 10)]"
      by (subst digitsOf.simps) simp
    show ?thesis
    proof (cases "m < 10")
      case True
      then have "digitsOf m = [''0123456789'' ! m]" by (subst digitsOf.simps) simp
      moreover have "length (digitsOf n) \<ge> 2"
        using n digitsOf_not_Nil [of "n div 10"]
        by (cases "digitsOf (n div 10)") simp_all
      ultimately have "length (digitsOf n) = 1" "length (digitsOf n) \<ge> 2"
        using "1.prems" by simp_all
      then show ?thesis by simp
    next
      case m: False
      then have "digitsOf m = digitsOf (m div 10) @ [''0123456789'' ! (m mod 10)]"
        by (subst digitsOf.simps) simp
      then have e: "digitsOf (n div 10) = digitsOf (m div 10)"
        and l: "''0123456789'' ! (n mod 10) = ''0123456789'' ! (m mod 10)"
        using "1.prems" n by simp_all
      have "n div 10 = m div 10" using "1.IH" [OF False e] .
      moreover have "n mod 10 = m mod 10"
        by (rule digit_inj [OF _ _ l]) simp_all
      ultimately show ?thesis by (metis div_mult_mod_eq)
    qed
  qed
qed

lemma distinct_syntheticKeyCandidates: "distinct (syntheticKeyCandidates n)"
proof -
  have "inj_on (\<lambda>i. ''synth_id'' @ digitsOf i) (set [0..<n])"
    by (rule inj_onI) (use digitsOf_inj in auto)
  then have "distinct (map (\<lambda>i. ''synth_id'' @ digitsOf i) [0..<n])"
    by (simp add: distinct_map)
  moreover have "''synth_id'' \<notin> set (map (\<lambda>i. ''synth_id'' @ digitsOf i) [0..<n])"
    using digitsOf_not_Nil by (auto dest: sym)
  ultimately show ?thesis by (simp add: syntheticKeyCandidates_def)
qed

lemma buildPrimaryKey_fresh: "buildPrimaryKey colNames \<notin> set colNames"
proof -
  let ?cs = "syntheticKeyCandidates (length colNames)"
  have len: "length ?cs = Suc (length colNames)" by (simp add: syntheticKeyCandidates_def)
  have "\<exists>k \<in> set ?cs. k \<notin> set colNames"
  proof (rule ccontr)
    assume "\<not> (\<exists>k \<in> set ?cs. k \<notin> set colNames)"
    then have "set ?cs \<subseteq> set colNames" by blast
    then have "card (set ?cs) \<le> card (set colNames)" by (simp add: card_mono)
    moreover have "card (set ?cs) = Suc (length colNames)"
      using distinct_syntheticKeyCandidates [of "length colNames"] len
      by (simp add: distinct_card)
    moreover have "card (set colNames) \<le> length colNames" by (rule card_length)
    ultimately show False by simp
  qed
  then obtain k where "find (\<lambda>k. k \<notin> set colNames) ?cs = Some k"
    by (cases "find (\<lambda>k. k \<notin> set colNames) ?cs") (auto simp: find_None_iff)
  moreover from this have "k \<notin> set colNames" by (auto simp: find_Some_iff)
  ultimately show ?thesis by (simp add: buildPrimaryKey_def)
qed

lemma buildPrimaryKey_base:
  "''synth_id'' \<notin> set colNames \<Longrightarrow> buildPrimaryKey colNames = ''synth_id''"
  by (simp add: buildPrimaryKey_def syntheticKeyCandidates_def)

lemma buildPrimaryKey_prefix: "prefix ''synth_id'' (buildPrimaryKey colNames)"
proof (cases "find (\<lambda>k. k \<notin> set colNames) (syntheticKeyCandidates (length colNames))")
  case None
  then show ?thesis by (simp add: buildPrimaryKey_def)
next
  case (Some k)
  then have "k \<in> set (syntheticKeyCandidates (length colNames))"
    by (auto simp: find_Some_iff)
  then have "prefix ''synth_id'' k" by (auto simp: syntheticKeyCandidates_def)
  then show ?thesis using Some by (simp add: buildPrimaryKey_def)
qed

text \<open>Claim C4. After \<open>AddPrimaryKeys\<close>, a table of the target schema that had no primary
  key has exactly one primary-key column. The column is new: its name is not among the
  column names the table had, it starts with the base name and is the base name itself
  when no column bears it. The column is an integer column, it is appended last in the
  column order, and a sequence counter starting at zero is registered for the table under
  that column name. Tables that had a primary key are left as they were, no table is
  added, and afterwards every table of the target schema has a primary key.\<close>

theorem AddPrimaryKeys_synthetic_key:
  "(\<forall>t spTable. SpSchema conv t = Some spTable \<and> Pks spTable = [] \<longrightarrow>
      (\<exists>k. SpSchema (AddPrimaryKeys conv) t =
              Some (spTable\<lparr>CtColNames := CtColNames spTable @ [k],
                             CtColDefs := (CtColDefs spTable)(k \<mapsto> \<lparr>CdName = k, T = Int64\<rparr>),
                             Pks := [\<lparr>Col = k, IkDesc = False\<rparr>]\<rparr>)
          \<and> k \<notin> set (CtColNames spTable) \<and> prefix ''synth_id'' k
          \<and> (''synth_id'' \<notin> set (CtColNames spTable) \<longrightarrow> k = ''synth_id'')
          \<and> SyntheticPKeys (AddPrimaryKeys conv) t = Some \<lparr>SynthCol = k, Sequence = 0\<rparr>))
   \<and> (\<forall>t spTable. SpSchema conv t = Some spTable \<and> Pks spTable \<noteq> [] \<longrightarrow>
        SpSchema (AddPrimaryKeys conv) t = Some spTable
        \<and> SyntheticPKeys (AddPrimaryKeys conv) t = SyntheticPKeys conv t)
   \<and> (\<forall>t. SpSchema conv t = None \<longrightarrow> SpSchema (AddPrimaryKeys conv) t = None)
   \<and> (\<forall>t spTable. SpSchema (AddPrimaryKeys conv) t = Some spTable \<longrightarrow> Pks spTable \<noteq> [])"
proof (intro conjI allI impI)
  fix t spTable
  assume a: "SpSchema conv t = Some spTable \<and> Pks spTable = []"
  let ?k = "buildPrimaryKey (CtColNames spTable)"
  show "\<exists>k. SpSchema (AddPrimaryKeys conv) t =
              Some (spTable\<lparr>CtColNames := CtColNames spTable @ [k],
                             CtColDefs := (CtColDefs spTable)(k \<mapsto> \<lparr>CdName = k, T = Int64\<rparr>),
                             Pks := [\<lparr>Col = k, IkDesc = False\<rparr>]\<rparr>)
          \<and> k \<notin> set (CtColNames spTable) \<and> prefix ''synth_id'' k
          \<and> (''synth_id'' \<notin> set (CtColNames spTable) \<longrightarrow> k = ''synth_id'')
          \<and> SyntheticPKeys (AddPrimaryKeys conv) t = Some \<lparr>SynthCol = k, Sequence = 0\<rparr>"
    using a buildPrimaryKey_fresh [of "CtColNames spTable"]
      buildPrimaryKey_prefix [of "CtColNames spTable"]
      buildPrimaryKey_base [of "CtColNames spTable"]
    by (intro exI [of _ ?k]) (simp add: AddPrimaryKeys_def addPrimaryKey_def Let_def)
next
  fix t spTable
  assume a: "SpSchema conv t = Some spTable \<and> Pks spTable \<noteq> []"
  then show "SpSchema (AddPrimaryKeys conv) t = Some spTable"
    and "SyntheticPKeys (AddPrimaryKeys conv) t = SyntheticPKeys conv t"
    by (simp_all add: AddPrimaryKeys_def)
next
  fix t
  assume "SpSchema conv t = None"
  then show "SpSchema (AddPrimaryKeys conv) t = None" by (simp add: AddPrimaryKeys_def)
next
  fix t spTable
  assume a: "SpSchema (AddPrimaryKeys conv) t = Some spTable"
  show "Pks spTable \<noteq> []"
  proof (cases "SpSchema conv t")
    case None
    then show ?thesis using a by (simp add: AddPrimaryKeys_def)
  next
    case (Some s0)
    then show ?thesis
      using a by (auto simp: AddPrimaryKeys_def addPrimaryKey_def Let_def split: if_splits)
  qed
qed

theorem AddPrimaryKeys_synthetic_key_witness:
  "SpSchema exSpConv ''table'' = Some exSpTable \<and> Pks exSpTable = []
   \<and> ''synth_id'' \<notin> set (CtColNames exSpTable)
   \<and> SpSchema (AddPrimaryKeys exSpConv) ''table'' =
       Some \<lparr>CtName = ''table'', CtColNames = [''a'', ''b'', ''synth_id''],
             CtColDefs = [''a'' \<mapsto> \<lparr>CdName = ''a'', T = Int64\<rparr>,
                          ''b'' \<mapsto> \<lparr>CdName = ''b'', T = Float64\<rparr>,
                          ''synth_id'' \<mapsto> \<lparr>CdName = ''synth_id'', T = Int64\<rparr>],
             Pks = [\<lparr>Col = ''synth_id'', IkDesc = False\<rparr>]\<rparr>
   \<and> SyntheticPKeys (AddPrimaryKeys exSpConv) ''table'' =
       Some \<lparr>SynthCol = ''synth_id'', Sequence = 0\<rparr>"
proof -
  have 1: "SpSchema exSpConv ''table'' = Some exSpTable" by (simp add: exSpConv_def)
  have 2: "Pks exSpTable = []" "''synth_id'' \<notin> set (CtColNames exSpTable)"
    by (simp_all add: exSpTable_def)
  from AddPrimaryKeys_synthetic_key [of exSpConv, THEN conjunct1, rule_format,
      of "''table''" exSpTable] 1 2
  obtain k where k: "SpSchema (AddPrimaryKeys exSpConv) ''table'' =
              Some (exSpTable\<lparr>CtColNames := CtColNames exSpTable @ [k],
                             CtColDefs := (CtColDefs exSpTable)(k \<mapsto> \<lparr>CdName = k, T = Int64\<rparr>),
                             Pks := [\<lparr>Col = k, IkDesc = False\<rparr>]\<rparr>)"
    "k = ''synth_id''"
    "SyntheticPKeys (AddPrimaryKeys exSpConv) ''table'' = Some \<lparr>SynthCol = k, Sequence = 0\<rparr>"
    by blast
  show ?thesis using 1 2 k by (simp add: exSpTable_def)
qed

section \<open>Properties of the two modes\<close>

lemma copyBlockLine_dataRows_eq:
  "dataRows (copyBlockLine conv t cs b) =
     dataRows conv @
     (if DataMode conv
      then [(t, cs, Split (Trim (ReplaceAll b [backslash, backslash] [backslash]) [CR, LF]) [tab])]
      else [])"
  by (simp add: copyBlockLine_def Let_def DataMode_def StatsAddRow_def ProcessDataRow_def)

lemma copy_block_lines_rows:
  assumes "\<not> EOF r" and "\<forall>b \<in> set ls. dataLine b" and "input r = concat ls @ rest"
  shows "\<exists>conv1 r1. processCopyBlock conv t cs r = processCopyBlock conv1 t cs r1
     \<and> Rows conv1 = (Rows conv)(t := Rows conv t + of_nat (length ls))
     \<and> dataRows conv1 = dataRows conv @
          (if DataMode conv
           then map (\<lambda>b. (t, cs, Split (Trim (ReplaceAll b [backslash, backslash] [backslash])
                                    [CR, LF]) [tab])) ls
           else [])
     \<and> input r1 = rest \<and> \<not> EOF r1"
  using assms
proof (induction ls arbitrary: conv r)
  case Nil
  then show ?case by auto
next
  case (Cons b ls)
  have b: "dataLine b" using Cons.prems(2) by simp
  then obtain c where bc: "b = c @ [LF]" and c: "LF \<notin> set c" and ne: "\<not> endOfBlock (c @ [LF])"
    unfolding dataLine_def by (metis append_butlast_last_id)
  let ?r1 = "r\<lparr>input := concat ls @ rest, LineNumber := LineNumber r + 1,
          Offset := Offset r + int (length c) + 1\<rparr>"
  let ?c1 = "copyBlockLine conv t cs b"
  have i: "input r = c @ LF # (concat ls @ rest)"
    using Cons.prems(3) bc by simp
  have step: "processCopyBlock conv t cs r = processCopyBlock ?c1 t cs ?r1"
    unfolding bc by (rule processCopyBlock_line [OF Cons.prems(1) i c ne])
  have "\<not> EOF ?r1" "\<forall>b \<in> set ls. dataLine b" "input ?r1 = concat ls @ rest"
    using Cons.prems by simp_all
  from Cons.IH [OF this, of ?c1] obtain conv2 r2 where
    n: "processCopyBlock ?c1 t cs ?r1 = processCopyBlock conv2 t cs r2"
    "Rows conv2 = (Rows ?c1)(t := Rows ?c1 t + of_nat (length ls))"
    "dataRows conv2 = dataRows ?c1 @
          (if DataMode ?c1
           then map (\<lambda>b. (t, cs, Split (Trim (ReplaceAll b [backslash, backslash] [backslash])
                                    [CR, LF]) [tab])) ls
           else [])"
    "input r2 = rest" "\<not> EOF r2"
    by blast
  have dm: "DataMode ?c1 = DataMode conv"
    by (simp add: DataMode_def copyBlockLine_mode)
  have "Rows conv2 = (Rows conv)(t := Rows conv t + of_nat (length (b # ls)))"
    using n(2) by (simp add: copyBlockLine_Rows fun_eq_iff)
  moreover have "dataRows conv2 = dataRows conv @
          (if DataMode conv
           then map (\<lambda>b. (t, cs, Split (Trim (ReplaceAll b [backslash, backslash] [backslash])
                                    [CR, LF]) [tab])) (b # ls)
           else [])"
    using n(3) by (simp add: dm copyBlockLine_dataRows_eq)
  ultimately show ?case
    using step n(1,4,5) by (intro exI [of _ conv2] exI [of _ r2]) simp
qed

text \<open>A copy block of data lines closed by the end-of-block marker.\<close>

lemma processCopyBlock_block:
  assumes "\<not> EOF r" and "\<forall>b \<in> set ls. dataLine b" and "input r = concat ls @ m @ rest"
    and "endOfBlock m"
  shows "Rows (fst (processCopyBlock conv t cs r)) =
           (Rows conv)(t := Rows conv t + of_nat (length ls))
     \<and> dataRows (fst (processCopyBlock conv t cs r)) =
           dataRows conv @
           (if DataMode conv
            then map (\<lambda>b. (t, cs, Split (Trim (ReplaceAll b [backslash, backslash] [backslash])
                                     [CR, LF]) [tab])) ls
            else [])
     \<and> input (snd (processCopyBlock conv t cs r)) = rest"
proof -
  from copy_block_lines_rows [OF assms(1,2,3), of conv t cs] obtain conv1 r1 where
    s: "processCopyBlock conv t cs r = processCopyBlock conv1 t cs r1"
    and c: "Rows conv1 = (Rows conv)(t := Rows conv t + of_nat (length ls))"
       "dataRows conv1 = dataRows conv @
          (if DataMode conv
           then map (\<lambda>b. (t, cs, Split (Trim (ReplaceAll b [backslash, backslash] [backslash])
                                    [CR, LF]) [tab])) ls
           else [])"
       "input r1 = m @ rest"
    by blast
  have "processCopyBlock conv1 t cs r1 =
      (conv1, r1\<lparr>input := rest, LineNumber := LineNumber r1 + 1,
                 Offset := Offset r1 + int (length m)\<rparr>)"
    using c(3) assms(4) by (intro processCopyBlock_end) simp_all
  then show ?thesis using s c by simp
qed

lemma processInsertRows_keeps_Rows: "Rows (processInsertRows conv ci rows) = Rows conv"
  by (induction rows arbitrary: conv) (simp_all add: ProcessDataRow_def)

lemma processChunk_insert:
  assumes "readAndParseChunk Parse c r = (Inr (b, [Node_InsertStmt n]), conv, r1)"
    and "ins_Relation n = Some rv" and "getTableName rv = Inr tbl"
    and "SrcSchema conv tbl = Some t" and "getCols (ins_Cols n) = Inr colNames"
    and "ins_SelectStmt n = Some (Node_SelectStmt vll)"
  shows "\<exists>conv'. processChunk Parse L c r = Inr (conv', r1)
     \<and> Rows conv' = (Rows conv)(tbl := Rows conv tbl + 1)
     \<and> dataRows conv' = dataRows conv @
          (if DataMode conv
           then map (\<lambda>vals. (tbl, if colNames = [] then ColNames t else colNames, vals))
                  (snd (getRows (StatsAddRow tbl (SchemaMode conv) conv) vll))
           else [])"
proof -
  let ?rows = "snd (getRows (StatsAddRow tbl (SchemaMode conv) conv) vll)"
  let ?ci = "\<lparr>ci_stmt = insert, ci_table = tbl, ci_cols = colNames, ci_rows = ?rows\<rparr>"
  from processInsertStmt_known [OF assms(2-6)] obtain conv1 where
    p: "processInsertStmt conv n = Inr (conv1, if DataMode conv then Some ?ci else None)"
    and f: "Rows conv1 = (Rows conv)(tbl := Rows conv tbl + 1)"
      "dataRows conv1 = dataRows conv" "SrcSchema conv1 = SrcSchema conv"
    by blast
  show ?thesis
  proof (cases "DataMode conv")
    case True
    have st: "srcTableOf conv1 tbl = t" using f(3) assms(4) by (simp add: srcTableOf_def)
    have run: "processChunk Parse L c r = Inr (processInsertRows conv1 ?ci ?rows, r1)"
      using assms(1) p True by (simp add: processChunk_def)
    have "dataRows (processInsertRows conv1 ?ci ?rows) =
        dataRows conv1 @
        map (\<lambda>vals. (tbl, if colNames = [] then ColNames t else colNames, vals)) ?rows"
      using processInsertRows_rows [of conv1 ?ci ?rows] st by simp
    then show ?thesis
      using run True f by (simp add: processInsertRows_keeps_Rows)
  next
    case False
    have "processChunk Parse L c r = Inr (conv1, r1)"
      using assms(1) p False by (simp add: processChunk_def)
    then show ?thesis using False f by simp
  qed
qed

lemma processChunk_copy:
  assumes "readAndParseChunk Parse c r = (Inr (b, [Node_CopyStmt m]), conv, r1)"
    and "cp_Relation m = Some rv" and "getTableName rv = Inr tbl"
    and "SrcSchema conv tbl = Some t"
    and "\<not> EOF r1" and "\<forall>l \<in> set ls. dataLine l" and "input r1 = concat ls @ mk @ rest"
    and "endOfBlock mk"
  shows "\<exists>conv' r' cs. processChunk Parse L c r = Inr (conv', r')
     \<and> Rows conv' = (Rows conv)(tbl := Rows conv tbl + of_nat (length ls))
     \<and> dataRows conv' = dataRows conv @
          (if DataMode conv
           then map (\<lambda>l. (tbl, cs, Split (Trim (ReplaceAll l [backslash, backslash] [backslash])
                                      [CR, LF]) [tab])) ls
           else [])
     \<and> input r' = rest"
proof -
  from processCopyStmt_known [OF assms(2,3,4)] obtain conv1 cs where
    p: "processCopyStmt conv m =
        (conv1, \<lparr>ci_stmt = copyFrom, ci_table = tbl, ci_cols = cs, ci_rows = []\<rparr>)"
    and f: "dataRows conv1 = dataRows conv" "mode conv1 = mode conv" "Rows conv1 = Rows conv"
    by blast
  have dm: "DataMode conv1 = DataMode conv" using f(2) by (simp add: DataMode_def)
  have run: "processChunk Parse L c r = Inr (processCopyBlock conv1 tbl cs r1)"
    using assms(1) p by (simp add: processChunk_def)
  note blk = processCopyBlock_block [OF assms(5,6,7,8), of conv1 tbl cs]
  show ?thesis
    apply (rule exI [of _ "fst (processCopyBlock conv1 tbl cs r1)"])
    apply (rule exI [of _ "snd (processCopyBlock conv1 tbl cs r1)"])
    apply (rule exI [of _ cs])
    using run blk f dm by simp
qed


text \<open>Claim C6. Insert and copy statements are handled in both modes: neither
  \<open>processStatements\<close> nor the chunk loop guards them by the mode. An insert statement
  into a table of the schema adds one to the row counter of the table and is counted as a
  data statement whatever the mode, but it yields its rows only in data mode; the chunk
  that holds it hands these rows to the row converter in data mode and hands over nothing
  otherwise. A copy statement for a table of the schema is counted as a data statement and
  starts a copy block whatever the mode. \<open>processCopyBlock\<close>, run on a block of data lines
  closed by the end-of-block marker, adds the number of lines to the row counter of the
  table whatever the mode, and hands the decoded values of every line, in order, to the row
  converter in data mode and nothing otherwise; the same holds of the chunk that holds the
  copy statement and is followed by the block. Over a whole run that is not in data mode
  the row converter is never called.\<close>

theorem copy_and_insert_in_both_modes:
  "(\<forall>(n::InsertStmt) rv tbl t colNames vll post.
      ins_Relation n = Some rv \<and> getTableName rv = Inr tbl \<and> SrcSchema conv tbl = Some t
      \<and> getCols (ins_Cols n) = Inr colNames \<and> ins_SelectStmt n = Some (Node_SelectStmt vll)
      \<longrightarrow> (\<exists>conv1. processStatements L conv (Node_InsertStmt n # post) =
               Inr (conv1,
                    if DataMode conv
                    then Some \<lparr>ci_stmt = insert, ci_table = tbl, ci_cols = colNames,
                               ci_rows = snd (getRows (StatsAddRow tbl (SchemaMode conv) conv) vll)\<rparr>
                    else None)
             \<and> Rows conv1 = (Rows conv)(tbl := Rows conv tbl + 1)
             \<and> DataStmts conv1 = DataStmts conv @ [''SelectStmt'']
             \<and> dataRows conv1 = dataRows conv))
   \<and> (\<forall>(m::CopyStmt) rv tbl t.
        cp_Relation m = Some rv \<and> getTableName rv = Inr tbl \<and> SrcSchema conv tbl = Some t
        \<longrightarrow> (\<exists>conv1 cs. processStatements L conv [Node_CopyStmt m] =
                 Inr (conv1, Some \<lparr>ci_stmt = copyFrom, ci_table = tbl, ci_cols = cs,
                                    ci_rows = []\<rparr>)
               \<and> DataStmts conv1 = DataStmts conv @ [''CopyStmt'']
               \<and> dataRows conv1 = dataRows conv \<and> mode conv1 = mode conv))
   \<and> (\<forall>t cs r ls mk rest.
        \<not> EOF r \<and> (\<forall>b \<in> set ls. dataLine b) \<and> input r = concat ls @ mk @ rest
        \<and> endOfBlock mk
        \<longrightarrow> Rows (fst (processCopyBlock conv t cs r)) =
              (Rows conv)(t := Rows conv t + of_nat (length ls))
            \<and> dataRows (fst (processCopyBlock conv t cs r)) =
                dataRows conv @
                (if DataMode conv
                 then map (\<lambda>b. (t, cs,
                            Split (Trim (ReplaceAll b [backslash, backslash] [backslash])
                                     [CR, LF]) [tab])) ls
                 else [])
            \<and> input (snd (processCopyBlock conv t cs r)) = rest)
   \<and> (\<forall>Parse c r b (n::InsertStmt) r1 rv tbl t colNames vll.
        readAndParseChunk Parse c r = (Inr (b, [Node_InsertStmt n]), conv, r1)
        \<and> ins_Relation n = Some rv \<and> getTableName rv = Inr tbl \<and> SrcSchema conv tbl = Some t
        \<and> getCols (ins_Cols n) = Inr colNames \<and> ins_SelectStmt n = Some (Node_SelectStmt vll)
        \<longrightarrow> (\<exists>conv'. processChunk Parse L c r = Inr (conv', r1)
              \<and> Rows conv' = (Rows conv)(tbl := Rows conv tbl + 1)
              \<and> dataRows conv' =
                  dataRows conv @
                  (if DataMode conv
                   then map (\<lambda>vals. (tbl, if colNames = [] then ColNames t else colNames, vals))
                          (snd (getRows (StatsAddRow tbl (SchemaMode conv) conv) vll))
                   else [])))
   \<and> (\<forall>Parse c r b (m::CopyStmt) r1 rv tbl t ls mk rest.
        readAndParseChunk Parse c r = (Inr (b, [Node_CopyStmt m]), conv, r1)
        \<and> cp_Relation m = Some rv \<and> getTableName rv = Inr tbl \<and> SrcSchema conv tbl = Some t
        \<and> \<not> EOF r1 \<and> (\<forall>l \<in> set ls. dataLine l) \<and> input r1 = concat ls @ mk @ rest
        \<and> endOfBlock mk
        \<longrightarrow> (\<exists>conv' r' cs. processChunk Parse L c r = Inr (conv', r')
              \<and> Rows conv' = (Rows conv)(tbl := Rows conv tbl + of_nat (length ls))
              \<and> dataRows conv' =
                  dataRows conv @
                  (if DataMode conv
                   then map (\<lambda>l. (tbl, cs,
                              Split (Trim (ReplaceAll l [backslash, backslash] [backslash])
                                       [CR, LF]) [tab])) ls
                   else [])
              \<and> input r' = rest))
   \<and> (\<forall>Parse r conv' r'.
        \<not> DataMode conv \<and> processPgDump Parse L conv r = Inr (conv', r')
        \<longrightarrow> dataRows conv' = dataRows conv)"
proof (intro conjI allI impI)
  fix n :: InsertStmt and rv tbl t colNames vll post
  assume a: "ins_Relation n = Some rv \<and> getTableName rv = Inr tbl \<and> SrcSchema conv tbl = Some t
      \<and> getCols (ins_Cols n) = Inr colNames \<and> ins_SelectStmt n = Some (Node_SelectStmt vll)"
  from processInsertStmt_known [of n rv tbl conv t colNames vll] a
  show "\<exists>conv1. processStatements L conv (Node_InsertStmt n # post) =
               Inr (conv1,
                    if DataMode conv
                    then Some \<lparr>ci_stmt = insert, ci_table = tbl, ci_cols = colNames,
                               ci_rows = snd (getRows (StatsAddRow tbl (SchemaMode conv) conv) vll)\<rparr>
                    else None)
             \<and> Rows conv1 = (Rows conv)(tbl := Rows conv tbl + 1)
             \<and> DataStmts conv1 = DataStmts conv @ [''SelectStmt'']
             \<and> dataRows conv1 = dataRows conv"
    by auto
next
  fix m :: CopyStmt and rv tbl t
  assume a: "cp_Relation m = Some rv \<and> getTableName rv = Inr tbl \<and> SrcSchema conv tbl = Some t"
  from processCopyStmt_known [of m rv tbl conv t] a
  show "\<exists>conv1 cs. processStatements L conv [Node_CopyStmt m] =
                 Inr (conv1, Some \<lparr>ci_stmt = copyFrom, ci_table = tbl, ci_cols = cs,
                                    ci_rows = []\<rparr>)
               \<and> DataStmts conv1 = DataStmts conv @ [''CopyStmt'']
               \<and> dataRows conv1 = dataRows conv \<and> mode conv1 = mode conv"
    by auto
next
  fix t cs and r :: Reader and ls mk rest
  assume a: "\<not> EOF r \<and> (\<forall>b \<in> set ls. dataLine b) \<and> input r = concat ls @ mk @ rest
        \<and> endOfBlock mk"
  then have h: "\<not> EOF r" "\<forall>b \<in> set ls. dataLine b" "input r = concat ls @ mk @ rest"
    "endOfBlock mk"
    by simp_all
  note blk = processCopyBlock_block [OF h, of conv t cs]
  show "Rows (fst (processCopyBlock conv t cs r)) =
              (Rows conv)(t := Rows conv t + of_nat (length ls))"
    using blk by (rule conjunct1)
  show "dataRows (fst (processCopyBlock conv t cs r)) =
                dataRows conv @
                (if DataMode conv
                 then map (\<lambda>b. (t, cs,
                            Split (Trim (ReplaceAll b [backslash, backslash] [backslash])
                                     [CR, LF]) [tab])) ls
                 else [])"
    using blk by (rule conjunct2 [THEN conjunct1])
  show "input (snd (processCopyBlock conv t cs r)) = rest"
    using blk by (rule conjunct2 [THEN conjunct2])
next
  fix Parse c r b and n :: InsertStmt and r1 rv tbl t colNames vll
  assume a: "readAndParseChunk Parse c r = (Inr (b, [Node_InsertStmt n]), conv, r1)
        \<and> ins_Relation n = Some rv \<and> getTableName rv = Inr tbl \<and> SrcSchema conv tbl = Some t
        \<and> getCols (ins_Cols n) = Inr colNames \<and> ins_SelectStmt n = Some (Node_SelectStmt vll)"
  then have h: "readAndParseChunk Parse c r = (Inr (b, [Node_InsertStmt n]), conv, r1)"
    "ins_Relation n = Some rv" "getTableName rv = Inr tbl" "SrcSchema conv tbl = Some t"
    "getCols (ins_Cols n) = Inr colNames" "ins_SelectStmt n = Some (Node_SelectStmt vll)"
    by simp_all
  show "\<exists>conv'. processChunk Parse L c r = Inr (conv', r1)
              \<and> Rows conv' = (Rows conv)(tbl := Rows conv tbl + 1)
              \<and> dataRows conv' =
                  dataRows conv @
                  (if DataMode conv
                   then map (\<lambda>vals. (tbl, if colNames = [] then ColNames t else colNames, vals))
                          (snd (getRows (StatsAddRow tbl (SchemaMode conv) conv) vll))
                   else [])"
    by (rule processChunk_insert [OF h])
next
  fix Parse c r b and m :: CopyStmt and r1 rv tbl t ls mk rest
  assume a: "readAndParseChunk Parse c r = (Inr (b, [Node_CopyStmt m]), conv, r1)
        \<and> cp_Relation m = Some rv \<and> getTableName rv = Inr tbl \<and> SrcSchema conv tbl = Some t
        \<and> \<not> EOF r1 \<and> (\<forall>l \<in> set ls. dataLine l) \<and> input r1 = concat ls @ mk @ rest
        \<and> endOfBlock mk"
  then have h: "readAndParseChunk Parse c r = (Inr (b, [Node_CopyStmt m]), conv, r1)"
    "cp_Relation m = Some rv" "getTableName rv = Inr tbl" "SrcSchema conv tbl = Some t"
    "\<not> EOF r1" "\<forall>l \<in> set ls. dataLine l" "input r1 = concat ls @ mk @ rest" "endOfBlock mk"
    by simp_all
  show "\<exists>conv' r' cs. processChunk Parse L c r = Inr (conv', r')
              \<and> Rows conv' = (Rows conv)(tbl := Rows conv tbl + of_nat (length ls))
              \<and> dataRows conv' =
                  dataRows conv @
                  (if DataMode conv
                   then map (\<lambda>l. (tbl, cs,
                              Split (Trim (ReplaceAll l [backslash, backslash] [backslash])
                                       [CR, LF]) [tab])) ls
                   else [])
              \<and> input r' = rest"
    by (rule processChunk_copy [OF h])
next
  fix Parse r conv' r'
  assume "\<not> DataMode conv \<and> processPgDump Parse L conv r = Inr (conv', r')"
  then have "keeps conv conv'" using processPgDump_schema_mode by blast
  then show "dataRows conv' = dataRows conv" by (simp add: keeps_def)
qed

lemma exDump_chunk:
  "readAndParseChunk exDumpParse c exDump =
     (Inr (''COPY t;'' @ [LF], [Node_CopyStmt exCopy]), c,
      \<lparr>input = ''1'' @ [LF] @ [backslash, CHR ''.'', LF], LineNumber = 1, Offset = 8,
       EOF = False\<rparr>)"
  by (simp add: readAndParseChunk_def readAndParseChunk_loop.simps ReadLine_def exDump_def
        NewReader_def exDumpParse_def Contains_semicolon)

lemma exInsertDump_chunk:
  "readAndParseChunk exInsertParse c exInsertDump =
     (Inr (''INSERT;'' @ [LF], [Node_InsertStmt exInsert]), c,
      \<lparr>input = [], LineNumber = 1, Offset = 8, EOF = False\<rparr>)"
  by (simp add: readAndParseChunk_def readAndParseChunk_loop.simps ReadLine_def
        exInsertDump_def NewReader_def exInsertParse_def Contains_semicolon)

lemma exDump_run:
  "\<exists>conv' r'. processPgDump exDumpParse exLoad exConv exDump = Inr (conv', r')
     \<and> Rows conv' ''t'' = 1"
  by (simp add: processPgDump.simps processChunk_def readAndParseChunk_def
        readAndParseChunk_loop.simps ReadLine_def exDump_def NewReader_def exDumpParse_def
        Contains_semicolon processCopyStmt_def exCopy_def exRv_name exConv_t
        getString_def DataStatement_def processCopyBlock.simps StatsAddRow_def
        SchemaMode_def DataMode_def exConv_def MakeConv_def Unexpected_def)

theorem copy_and_insert_in_both_modes_witness:
  "ins_Relation exInsert = Some exRv \<and> getTableName exRv = Inr ''t''
   \<and> SrcSchema exConv ''t'' = Some exT \<and> getCols (ins_Cols exInsert) = Inr []
   \<and> ins_SelectStmt exInsert = Some (Node_SelectStmt exValues)
   \<and> cp_Relation exCopy = Some exRv
   \<and> \<not> DataMode exConv \<and> DataMode exDataConvT
   \<and> (\<exists>conv1. processStatements exLoad exConv [Node_InsertStmt exInsert] = Inr (conv1, None)
         \<and> Rows conv1 ''t'' = 1 \<and> dataRows conv1 = [])
   \<and> (\<exists>conv1. processStatements exLoad exDataConvT [Node_InsertStmt exInsert] =
           Inr (conv1, Some \<lparr>ci_stmt = insert, ci_table = ''t'', ci_cols = [],
                              ci_rows = [[''1'', ''x '']]\<rparr>)
         \<and> Rows conv1 ''t'' = 1)
   \<and> (\<exists>conv1 cs. processStatements exLoad exConv [Node_CopyStmt exCopy] =
           Inr (conv1, Some \<lparr>ci_stmt = copyFrom, ci_table = ''t'', ci_cols = cs, ci_rows = []\<rparr>)
         \<and> DataStmts conv1 = [''CopyStmt''])
   \<and> \<not> EOF exBlockReader \<and> dataLine (exRowLine @ [LF]) \<and> dataLine (''7'' @ [LF])
   \<and> endOfBlock [backslash, CHR ''.'', LF]
   \<and> input exBlockReader =
       concat [exRowLine @ [LF], ''7'' @ [LF]] @ [backslash, CHR ''.'', LF] @ ''rest''
   \<and> Rows (fst (processCopyBlock exConv ''t'' [''a''] exBlockReader)) ''t'' = 2
   \<and> dataRows (fst (processCopyBlock exConv ''t'' [''a''] exBlockReader)) = []
   \<and> Rows (fst (processCopyBlock exDataConvT ''t'' [''a''] exBlockReader)) ''t'' = 2
   \<and> dataRows (fst (processCopyBlock exDataConvT ''t'' [''a''] exBlockReader)) =
       [(''t'', [''a''], exRow), (''t'', [''a''], [''7''])]
   \<and> input (snd (processCopyBlock exDataConvT ''t'' [''a''] exBlockReader)) = ''rest''
   \<and> (\<exists>conv'. processChunk exInsertParse exLoad exConv exInsertDump =
           Inr (conv', \<lparr>input = [], LineNumber = 1, Offset = 8, EOF = False\<rparr>)
         \<and> Rows conv' ''t'' = 1 \<and> dataRows conv' = [])
   \<and> (\<exists>conv'. processChunk exInsertParse exLoad exDataConvT exInsertDump =
           Inr (conv', \<lparr>input = [], LineNumber = 1, Offset = 8, EOF = False\<rparr>)
         \<and> Rows conv' ''t'' = 1 \<and> dataRows conv' = [(''t'', [''a'', ''b''], [''1'', ''x ''])])
   \<and> dataLine (''1'' @ [LF])
   \<and> (\<exists>conv' r'. processChunk exDumpParse exLoad exConv exDump = Inr (conv', r')
         \<and> Rows conv' ''t'' = 1 \<and> dataRows conv' = [] \<and> input r' = [])
   \<and> (\<exists>conv' r' cs. processChunk exDumpParse exLoad exDataConvT exDump = Inr (conv', r')
         \<and> Rows conv' ''t'' = 1 \<and> dataRows conv' = [(''t'', cs, [''1''])] \<and> input r' = [])
   \<and> (\<exists>conv' r'. processPgDump exDumpParse exLoad exConv exDump = Inr (conv', r')
         \<and> Rows conv' ''t'' = 1 \<and> dataRows conv' = [])"
proof -
  have 1: "ins_Relation exInsert = Some exRv" "getCols (ins_Cols exInsert) = Inr []"
    "ins_SelectStmt exInsert = Some (Node_SelectStmt exValues)"
    by (simp_all add: exInsert_def)
  have 2: "cp_Relation exCopy = Some exRv" by (simp add: exCopy_def)
  have 3: "\<not> DataMode exConv" "DataMode exDataConvT"
    by (simp_all add: DataMode_def exConv_def exDataConvT_def MakeConv_def)
  have 4: "Rows exConv ''t'' = 0" "Rows exDataConvT ''t'' = 0" "dataRows exConv = []"
    "DataStmts exConv = []" "dataRows exDataConvT = []"
    by (simp_all add: exConv_def exDataConvT_def MakeConv_def)
  have 5: "snd (getRows (StatsAddRow ''t'' (SchemaMode exDataConvT) exDataConvT) exValues) =
      [[''1'', ''x '']]"
    by (simp add: exValues_def trimString_def trimQuote_def trimEscapeChars_def TrimPrefix_def
          ReplaceAll.simps FormatInt_def digitsOf.simps)
  have 6: "SrcSchema exDataConvT ''t'' = Some exT" "ColNames exT = [''a'', ''b'']"
    using exConv_t by (simp_all add: exDataConvT_def exT_def)
  have 7: "\<not> EOF exBlockReader"
    "input exBlockReader =
       concat [exRowLine @ [LF], ''7'' @ [LF]] @ [backslash, CHR ''.'', LF] @ ''rest''"
    by (simp_all add: exBlockReader_def NewReader_def)
  have 8: "dataLine (exRowLine @ [LF])" "dataLine (''7'' @ [LF])" "dataLine (''1'' @ [LF])"
    by (simp_all add: dataLine_def endOfBlock_def exRowLine_def)
  then have 9: "\<forall>b \<in> set [exRowLine @ [LF], ''7'' @ [LF]]. dataLine b"
    "\<forall>b \<in> set [''1'' @ [LF]]. dataLine b"
    by simp_all
  have 10: "endOfBlock [backslash, CHR ''.'', LF]" by (simp add: endOfBlock_def)
  have 11: "Split (Trim (ReplaceAll (exRowLine @ [LF]) [backslash, backslash] [backslash])
                     [CR, LF]) [tab] = exRow"
    "Split (Trim (ReplaceAll (''7'' @ [LF]) [backslash, backslash] [backslash])
                     [CR, LF]) [tab] = [''7'']"
    "Split (Trim (ReplaceAll (''1'' @ [LF]) [backslash, backslash] [backslash])
                     [CR, LF]) [tab] = [''1'']"
    by (simp_all add: exRowLine_def exRow_def ReplaceAll.simps Trim_def Split_def
          splitFrom.simps)
  note s = copy_and_insert_in_both_modes [of exConv exLoad]
  note d = copy_and_insert_in_both_modes [of exDataConvT exLoad]
  from s [THEN conjunct1, rule_format, of exInsert exRv "''t''" exT "[]" exValues "[]"]
  have a: "\<exists>conv1. processStatements exLoad exConv [Node_InsertStmt exInsert] = Inr (conv1, None)
         \<and> Rows conv1 ''t'' = 1 \<and> dataRows conv1 = []"
    using 1 3 4 exRv_name exConv_t by auto
  from d [THEN conjunct1, rule_format, of exInsert exRv "''t''" exT "[]" exValues "[]"]
  have b: "\<exists>conv1. processStatements exLoad exDataConvT [Node_InsertStmt exInsert] =
           Inr (conv1, Some \<lparr>ci_stmt = insert, ci_table = ''t'', ci_cols = [],
                              ci_rows = [[''1'', ''x '']]\<rparr>)
         \<and> Rows conv1 ''t'' = 1"
    using 1 3 4 5 6 exRv_name by auto
  from s [THEN conjunct2, THEN conjunct1, rule_format, of exCopy exRv "''t''" exT]
  have c: "\<exists>conv1 cs. processStatements exLoad exConv [Node_CopyStmt exCopy] =
           Inr (conv1, Some \<lparr>ci_stmt = copyFrom, ci_table = ''t'', ci_cols = cs, ci_rows = []\<rparr>)
         \<and> DataStmts conv1 = [''CopyStmt'']"
    using 2 4 exRv_name exConv_t by auto
  from s [THEN conjunct2, THEN conjunct2, THEN conjunct1, rule_format,
      of exBlockReader "[exRowLine @ [LF], ''7'' @ [LF]]" "[backslash, CHR ''.'', LF]" "''rest''"
         "''t''" "[''a'']"]
  have e: "Rows (fst (processCopyBlock exConv ''t'' [''a''] exBlockReader)) ''t'' = 2"
    "dataRows (fst (processCopyBlock exConv ''t'' [''a''] exBlockReader)) = []"
    using 3 4 7 9 10 by simp_all
  from d [THEN conjunct2, THEN conjunct2, THEN conjunct1, rule_format,
      of exBlockReader "[exRowLine @ [LF], ''7'' @ [LF]]" "[backslash, CHR ''.'', LF]" "''rest''"
         "''t''" "[''a'']"]
  have f: "Rows (fst (processCopyBlock exDataConvT ''t'' [''a''] exBlockReader)) ''t'' = 2"
    "dataRows (fst (processCopyBlock exDataConvT ''t'' [''a''] exBlockReader)) =
       [(''t'', [''a''], exRow), (''t'', [''a''], [''7''])]"
    "input (snd (processCopyBlock exDataConvT ''t'' [''a''] exBlockReader)) = ''rest''"
    using 3 4 7 9 10 11 by simp_all
  from s [THEN conjunct2, THEN conjunct2, THEN conjunct2, THEN conjunct1, rule_format,
      of exInsertParse exConv exInsertDump "''INSERT;'' @ [LF]" exInsert
         "\<lparr>input = [], LineNumber = 1, Offset = 8, EOF = False\<rparr>" exRv "''t''" exT "[]" exValues]
  have g: "\<exists>conv'. processChunk exInsertParse exLoad exConv exInsertDump =
           Inr (conv', \<lparr>input = [], LineNumber = 1, Offset = 8, EOF = False\<rparr>)
         \<and> Rows conv' ''t'' = 1 \<and> dataRows conv' = []"
    using 1 3 4 exRv_name exConv_t exInsertDump_chunk [of exConv] by auto
  from d [THEN conjunct2, THEN conjunct2, THEN conjunct2, THEN conjunct1, rule_format,
      of exInsertParse exDataConvT exInsertDump "''INSERT;'' @ [LF]" exInsert
         "\<lparr>input = [], LineNumber = 1, Offset = 8, EOF = False\<rparr>" exRv "''t''" exT "[]" exValues]
  have h: "\<exists>conv'. processChunk exInsertParse exLoad exDataConvT exInsertDump =
           Inr (conv', \<lparr>input = [], LineNumber = 1, Offset = 8, EOF = False\<rparr>)
         \<and> Rows conv' ''t'' = 1 \<and> dataRows conv' = [(''t'', [''a'', ''b''], [''1'', ''x ''])]"
    using 1 3 4 5 6 exRv_name exInsertDump_chunk [of exDataConvT] by auto
  from s [THEN conjunct2, THEN conjunct2, THEN conjunct2, THEN conjunct2, THEN conjunct1,
      rule_format,
      of exDumpParse exConv exDump "''COPY t;'' @ [LF]" exCopy
         "\<lparr>input = ''1'' @ [LF] @ [backslash, CHR ''.'', LF], LineNumber = 1, Offset = 8,
           EOF = False\<rparr>" exRv "''t''" exT "[''1'' @ [LF]]" "[backslash, CHR ''.'', LF]" "[]"]
  have i: "\<exists>conv' r'. processChunk exDumpParse exLoad exConv exDump = Inr (conv', r')
         \<and> Rows conv' ''t'' = 1 \<and> dataRows conv' = [] \<and> input r' = []"
    using 2 3 4 9 10 exRv_name exConv_t exDump_chunk [of exConv] by auto
  from d [THEN conjunct2, THEN conjunct2, THEN conjunct2, THEN conjunct2, THEN conjunct1,
      rule_format,
      of exDumpParse exDataConvT exDump "''COPY t;'' @ [LF]" exCopy
         "\<lparr>input = ''1'' @ [LF] @ [backslash, CHR ''.'', LF], LineNumber = 1, Offset = 8,
           EOF = False\<rparr>" exRv "''t''" exT "[''1'' @ [LF]]" "[backslash, CHR ''.'', LF]" "[]"]
  have j: "\<exists>conv' r' cs. processChunk exDumpParse exLoad exDataConvT exDump = Inr (conv', r')
         \<and> Rows conv' ''t'' = 1 \<and> dataRows conv' = [(''t'', cs, [''1''])] \<and> input r' = []"
    using 2 3 4 6 9 10 11 exRv_name exDump_chunk [of exDataConvT] by auto
  obtain conv' r' where run: "processPgDump exDumpParse exLoad exConv exDump = Inr (conv', r')"
    "Rows conv' ''t'' = 1"
    using exDump_run by blast
  from s [THEN conjunct2, THEN conjunct2, THEN conjunct2, THEN conjunct2, THEN conjunct2,
      rule_format, of exDumpParse exDump conv' r'] run 3 4
  have k: "\<exists>conv' r'. processPgDump exDumpParse exLoad exConv exDump = Inr (conv', r')
         \<and> Rows conv' ''t'' = 1 \<and> dataRows conv' = []"
    by auto
  show ?thesis
    using 1 2 3 7 8 10 a b c e f g h i j k exRv_name exConv_t by blast
qed

end
